(* ===== verification/Vine_Prelude.thy ===== *)
theory Vine_Prelude
  imports
    Complex_Main
    "HOL-Library.Word"
    "HOL-Library.Char_ord"
    "HOL-Library.List_Lexorder"
    "HOL-Library.AList"
    "HOL-Library.Monad_Syntax"
begin

unbundle bit_operations_syntax

text \<open>
  Shared vocabulary of the development: the machine types of the Rust sources, the parts of
  Rust's standard library the sources call (string slices, integer parsing and printing, hash
  maps, big-endian byte conversions), and the lemmas about them the components share.

  Conventions. A Rust \<^verbatim>\<open>String\<close> or \<^verbatim>\<open>&str\<close> is a \<^typ>\<open>string\<close>: the list of its UTF-8 bytes,
  one \<^typ>\<open>char\<close> per byte, so that \<^const>\<open>length\<close> is Rust's \<^verbatim>\<open>len()\<close> (a byte count) and
  the list order of \<^verbatim>\<open>HOL-Library.List_Lexorder\<close> is Rust's byte-wise \<^verbatim>\<open>Ord\<close>. A
  \<^verbatim>\<open>Vec<u8>\<close> is a list of 8-bit words. A \<^verbatim>\<open>HashMap\<close> is an association list: its
  iteration order is the list order, about which nothing is assumed, and its keys are distinct
  (a hypothesis where it matters). A \<^verbatim>\<open>Result<T, E>\<close> is a sum, with \<^const>\<open>Inl\<close> the error.
\<close>

named_theorems str_simps \<open>rewrite rules for the string operations\<close>
named_theorems case_simps \<open>rewrite rules for ASCII case folding\<close>

section \<open>Machine types\<close>

type_synonym u8 = "8 word"
type_synonym u16 = "16 word"
type_synonym u32 = "32 word"
type_synonym u64 = "64 word"
type_synonym i32 = "32 word"
type_synonym i64 = "64 word"
type_synonym bytes = "u8 list"
type_synonym ('k, 'v) hmap = "('k \<times> 'v) list"

abbreviation code :: "char \<Rightarrow> nat" where
  "code c \<equiv> of_char c"

definition as_bytes :: "string \<Rightarrow> bytes" where
  "as_bytes s = map (\<lambda>c. of_char c) s"

definition bytes_to_string :: "bytes \<Rightarrow> string" where
  "bytes_to_string bs = map (\<lambda>b. char_of (unat b)) bs"

section \<open>ASCII case folding\<close>

definition ascii_lower :: "char \<Rightarrow> char" where
  "ascii_lower c = (if 65 \<le> code c \<and> code c \<le> 90 then char_of (code c + 32) else c)"

definition to_ascii_lowercase :: "string \<Rightarrow> string" where
  "to_ascii_lowercase s = map ascii_lower s"

definition eq_ignore_ascii_case :: "string \<Rightarrow> string \<Rightarrow> bool" where
  "eq_ignore_ascii_case a b \<longleftrightarrow> to_ascii_lowercase a = to_ascii_lowercase b"

definition is_ascii_alphanumeric :: "char \<Rightarrow> bool" where
  "is_ascii_alphanumeric c \<longleftrightarrow>
     (48 \<le> code c \<and> code c \<le> 57) \<or> (65 \<le> code c \<and> code c \<le> 90) \<or> (97 \<le> code c \<and> code c \<le> 122)"

section \<open>String slices\<close>

definition starts_with :: "'a list \<Rightarrow> 'a list \<Rightarrow> bool" where
  "starts_with p s \<longleftrightarrow> take (length p) s = p"

definition strip_prefix :: "'a list \<Rightarrow> 'a list \<Rightarrow> 'a list option" where
  "strip_prefix p s = (if starts_with p s then Some (drop (length p) s) else None)"

definition strip_suffix :: "'a list \<Rightarrow> 'a list \<Rightarrow> 'a list option" where
  "strip_suffix p s =
     (let n = length s - length p
      in if length p \<le> length s \<and> drop n s = p then Some (take n s) else None)"

fun split_by :: "('a \<Rightarrow> bool) \<Rightarrow> 'a list \<Rightarrow> 'a list list" where
  "split_by P [] = [[]]"
| "split_by P (c # cs) =
     (if P c then [] # split_by P cs
      else (case split_by P cs of [] \<Rightarrow> [[c]] | w # ws \<Rightarrow> (c # w) # ws))"

abbreviation split_on :: "'a \<Rightarrow> 'a list \<Rightarrow> 'a list list" where
  "split_on d s \<equiv> split_by (\<lambda>c. c = d) s"

fun join :: "'a list \<Rightarrow> 'a list list \<Rightarrow> 'a list" where
  "join sep [] = []"
| "join sep [x] = x"
| "join sep (x # y # xs) = x @ sep @ join sep (y # xs)"

fun rsplit_once :: "'a \<Rightarrow> 'a list \<Rightarrow> ('a list \<times> 'a list) option" where
  "rsplit_once d [] = None"
| "rsplit_once d (c # cs) =
     (case rsplit_once d cs of
        Some (a, b) \<Rightarrow> Some (c # a, b)
      | None \<Rightarrow> if c = d then Some ([], cs) else None)"

definition replace_char :: "char \<Rightarrow> string \<Rightarrow> string \<Rightarrow> string" where
  "replace_char d r s = concat (map (\<lambda>c. if c = d then r else [c]) s)"

section \<open>Unicode scalar values inside a UTF-8 string\<close>

definition utf8_len :: "char \<Rightarrow> nat" where
  "utf8_len c = (if code c < 128 then 1 else if code c < 224 then 2 else if code c < 240 then 3 else 4)"

fun utf8_chars :: "string \<Rightarrow> string list" where
  "utf8_chars [] = []"
| "utf8_chars (c # cs) =
     (c # take (utf8_len c - 1) cs) # utf8_chars (drop (utf8_len c - 1) cs)"

definition is_cont :: "char \<Rightarrow> bool" where
  "is_cont c \<longleftrightarrow> 128 \<le> code c \<and> code c \<le> 191"

definition is_utf8_char :: "string \<Rightarrow> bool" where
  "is_utf8_char g \<longleftrightarrow>
     (case g of
        [a] \<Rightarrow> code a < 128
      | [a, b] \<Rightarrow> 194 \<le> code a \<and> code a \<le> 223 \<and> is_cont b
      | [a, b, c] \<Rightarrow> 224 \<le> code a \<and> code a \<le> 239 \<and> is_cont b \<and> is_cont c
          \<and> (code a = 224 \<longrightarrow> 160 \<le> code b) \<and> (code a = 237 \<longrightarrow> code b \<le> 159)
      | [a, b, c, d] \<Rightarrow> 240 \<le> code a \<and> code a \<le> 244 \<and> is_cont b \<and> is_cont c \<and> is_cont d
          \<and> (code a = 240 \<longrightarrow> 144 \<le> code b) \<and> (code a = 244 \<longrightarrow> code b \<le> 143)
      | _ \<Rightarrow> False)"

definition utf8_valid :: "string \<Rightarrow> bool" where
  "utf8_valid s \<longleftrightarrow> list_all is_utf8_char (utf8_chars s)"

definition from_utf8 :: "bytes \<Rightarrow> string option" where
  "from_utf8 bs = (let s = bytes_to_string bs in if utf8_valid s then Some s else None)"

definition is_control :: "string \<Rightarrow> bool" where
  "is_control g \<longleftrightarrow>
     (case g of
        [a] \<Rightarrow> code a < 32 \<or> code a = 127
      | [a, b] \<Rightarrow> code a = 194 \<and> 128 \<le> code b \<and> code b \<le> 159
      | _ \<Rightarrow> False)"

definition is_whitespace :: "string \<Rightarrow> bool" where
  "is_whitespace g \<longleftrightarrow>
     (case g of
        [a] \<Rightarrow> (9 \<le> code a \<and> code a \<le> 13) \<or> code a = 32
      | [a, b] \<Rightarrow> code a = 194 \<and> (code b = 133 \<or> code b = 160)
      | [a, b, c] \<Rightarrow>
          (code a = 225 \<and> code b = 154 \<and> code c = 128)
          \<or> (code a = 226 \<and> code b = 128 \<and> 128 \<le> code c \<and> code c \<le> 138)
          \<or> (code a = 226 \<and> code b = 128 \<and> (code c = 168 \<or> code c = 169 \<or> code c = 175))
          \<or> (code a = 226 \<and> code b = 129 \<and> code c = 159)
          \<or> (code a = 227 \<and> code b = 128 \<and> code c = 128)
      | _ \<Rightarrow> False)"

definition trim_start :: "string \<Rightarrow> string" where
  "trim_start s = concat (dropWhile is_whitespace (utf8_chars s))"

definition trim_end :: "string \<Rightarrow> string" where
  "trim_end s = concat (rev (dropWhile is_whitespace (rev (utf8_chars s))))"

definition trim :: "string \<Rightarrow> string" where
  "trim s = trim_end (trim_start s)"

definition split_whitespace :: "string \<Rightarrow> string list" where
  "split_whitespace s =
     map concat (filter (\<lambda>w. w \<noteq> []) (split_by is_whitespace (utf8_chars s)))"

section \<open>Integers: printing, parsing, big-endian bytes\<close>

definition digit_char :: "nat \<Rightarrow> char" where
  "digit_char n = char_of (48 + n)"

fun show_nat :: "nat \<Rightarrow> string" where
  "show_nat n = (if n < 10 then [digit_char n] else show_nat (n div 10) @ [digit_char (n mod 10)])"

declare show_nat.simps [simp del]

definition show_int :: "int \<Rightarrow> string" where
  "show_int i = (if i < 0 then CHR ''-'' # show_nat (nat (- i)) else show_nat (nat i))"

definition is_digit_char :: "char \<Rightarrow> bool" where
  "is_digit_char c \<longleftrightarrow> 48 \<le> code c \<and> code c \<le> 57"

definition digits_value :: "string \<Rightarrow> nat" where
  "digits_value ds = foldl (\<lambda>n c. 10 * n + (code c - 48)) 0 ds"

text \<open>The unsigned \<^verbatim>\<open>from_str\<close>: an optional plus sign, then at least one digit, in range.\<close>

definition parse_uint :: "nat \<Rightarrow> string \<Rightarrow> nat option" where
  "parse_uint w s =
     (let ds = (case strip_prefix ''+'' s of Some r \<Rightarrow> r | None \<Rightarrow> s)
      in if ds \<noteq> [] \<and> list_all is_digit_char ds \<and> digits_value ds < 2 ^ w
         then Some (digits_value ds) else None)"

text \<open>The text of the \<^verbatim>\<open>ParseIntError\<close> it fails with otherwise.\<close>

fun parse_int_error_loop :: "nat \<Rightarrow> nat \<Rightarrow> string \<Rightarrow> string" where
  "parse_int_error_loop w n [] = []"
| "parse_int_error_loop w n (c # cs) =
     (let m = 10 * n + (code c - 48)
      in if \<not> is_digit_char c then ''invalid digit found in string''
         else if 2 ^ w \<le> m then ''number too large to fit in target type''
         else parse_int_error_loop w m cs)"

definition parse_int_error :: "nat \<Rightarrow> string \<Rightarrow> string" where
  "parse_int_error w s =
     (if s = [] then ''cannot parse integer from empty string''
      else if s = ''+'' then ''invalid digit found in string''
      else parse_int_error_loop w 0 (case strip_prefix ''+'' s of Some r \<Rightarrow> r | None \<Rightarrow> s))"

definition u16_from_be :: "u8 \<Rightarrow> u8 \<Rightarrow> u16" where
  "u16_from_be a b = push_bit 8 (ucast a) OR ucast b"

definition u32_from_be :: "u8 \<Rightarrow> u8 \<Rightarrow> u8 \<Rightarrow> u8 \<Rightarrow> u32" where
  "u32_from_be a b c d =
     push_bit 24 (ucast a) OR push_bit 16 (ucast b) OR push_bit 8 (ucast c) OR ucast d"

definition u16_to_be :: "u16 \<Rightarrow> bytes" where
  "u16_to_be w = [ucast (drop_bit 8 w), ucast w]"

definition u64_to_be :: "u64 \<Rightarrow> bytes" where
  "u64_to_be w = map (\<lambda>i. ucast (drop_bit (8 * (7 - i)) w)) [0..<8]"

section \<open>Lemmas: bytes\<close>

lemma length_as_bytes [simp]: "length (as_bytes s) = length s"
  by (simp add: as_bytes_def)

lemma as_bytes_append [simp]: "as_bytes (a @ b) = as_bytes a @ as_bytes b"
  by (simp add: as_bytes_def)

lemma unat_of_char [simp]: "unat (of_char c :: u8) = of_char c"
proof -
  have "unat (of_nat (of_char c) :: u8) = (of_char c :: nat)"
    by (subst unat_of_nat) simp
  then show ?thesis by (simp only: of_nat_of_char)
qed

lemma as_bytes_to_string [simp]: "bytes_to_string (as_bytes s) = s"
  by (simp add: as_bytes_def bytes_to_string_def comp_def)

lemma bytes_to_string_append [simp]: "bytes_to_string (a @ b) = bytes_to_string a @ bytes_to_string b"
  by (simp add: bytes_to_string_def)

section \<open>Lemmas: case folding\<close>

lemma ascii_lower_idem [simp, case_simps]: "ascii_lower (ascii_lower c) = ascii_lower c"
  by (auto simp: ascii_lower_def)

lemma to_ascii_lowercase_idem [simp, case_simps]:
  "to_ascii_lowercase (to_ascii_lowercase s) = to_ascii_lowercase s"
  by (simp add: to_ascii_lowercase_def)

lemma length_to_ascii_lowercase [simp]: "length (to_ascii_lowercase s) = length s"
  by (simp add: to_ascii_lowercase_def)

lemma to_ascii_lowercase_append [case_simps]:
  "to_ascii_lowercase (a @ b) = to_ascii_lowercase a @ to_ascii_lowercase b"
  by (simp add: to_ascii_lowercase_def)

lemma eq_ignore_ascii_case_refl [simp]: "eq_ignore_ascii_case a a"
  by (simp add: eq_ignore_ascii_case_def)

lemma eq_ignore_ascii_case_sym: "eq_ignore_ascii_case a b = eq_ignore_ascii_case b a"
  by (auto simp: eq_ignore_ascii_case_def)

lemma eq_ignore_ascii_case_trans:
  "eq_ignore_ascii_case a b \<Longrightarrow> eq_ignore_ascii_case b c \<Longrightarrow> eq_ignore_ascii_case a c"
  by (simp add: eq_ignore_ascii_case_def)

lemma eq_ignore_ascii_case_lower [simp, case_simps]:
  "eq_ignore_ascii_case a (to_ascii_lowercase b) = eq_ignore_ascii_case a b"
  by (simp add: eq_ignore_ascii_case_def)

section \<open>Lemmas: string slices\<close>

lemma starts_with_iff [str_simps]: "starts_with p s \<longleftrightarrow> (\<exists>r. s = p @ r)"
proof
  assume "starts_with p s"
  then have "s = p @ drop (length p) s"
    by (metis append_take_drop_id starts_with_def)
  then show "\<exists>r. s = p @ r" ..
qed (auto simp: starts_with_def)

lemma starts_with_append [simp]: "starts_with p (p @ r)"
  by (simp add: starts_with_def)

lemma strip_prefix_Some_iff [str_simps]: "strip_prefix p s = Some r \<longleftrightarrow> s = p @ r"
  by (auto simp: strip_prefix_def starts_with_iff)

lemma strip_prefix_append [simp]: "strip_prefix p (p @ r) = Some r"
  by (simp add: strip_prefix_Some_iff)

lemma strip_prefix_None_iff: "strip_prefix p s = None \<longleftrightarrow> \<not> starts_with p s"
  by (simp add: strip_prefix_def)

lemma strip_suffix_Some_iff [str_simps]: "strip_suffix p s = Some r \<longleftrightarrow> s = r @ p"
proof
  assume "strip_suffix p s = Some r"
  then have "drop (length s - length p) s = p" and "take (length s - length p) s = r"
    by (auto simp: strip_suffix_def Let_def split: if_splits)
  then show "s = r @ p" by (metis append_take_drop_id)
qed (simp add: strip_suffix_def)

lemma strip_suffix_None_iff [str_simps]: "strip_suffix p s = None \<longleftrightarrow> (\<nexists>r. s = r @ p)"
  by (metis not_None_eq strip_suffix_Some_iff)

lemma split_by_nonempty [simp]: "split_by P s \<noteq> []"
  by (cases s) (auto split: list.splits)

lemma split_by_no_sep: "list_all (\<lambda>c. \<not> P c) w \<Longrightarrow> split_by P w = [w]"
  by (induction w) auto

lemma split_by_append_sep:
  "list_all (\<lambda>c. \<not> P c) w \<Longrightarrow> P d \<Longrightarrow> split_by P (w @ d # s) = w # split_by P s"
  by (induction w) auto

lemma split_by_parts: "w \<in> set (split_by P s) \<Longrightarrow> list_all (\<lambda>c. \<not> P c) w"
proof (induction s arbitrary: w)
  case Nil
  then show ?case by simp
next
  case (Cons c s)
  obtain v vs where "split_by P s = v # vs"
    by (cases "split_by P s") auto
  with Cons show ?case by (auto split: if_splits)
qed

lemma join_Cons: "xs \<noteq> [] \<Longrightarrow> join sep (x # xs) = x @ sep @ join sep xs"
  by (cases xs) auto

lemma join_Cons_head: "join sep ((c # w) # ws) = c # join sep (w # ws)"
  by (cases ws) auto

lemma set_join: "set (join sep xs) \<subseteq> set sep \<union> (\<Union>x \<in> set xs. set x)"
  by (induction sep xs rule: join.induct) auto

lemma join_split_on [simp]: "join [d] (split_on d s) = s"
proof (induction s)
  case Nil
  then show ?case by simp
next
  case (Cons c s)
  obtain w ws where w: "split_on d s = w # ws"
    by (cases "split_on d s") auto
  with Cons show ?case by (auto simp: join_Cons_head)
qed

lemma split_on_join:
  assumes "xs \<noteq> []" and "list_all (\<lambda>w. d \<notin> set w) xs"
  shows "split_on d (join [d] xs) = xs"
  using assms
proof (induction "[d]" xs rule: join.induct)
  case (2 x)
  then show ?case by (auto simp: list_all_iff intro!: split_by_no_sep)
next
  case (3 x y xs)
  then have "list_all (\<lambda>c. c \<noteq> d) x"
    by (auto simp: list_all_iff)
  with 3 show ?case by (simp add: split_by_append_sep)
qed simp

lemma rsplit_once_None_iff: "rsplit_once d s = None \<longleftrightarrow> d \<notin> set s"
  by (induction s) (auto split: option.splits)

lemma rsplit_once_SomeD: "rsplit_once d s = Some (a, b) \<Longrightarrow> s = a @ d # b \<and> d \<notin> set b"
proof (induction s arbitrary: a)
  case Nil
  then show ?case by simp
next
  case (Cons c s)
  then show ?case
    by (auto simp: rsplit_once_None_iff split: option.splits if_splits)
qed

section \<open>Lemmas: UTF-8\<close>

lemma utf8_len_bounds: "1 \<le> utf8_len c" "utf8_len c \<le> 4"
  by (simp_all add: utf8_len_def)

lemma concat_utf8_chars [simp]: "concat (utf8_chars s) = s"
  by (induction s rule: utf8_chars.induct) auto

lemma utf8_chars_nonempty: "g \<in> set (utf8_chars s) \<Longrightarrow> g \<noteq> []"
  by (induction s rule: utf8_chars.induct) auto

lemma utf8_chars_length: "g \<in> set (utf8_chars s) \<Longrightarrow> length g \<le> 4"
proof (induction s rule: utf8_chars.induct)
  case (2 c cs)
  have "utf8_len c - 1 \<le> 3"
    using utf8_len_bounds(2)[of c] by simp
  with 2 show ?case by (auto simp: min_def)
qed simp

lemma is_utf8_charE:
  assumes "is_utf8_char g"
  obtains c cs where "g = c # cs" and "utf8_len c = Suc (length cs)"
  using assms
  by (auto simp: is_utf8_char_def utf8_len_def split: list.splits)

lemma utf8_chars_Cons_char:
  assumes "is_utf8_char g"
  shows "utf8_chars (g @ s) = g # utf8_chars s"
  using assms by (elim is_utf8_charE) simp

lemma utf8_chars_concat: "list_all is_utf8_char gs \<Longrightarrow> utf8_chars (concat gs) = gs"
  by (induction gs) (auto simp: utf8_chars_Cons_char)

lemma utf8_chars_ascii: "list_all (\<lambda>c. code c < 128) s \<Longrightarrow> utf8_chars s = map (\<lambda>c. [c]) s"
  by (induction s rule: utf8_chars.induct) (auto simp: utf8_len_def)

lemma utf8_valid_ascii: "list_all (\<lambda>c. code c < 128) s \<Longrightarrow> utf8_valid s"
  by (auto simp: utf8_valid_def utf8_chars_ascii is_utf8_char_def list_all_iff)

lemma from_utf8_ascii: "list_all (\<lambda>c. code c < 128) s \<Longrightarrow> from_utf8 (as_bytes s) = Some s"
  by (simp add: from_utf8_def utf8_valid_ascii)

lemma utf8_valid_concat: "list_all is_utf8_char gs \<Longrightarrow> utf8_valid (concat gs)"
  by (simp add: utf8_valid_def utf8_chars_concat)

section \<open>Lemmas: numbers\<close>

lemma code_digit_char: "n < 10 \<Longrightarrow> code (digit_char n) = 48 + n"
  by (simp add: digit_char_def)

lemma digits_value_snoc [simp]: "digits_value (ds @ [c]) = 10 * digits_value ds + (code c - 48)"
  by (simp add: digits_value_def)

lemma show_nat_nonempty [simp]: "show_nat n \<noteq> []"
  by (subst show_nat.simps) simp

lemma show_nat_digits: "list_all is_digit_char (show_nat n)"
proof (induction n rule: show_nat.induct)
  case (1 n)
  have "n mod 10 \<le> 9" by presburger
  with 1 show ?case
    by (simp add: show_nat.simps[of n] is_digit_char_def code_digit_char)
qed

lemma digits_value_show_nat [simp]: "digits_value (show_nat n) = n"
proof (induction n rule: show_nat.induct)
  case (1 n)
  then show ?case
    by (cases "n < 10")
      (simp_all add: show_nat.simps[of n] code_digit_char digits_value_def[of "[_]"])
qed

lemma length_show_nat: "n < 10 ^ Suc k \<Longrightarrow> length (show_nat n) \<le> Suc k"
proof (induction k arbitrary: n)
  case 0
  then show ?case by (simp add: show_nat.simps[of n])
next
  case (Suc k)
  then have "n div 10 < 10 ^ Suc k" by (simp add: less_mult_imp_div_less)
  with Suc.IH show ?case by (subst show_nat.simps) simp
qed

lemma show_nat_inj [simp]: "show_nat m = show_nat n \<longleftrightarrow> m = n"
  by (metis digits_value_show_nat)

lemma show_nat_no_plus: "\<not> starts_with ''+'' (show_nat n)"
proof
  assume "starts_with ''+'' (show_nat n)"
  then obtain r where "show_nat n = CHR ''+'' # r"
    by (auto simp: starts_with_iff)
  with show_nat_digits[of n] show False
    by (simp add: is_digit_char_def)
qed

lemma parse_uint_show_nat: "n < 2 ^ w \<Longrightarrow> parse_uint w (show_nat n) = Some n"
  using show_nat_no_plus[of n] show_nat_digits[of n]
  by (simp add: parse_uint_def strip_prefix_def)

lemma parse_uint_bound: "parse_uint w s = Some n \<Longrightarrow> n < 2 ^ w"
  by (auto simp: parse_uint_def Let_def split: if_splits)

lemma u16_from_to_be [simp]: "u16_from_be (ucast (drop_bit 8 w)) (ucast w) = w"
proof (rule bit_word_eqI)
  fix n assume "n < LENGTH(16)"
  then show "bit (u16_from_be (ucast (drop_bit 8 w)) (ucast w)) n = bit w n"
    by (auto simp: u16_from_be_def bit_simps)
qed

lemma length_u16_to_be [simp]: "length (u16_to_be w) = 2"
  by (simp add: u16_to_be_def)

end
