(* ===== verification/Sanitizer.thy ===== *)
theory Sanitizer
  imports Vine_Prelude
begin

text \<open>
  The input filters of \<^verbatim>\<open>src/src/security/sanitizer.rs\<close>: user names and virtual hosts.
  \<^verbatim>\<open>sanitize_host\<close> walks the Unicode scalar values of the host and stops once the
  \<^emph>\<open>byte\<close> length of what it kept has reached 255.
\<close>

section \<open>Model\<close>

definition is_valid_username :: "string \<Rightarrow> bool" where
  "is_valid_username name =
     (let len = length name
      in if \<not> (2 \<le> len \<and> len \<le> 16) then False
         else list_all (\<lambda>b. is_ascii_alphanumeric b \<or> b = CHR ''_'') name)"

fun sanitize_loop :: "string \<Rightarrow> string list \<Rightarrow> string" where
  "sanitize_loop clean [] = clean"
| "sanitize_loop clean (ch # chs) =
     (if length clean \<ge> 255 then clean
      else if ch \<noteq> [CHR 0x00] \<and> \<not> is_control ch then sanitize_loop (clean @ ch) chs
      else sanitize_loop clean chs)"

definition sanitize_host :: "string \<Rightarrow> string" where
  "sanitize_host host = sanitize_loop [] (utf8_chars host)"

definition is_valid_packet_size :: "nat \<Rightarrow> nat \<Rightarrow> bool" where
  "is_valid_packet_size sz max_allowed \<longleftrightarrow> sz \<le> max_allowed"

section \<open>The loop against its specification\<close>

definition keep_char :: "string \<Rightarrow> bool" where
  "keep_char ch \<longleftrightarrow> ch \<noteq> [CHR 0x00] \<and> \<not> is_control ch"

lemma sanitize_loop_Cons:
  "sanitize_loop clean (ch # chs) =
     (if 255 \<le> length clean then clean
      else sanitize_loop (if keep_char ch then clean @ ch else clean) chs)"
  by (simp add: keep_char_def)

declare sanitize_loop.simps(2) [simp del]

lemma sanitize_loop_full: "255 \<le> length clean \<Longrightarrow> sanitize_loop clean chs = clean"
  by (cases chs) (auto simp: sanitize_loop_Cons)

text \<open>
  What the loop computes: the kept characters up to and including the one that makes the result
  reach 255 bytes; nothing is cut off a shorter result.
\<close>

definition cut_at :: "string \<Rightarrow> string list \<Rightarrow> string list \<Rightarrow> bool" where
  "cut_at clean kept gs \<longleftrightarrow>
     (\<exists>rest. kept = gs @ rest) \<and> (gs = kept \<or> 255 \<le> length (clean @ concat gs))
     \<and> (gs \<noteq> [] \<longrightarrow> length (clean @ concat (butlast gs)) < 255)"

lemma sanitize_loop_spec:
  "\<exists>gs. sanitize_loop clean chs = clean @ concat gs \<and> cut_at clean (filter keep_char chs) gs"
proof (induction chs arbitrary: clean)
  case Nil
  show ?case by (simp add: cut_at_def)
next
  case (Cons ch chs)
  show ?case
  proof (cases "255 \<le> length clean")
    case True
    then show ?thesis
      by (intro exI[of _ "[]"]) (auto simp: cut_at_def sanitize_loop_full)
  next
    case short: False
    show ?thesis
    proof (cases "keep_char ch")
      case True
      obtain gs where gs: "sanitize_loop (clean @ ch) chs = (clean @ ch) @ concat gs"
          "cut_at (clean @ ch) (filter keep_char chs) gs"
        using Cons.IH by blast
      with short True have "cut_at clean (filter keep_char (ch # chs)) (ch # gs)"
        by (auto simp: cut_at_def)
      with gs short True show ?thesis
        by (intro exI[of _ "ch # gs"]) (simp add: sanitize_loop_Cons)
    next
      case False
      with short Cons.IH show ?thesis by (simp add: sanitize_loop_Cons)
    qed
  qed
qed

lemma sanitize_loop_length:
  assumes "list_all (\<lambda>g. length g \<le> 4) chs" and "length clean \<le> 258"
  shows "length (sanitize_loop clean chs) \<le> 258"
  using assms by (induction chs arbitrary: clean) (auto simp: sanitize_loop_Cons)

lemma sanitize_loop_keeps_all:
  assumes "list_all keep_char chs" and "chs \<noteq> [] \<longrightarrow> length (clean @ concat (butlast chs)) < 255"
  shows "sanitize_loop clean chs = clean @ concat chs"
  using assms
proof (induction chs arbitrary: clean)
  case (Cons ch chs)
  then show ?case by (cases "chs = []") (auto simp: sanitize_loop_Cons)
qed simp

lemma sanitize_host_groups:
  obtains gs where "sanitize_host h = concat gs" "cut_at [] (filter keep_char (utf8_chars h)) gs"
  using sanitize_loop_spec[of "[]" "utf8_chars h"] by (auto simp: sanitize_host_def)

lemma sanitize_host_groups_valid:
  assumes "utf8_valid h"
  obtains gs where "sanitize_host h = concat gs" "list_all keep_char gs"
    "list_all is_utf8_char gs" "gs \<noteq> [] \<longrightarrow> length (concat (butlast gs)) < 255"
proof -
  obtain gs where gs: "sanitize_host h = concat gs" "cut_at [] (filter keep_char (utf8_chars h)) gs"
    by (rule sanitize_host_groups)
  then obtain rest where "filter keep_char (utf8_chars h) = gs @ rest"
    by (auto simp: cut_at_def)
  then have "set gs \<subseteq> set (filter keep_char (utf8_chars h))"
    by (metis Un_upper1 set_append)
  with assms have "list_all keep_char gs \<and> list_all is_utf8_char gs"
    by (auto simp: utf8_valid_def list_all_iff)
  with gs that show thesis by (auto simp: cut_at_def)
qed

lemma utf8_char_keep_no_nul: "is_utf8_char g \<Longrightarrow> keep_char g \<Longrightarrow> CHR 0x00 \<notin> set g"
  by (auto simp: is_utf8_char_def keep_char_def is_cont_def split: list.splits)

lemma sanitize_host_no_nul: "utf8_valid h \<Longrightarrow> CHR 0x00 \<notin> set (sanitize_host h)"
  by (elim sanitize_host_groups_valid) (auto simp: list_all_iff dest: utf8_char_keep_no_nul)

lemma sanitize_host_length: "length (sanitize_host h) \<le> 258"
  unfolding sanitize_host_def
  by (rule sanitize_loop_length) (auto simp: list_all_iff dest: utf8_chars_length)

section \<open>Properties\<close>

text \<open>
  C31: for every well-formed virtual host, the sanitised host is well-formed UTF-8, holds no NUL
  byte and no Unicode control character, and is at most 258 bytes long.
\<close>
theorem sanitize_host_clean:
  assumes "utf8_valid h"
  shows "utf8_valid (sanitize_host h)
    \<and> CHR 0x00 \<notin> set (sanitize_host h)
    \<and> list_all (\<lambda>g. \<not> is_control g) (utf8_chars (sanitize_host h))
    \<and> length (sanitize_host h) \<le> 258"
proof -
  from assms obtain gs where gs: "sanitize_host h = concat gs" "list_all keep_char gs"
      "list_all is_utf8_char gs"
    by (rule sanitize_host_groups_valid)
  then have "utf8_valid (sanitize_host h)"
    by (simp add: utf8_valid_concat)
  moreover from gs have "list_all (\<lambda>g. \<not> is_control g) (utf8_chars (sanitize_host h))"
    by (auto simp: utf8_chars_concat keep_char_def list_all_iff)
  ultimately show ?thesis
    using assms by (simp add: sanitize_host_no_nul sanitize_host_length)
qed

theorem sanitize_host_clean_witness:
  "utf8_valid ''a\<newline>b'' \<and> sanitize_host ''a\<newline>b'' = ''ab''
    \<and> CHR 0x00 \<notin> set (sanitize_host ''a\<newline>b'')"
proof -
  have v: "utf8_valid ''a\<newline>b''" by code_simp
  have "sanitize_host ''a\<newline>b'' = ''ab''" by code_simp
  with v sanitize_host_clean[OF v] show ?thesis by simp
qed

text \<open>
  Sanitising is idempotent on well-formed hosts: sanitising an already sanitised host
  changes nothing, also when the first pass stopped at its length limit.
\<close>
theorem sanitize_host_idem:
  assumes "utf8_valid h"
  shows "sanitize_host (sanitize_host h) = sanitize_host h"
proof -
  from assms obtain gs where gs: "sanitize_host h = concat gs" "list_all keep_char gs"
      "list_all is_utf8_char gs" "gs \<noteq> [] \<longrightarrow> length (concat (butlast gs)) < 255"
    by (rule sanitize_host_groups_valid)
  then show ?thesis
    using sanitize_loop_keeps_all[of gs "[]"]
    by (simp add: sanitize_host_def utf8_chars_concat)
qed

theorem sanitize_host_idem_witness:
  "utf8_valid [CHR 0xC3, CHR 0xA9, CHR 0x00, CHR 0x7F]
    \<and> sanitize_host (sanitize_host [CHR 0xC3, CHR 0xA9, CHR 0x00, CHR 0x7F]) = [CHR 0xC3, CHR 0xA9]"
proof -
  have v: "utf8_valid [CHR 0xC3, CHR 0xA9, CHR 0x00, CHR 0x7F]" by code_simp
  have "sanitize_host [CHR 0xC3, CHR 0xA9, CHR 0x00, CHR 0x7F] = [CHR 0xC3, CHR 0xA9]" by code_simp
  with v sanitize_host_idem[OF v] show ?thesis by simp
qed

end
