(* ===== verification/F64.thy ===== *)
theory F64
  imports Vine_Prelude "HOL-Library.Log_Nat"
begin

text \<open>
  The part of IEEE-754 binary64 arithmetic the sources use, on the finite values. A finite
  \<^verbatim>\<open>f64\<close> is a dyadic rational; every operation is the exact rational operation followed
  by rounding to 53 significant bits, to nearest, ties to even. Exponent range is unbounded
  here: the sources only add, multiply and subtract token counts and durations, whose
  magnitudes stay far from overflow and from the subnormal range. Durations and instants are
  natural numbers of nanoseconds.
\<close>

type_synonym f64 = rat
type_synonym instant = nat

definition nanos_per_sec :: nat where
  "nanos_per_sec = 1000000000"

definition flog2 :: "rat \<Rightarrow> int" where
  "flog2 x =
     (let (p, q) = quotient_of x; k = bitlen p - bitlen q
      in if 2 powi k \<le> x then k else k - 1)"

definition round_even :: "rat \<Rightarrow> int" where
  "round_even x =
     (let f = \<lfloor>x\<rfloor>; d = x - of_int f
      in if d < 1/2 then f else if 1/2 < d then f + 1 else if even f then f else f + 1)"

definition f64_pos :: "rat \<Rightarrow> f64" where
  "f64_pos x = (let e = flog2 x - 52 in of_int (round_even (x / 2 powi e)) * 2 powi e)"

definition f64_round :: "rat \<Rightarrow> f64" where
  "f64_round x = (if x = 0 then 0 else if x < 0 then - f64_pos (- x) else f64_pos x)"

definition f64_add :: "f64 \<Rightarrow> f64 \<Rightarrow> f64" where
  "f64_add a b = f64_round (a + b)"

definition f64_sub :: "f64 \<Rightarrow> f64 \<Rightarrow> f64" where
  "f64_sub a b = f64_round (a - b)"

definition f64_mul :: "f64 \<Rightarrow> f64 \<Rightarrow> f64" where
  "f64_mul a b = f64_round (a * b)"

definition f64_of_u32 :: "u32 \<Rightarrow> f64" where
  "f64_of_u32 w = of_nat (unat w)"

definition as_secs_f64 :: "nat \<Rightarrow> f64" where
  "as_secs_f64 d =
     f64_add (f64_round (of_nat (d div nanos_per_sec)))
       (f64_round (of_nat (d mod nanos_per_sec) / of_nat nanos_per_sec))"

section \<open>The binary exponent\<close>

lemma flog2_bounds:
  assumes "0 < x"
  shows "2 powi (flog2 x) \<le> x" and "x < 2 powi (flog2 x + 1)"
proof -
  obtain p q where pq: "quotient_of x = (p, q)" by (cases "quotient_of x")
  then have q: "0 < q" and x: "x = of_int p / of_int q"
    using quotient_of_denom_pos quotient_of_div by blast+
  with assms have p: "0 < p" by (simp add: zero_less_divide_iff)
  let ?k = "bitlen p - bitlen q"
  have bp: "(2::int) ^ nat (bitlen p - 1) \<le> p" "p < 2 ^ nat (bitlen p)"
    using bitlen_bounds[OF p] by auto
  have bq: "(2::int) ^ nat (bitlen q - 1) \<le> q" "q < 2 ^ nat (bitlen q)"
    using bitlen_bounds[OF q] by auto
  have pos: "1 \<le> bitlen p" "1 \<le> bitlen q"
    using p q by (simp_all add: bitlen_def floorlog_def)
  have conv: "(of_int (2 ^ nat n) :: rat) = 2 powi n" if "0 \<le> n" for n
    using that by (simp add: power_int_def)
  have rp: "2 powi (bitlen p - 1) \<le> (of_int p :: rat)" "(of_int p :: rat) < 2 powi (bitlen p)"
    using bp pos conv by (metis of_int_le_iff diff_ge_0_iff_ge, metis of_int_less_iff order_trans zero_le_one)
  have rq: "2 powi (bitlen q - 1) \<le> (of_int q :: rat)" "(of_int q :: rat) < 2 powi (bitlen q)"
    using bq pos conv by (metis of_int_le_iff diff_ge_0_iff_ge, metis of_int_less_iff order_trans zero_le_one)
  have q0: "(0::rat) < of_int q" using q by simp
  have "x < 2 powi (bitlen p) / 2 powi (bitlen q - 1)"
    unfolding x using rp rq p q0 by (intro frac_less) auto
  also have "\<dots> = 2 powi (bitlen p - (bitlen q - 1))" by (simp flip: power_int_diff)
  also have "\<dots> = 2 powi (?k + 1)" by (simp add: algebra_simps)
  finally have hi: "x < 2 powi (?k + 1)" .
  have "2 powi (bitlen p - 1) / 2 powi (bitlen q) < x"
    unfolding x using rp rq p q0 by (intro frac_less2) auto
  moreover have "2 powi (bitlen p - 1) / 2 powi (bitlen q) = (2 powi (?k - 1) :: rat)"
    by (simp flip: power_int_diff add: algebra_simps)
  ultimately have lo: "2 powi (?k - 1) < x" by simp
  show "2 powi (flog2 x) \<le> x" "x < 2 powi (flog2 x + 1)"
    using hi lo by (auto simp: flog2_def pq Let_def)
qed


lemma flog2_unique:
  assumes "2 powi k \<le> x" and "x < 2 powi (k + 1)"
  shows "flog2 x = k"
proof -
  have "0 < x"
    using assms(1) by (rule less_le_trans[rotated]) simp
  from flog2_bounds[OF this] assms have "2 powi k < (2 powi (flog2 x + 1) :: rat)"
      and "2 powi (flog2 x) < (2 powi (k + 1) :: rat)"
    by linarith+
  then have "k < flog2 x + 1" and "flog2 x < k + 1"
    by (meson linorder_not_less one_le_numeral power_int_increasing)+
  then show ?thesis by simp
qed

lemma flog2_mono:
  assumes "0 < x" and "x \<le> y"
  shows "flog2 x \<le> flog2 y"
proof -
  have "2 powi (flog2 x) < (2 powi (flog2 y + 1) :: rat)"
    using flog2_bounds[of x] flog2_bounds[of y] assms by linarith
  then have "flog2 x < flog2 y + 1"
    by (meson linorder_not_less one_le_numeral power_int_increasing)
  then show ?thesis by simp
qed

section \<open>Rounding to an integer\<close>

lemma round_even_int [simp]: "round_even (of_int n) = n"
  by (simp add: round_even_def)

lemma round_even_bounds: "\<lfloor>x\<rfloor> \<le> round_even x" "round_even x \<le> \<lfloor>x\<rfloor> + 1"
  by (auto simp: round_even_def Let_def)

lemma round_even_mono:
  assumes "x \<le> y"
  shows "round_even x \<le> round_even y"
proof (cases "\<lfloor>x\<rfloor> = \<lfloor>y\<rfloor>")
  case True
  with assms show ?thesis by (auto simp: round_even_def Let_def)
next
  case False
  with assms have "\<lfloor>x\<rfloor> + 1 \<le> \<lfloor>y\<rfloor>"
    using floor_mono[OF assms] by linarith
  with round_even_bounds[of x] round_even_bounds[of y] show ?thesis by linarith
qed

lemma round_even_ge: "of_int m \<le> x \<Longrightarrow> m \<le> round_even x"
  using round_even_mono[of "of_int m" x] by simp

lemma round_even_le: "x \<le> of_int m \<Longrightarrow> round_even x \<le> m"
  using round_even_mono[of x "of_int m"] by simp

section \<open>Rounding to binary64\<close>

lemma f64_pos_mantissa:
  assumes "0 < x"
  defines "e \<equiv> flog2 x - 52"
  shows "2 ^ 52 \<le> x / 2 powi e" and "x / 2 powi e < 2 ^ 53"
proof -
  have pos: "(0::rat) < 2 powi e" by simp
  have "(2::rat) ^ 52 * 2 powi e = 2 powi (52 + e)" "(2::rat) ^ 53 * 2 powi e = 2 powi (53 + e)"
    by (simp_all only: power_int_add power_int_numeral flip: power_int_of_nat) (simp_all add: power_int_add)
  with flog2_bounds[OF assms(1)] pos show "2 ^ 52 \<le> x / 2 powi e" "x / 2 powi e < 2 ^ 53"
    by (simp_all add: e_def pos_le_divide_eq pos_divide_less_eq algebra_simps)
qed

lemma powi_shift: "(2::rat) ^ n * 2 powi e = 2 powi (int n + e)"
  by (simp add: power_int_add)

lemma f64_pos_bounds:
  assumes "0 < x"
  shows "2 powi (flog2 x) \<le> f64_pos x" and "f64_pos x \<le> 2 powi (flog2 x + 1)"
proof -
  let ?e = "flog2 x - 52"
  have "2 ^ 52 \<le> round_even (x / 2 powi ?e)" and "round_even (x / 2 powi ?e) \<le> 2 ^ 53"
    using f64_pos_mantissa[OF assms] by (auto intro!: round_even_ge round_even_le)
  then have "(2::rat) ^ 52 \<le> of_int (round_even (x / 2 powi ?e))"
      and "of_int (round_even (x / 2 powi ?e)) \<le> (2::rat) ^ 53"
    by (metis of_int_le_iff of_int_numeral of_int_power)+
  then have "(2::rat) ^ 52 * 2 powi ?e \<le> f64_pos x" and "f64_pos x \<le> (2::rat) ^ 53 * 2 powi ?e"
    unfolding f64_pos_def Let_def by (auto intro!: mult_right_mono simp del: power_numeral)
  then show "2 powi (flog2 x) \<le> f64_pos x" "f64_pos x \<le> 2 powi (flog2 x + 1)"
    by (simp_all only: powi_shift) (simp_all add: algebra_simps)
qed

lemma f64_pos_pos: "0 < x \<Longrightarrow> 0 < f64_pos x"
  using f64_pos_bounds(1)[of x] by (rule less_le_trans[rotated]) simp_all

lemma f64_pos_exact:
  assumes "x / 2 powi (flog2 x - 52) = of_int m"
  shows "f64_pos x = x"
proof -
  have "x = of_int m * 2 powi (flog2 x - 52)"
    using assms by (simp add: field_simps)
  then show ?thesis by (simp add: f64_pos_def assms)
qed

lemma f64_pos_idem:
  assumes "0 < x"
  shows "f64_pos (f64_pos x) = f64_pos x"
proof -
  let ?e = "flog2 x - 52"
  let ?m = "round_even (x / 2 powi ?e)"
  have r: "f64_pos x = of_int ?m * 2 powi ?e" by (simp add: f64_pos_def Let_def)
  show ?thesis
  proof (cases "f64_pos x < 2 powi (flog2 x + 1)")
    case True
    then have "flog2 (f64_pos x) = flog2 x"
      using f64_pos_bounds(1)[OF assms] by (intro flog2_unique)
    then show ?thesis using r by (intro f64_pos_exact[of _ ?m]) simp
  next
    case False
    then have r2: "f64_pos x = 2 powi (flog2 x + 1)"
      using f64_pos_bounds(2)[OF assms] by simp
    then have "flog2 (f64_pos x) = flog2 x + 1"
      by (intro flog2_unique) (simp_all add: power_int_add)
    moreover have "(2::rat) powi (flog2 x + 1) / 2 powi (flog2 x + 1 - 52) = of_int (2 ^ 52)"
      by (simp add: power_int_add power_int_diff)
    ultimately show ?thesis using r2 by (intro f64_pos_exact[of _ "2 ^ 52"]) simp
  qed
qed

lemma f64_pos_mono:
  assumes "0 < x" and "x \<le> y"
  shows "f64_pos x \<le> f64_pos y"
proof (cases "flog2 x = flog2 y")
  case True
  with assms show ?thesis
    by (auto simp: f64_pos_def Let_def intro!: mult_right_mono round_even_mono divide_right_mono)
next
  case False
  with flog2_mono[OF assms] have "flog2 x + 1 \<le> flog2 y" by simp
  then have "(2::rat) powi (flog2 x + 1) \<le> 2 powi (flog2 y)"
    by (intro power_int_increasing) auto
  with f64_pos_bounds(2)[OF assms(1)] f64_pos_bounds(1)[of y] assms show ?thesis by linarith
qed

text \<open>The three laws the token bucket rests on.\<close>

lemma f64_round_0 [simp]: "f64_round 0 = 0"
  by (simp add: f64_round_def)

lemma f64_round_mono: "0 \<le> x \<Longrightarrow> x \<le> y \<Longrightarrow> f64_round x \<le> f64_round y"
  using f64_pos_mono[of x y] f64_pos_pos[of y] by (auto simp: f64_round_def)

lemma f64_round_nonneg: "0 \<le> x \<Longrightarrow> 0 \<le> f64_round x"
  using f64_round_mono[of 0 x] by simp

lemma f64_round_idem: "0 \<le> x \<Longrightarrow> f64_round (f64_round x) = f64_round x"
  using f64_pos_idem[of x] f64_pos_pos[of x] by (auto simp: f64_round_def)

lemma f64_round_nat:
  assumes "n < 2 ^ 53"
  shows "f64_round (of_nat n) = of_nat n"
proof (cases "n = 0")
  case False
  then have pos: "(0::rat) < of_nat n" by simp
  have "of_nat n < (2::rat) ^ 53"
    using assms by (metis of_nat_less_iff of_nat_numeral of_nat_power)
  then have "2 powi flog2 (of_nat n) < (2::rat) powi 53"
    using flog2_bounds(1)[OF pos] by (simp add: power_int_def)
  then have "flog2 (of_nat n) < 53"
    by (meson linorder_not_less one_le_numeral power_int_increasing)
  then have "0 \<le> 52 - flog2 (rat_of_nat n)" by simp
  then obtain k where "52 - flog2 (rat_of_nat n) = int k"
    by (rule nonneg_int_cases)
  then have k: "flog2 (of_nat n) - 52 = - int k" by simp
  have "(of_nat n :: rat) / 2 powi (- int k) = of_int (int n * 2 ^ k)"
    by (simp add: power_int_minus divide_inverse)
  then have "f64_pos (of_nat n) = of_nat n"
    unfolding k[symmetric] by (rule f64_pos_exact)
  with pos show ?thesis by (simp add: f64_round_def)
qed simp

lemma f64_round_of_u32: "f64_round (f64_of_u32 w) = f64_of_u32 w"
  unfolding f64_of_u32_def
  by (rule f64_round_nat) (rule less_trans[OF unsigned_less[of w]], simp)

lemma as_secs_f64_0 [simp]: "as_secs_f64 0 = 0"
  by (simp add: as_secs_f64_def f64_add_def)

lemma as_secs_f64_nonneg: "0 \<le> as_secs_f64 d"
  by (auto simp: as_secs_f64_def f64_add_def intro!: f64_round_nonneg add_nonneg_nonneg)

end
