(* ===== verification/Net_Addr.thy ===== *)
theory Net_Addr
  imports Vine_Prelude
begin

text \<open>
  Rust's \<^verbatim>\<open>std::net\<close> addresses as the sources use them: \<^verbatim>\<open>IpAddr\<close> and
  \<^verbatim>\<open>SocketAddr\<close> values, their \<^verbatim>\<open>Display\<close> text and the parser behind
  \<^verbatim>\<open>str::parse\<close>. An IPv6 address is its sixteen octets. The parser follows the standard
  library's recursive-descent reader: each \<^verbatim>\<open>read_\<close> function returns what it read and the
  text that remains.
\<close>

section \<open>Model\<close>

datatype ip_addr = V4 u8 u8 u8 u8 | V6 bytes

record socket_addr =
  ip :: ip_addr
  port :: u16

definition wf_ip :: "ip_addr \<Rightarrow> bool" where
  "wf_ip a = (case a of V4 _ _ _ _ \<Rightarrow> True | V6 bs \<Rightarrow> length bs = 16)"

subsection \<open>Display\<close>

definition show_ipv4 :: "u8 \<Rightarrow> u8 \<Rightarrow> u8 \<Rightarrow> u8 \<Rightarrow> string" where
  "show_ipv4 a b c d = join ''.'' (map (\<lambda>w. show_nat (unat w)) [a, b, c, d])"

fun segments :: "bytes \<Rightarrow> u16 list" where
  "segments (a # b # bs) = u16_from_be a b # segments bs"
| "segments _ = []"

definition hex_digit :: "nat \<Rightarrow> char" where
  "hex_digit n = (if n < 10 then char_of (48 + n) else char_of (87 + n))"

fun show_hex :: "nat \<Rightarrow> string" where
  "show_hex n = (if n < 16 then [hex_digit n] else show_hex (n div 16) @ [hex_digit (n mod 16)])"

declare show_hex.simps [simp del]

text \<open>The first longest run of zero segments, as a pair of start and length.\<close>

fun longest_zeroes :: "nat \<Rightarrow> nat \<times> nat \<Rightarrow> nat \<times> nat \<Rightarrow> u16 list \<Rightarrow> nat \<times> nat" where
  "longest_zeroes i longest current [] = longest"
| "longest_zeroes i longest current (s # ss) =
     (if s = 0 then
        (let cur = (if snd current = 0 then (i, 1) else (fst current, Suc (snd current)));
             best = (if snd longest < snd cur then cur else longest)
         in longest_zeroes (Suc i) best cur ss)
      else longest_zeroes (Suc i) longest (0, 0) ss)"

definition show_segments :: "u16 list \<Rightarrow> string" where
  "show_segments ss = join '':'' (map (\<lambda>w. show_hex (unat w)) ss)"

definition show_ipv6 :: "bytes \<Rightarrow> string" where
  "show_ipv6 bs =
     (if take 12 bs = replicate 10 0 @ [255, 255] \<and> length bs = 16
      then ''::ffff:'' @ show_ipv4 (bs ! 12) (bs ! 13) (bs ! 14) (bs ! 15)
      else (let ss = segments bs; (st, n) = longest_zeroes 0 (0, 0) (0, 0) ss
            in if n > 1 then show_segments (take st ss) @ ''::'' @ show_segments (drop (st + n) ss)
               else show_segments ss))"

definition show_ip :: "ip_addr \<Rightarrow> string" where
  "show_ip a = (case a of V4 x y z w \<Rightarrow> show_ipv4 x y z w | V6 bs \<Rightarrow> show_ipv6 bs)"

subsection \<open>Parsing\<close>

definition digit_value :: "nat \<Rightarrow> char \<Rightarrow> nat option" where
  "digit_value radix c =
     (let n = code c;
          v = (if 48 \<le> n \<and> n \<le> 57 then Some (n - 48)
               else if 97 \<le> n \<and> n \<le> 122 then Some (n - 87)
               else if 65 \<le> n \<and> n \<le> 90 then Some (n - 55) else None)
      in case v of None \<Rightarrow> None | Some k \<Rightarrow> if k < radix then Some k else None)"

fun read_digits :: "nat \<Rightarrow> string \<Rightarrow> nat list \<times> string" where
  "read_digits radix [] = ([], [])"
| "read_digits radix (c # cs) =
     (case digit_value radix c of
        None \<Rightarrow> ([], c # cs)
      | Some k \<Rightarrow> (let (ks, r) = read_digits radix cs in (k # ks, r)))"

definition read_number :: "nat \<Rightarrow> nat \<Rightarrow> nat option \<Rightarrow> bool \<Rightarrow> string \<Rightarrow> (nat \<times> string) option" where
  "read_number radix bits max_digits allow_zero_prefix s =
     (let (ks, r) = read_digits radix s;
          n = foldl (\<lambda>acc k. radix * acc + k) 0 ks
      in if ks = [] then None
         else if (case max_digits of None \<Rightarrow> False | Some m \<Rightarrow> m < length ks) then None
         else if 2 ^ bits \<le> n then None
         else if \<not> allow_zero_prefix \<and> hd ks = 0 \<and> 1 < length ks then None
         else Some (n, r))"

definition read_char :: "char \<Rightarrow> string \<Rightarrow> string option" where
  "read_char c s = strip_prefix [c] s"

definition read_octet :: "string \<Rightarrow> (u8 \<times> string) option" where
  "read_octet s = map_option (\<lambda>(n, r). (of_nat n, r)) (read_number 10 8 (Some 3) False s)"

definition read_ipv4 :: "string \<Rightarrow> ((u8 \<times> u8 \<times> u8 \<times> u8) \<times> string) option" where
  "read_ipv4 s = do {
     (a, s) \<leftarrow> read_octet s;
     s \<leftarrow> read_char CHR ''.'' s; (b, s) \<leftarrow> read_octet s;
     s \<leftarrow> read_char CHR ''.'' s; (c, s) \<leftarrow> read_octet s;
     s \<leftarrow> read_char CHR ''.'' s; (d, s) \<leftarrow> read_octet s;
     Some ((a, b, c, d), s) }"

definition read_separated :: "nat \<Rightarrow> (string \<Rightarrow> ('a \<times> string) option) \<Rightarrow> string \<Rightarrow> ('a \<times> string) option" where
  "read_separated i p s =
     (if i = 0 then p s else do { s \<leftarrow> read_char CHR '':'' s; p s })"

text \<open>
  \<^verbatim>\<open>read_groups\<close>: up to \<open>n\<close> groups of four hexadecimal digits, or an embedded IPv4
  address where at least two groups are left; the flag tells that it ended with one.
\<close>

fun read_groups :: "nat \<Rightarrow> nat \<Rightarrow> string \<Rightarrow> u16 list \<times> bool \<times> string" where
  "read_groups i 0 s = ([], False, s)"
| "read_groups i (Suc n) s =
     (case (if 0 < n then read_separated i read_ipv4 s else None) of
        Some ((a, b, c, d), r) \<Rightarrow> ([u16_from_be a b, u16_from_be c d], True, r)
      | None \<Rightarrow>
          (case read_separated i (read_number 16 16 (Some 4) True) s of
             Some (g, r) \<Rightarrow> (let (gs, e, r') = read_groups (Suc i) n r in (of_nat g # gs, e, r'))
           | None \<Rightarrow> ([], False, s)))"

definition octets_of :: "u16 list \<Rightarrow> bytes" where
  "octets_of gs = concat (map (\<lambda>g. [ucast (drop_bit 8 g), ucast g]) gs)"

definition read_ipv6 :: "string \<Rightarrow> (bytes \<times> string) option" where
  "read_ipv6 s =
     (let (hd_gs, hd_v4, r) = read_groups 0 8 s
      in if length hd_gs = 8 then Some (octets_of hd_gs, r)
         else if hd_v4 then None
         else do {
           r \<leftarrow> read_char CHR '':'' r;
           r \<leftarrow> read_char CHR '':'' r;
           let (tl_gs, tl_v4, r) = read_groups 0 (8 - (length hd_gs + 1)) r;
           Some (octets_of (hd_gs @ replicate (8 - length hd_gs - length tl_gs) 0 @ tl_gs), r) })"

definition parse_ip :: "string \<Rightarrow> ip_addr option" where
  "parse_ip s =
     (case read_ipv4 s of
        Some ((a, b, c, d), r) \<Rightarrow> if r = [] then Some (V4 a b c d) else None
      | None \<Rightarrow>
          (case read_ipv6 s of
             Some (bs, r) \<Rightarrow> if r = [] then Some (V6 bs) else None
           | None \<Rightarrow> None))"

section \<open>Round trip of IPv4 text\<close>

lemma read_digits_append:
  assumes "list_all is_digit_char ds" and "r = [] \<or> digit_value 10 (hd r) = None"
  shows "read_digits 10 (ds @ r) = (map (\<lambda>c. code c - 48) ds, r)"
  using assms(1)
proof (induction ds)
  case Nil
  with assms(2) show ?case by (cases r) auto
next
  case (Cons c ds)
  then show ?case by (auto simp: is_digit_char_def digit_value_def Let_def)
qed

lemma show_nat_leading: "0 < n \<Longrightarrow> code (hd (show_nat n)) \<noteq> 48"
proof (induction n rule: show_nat.induct)
  case (1 n)
  then show ?case
    by (cases "n < 10") (simp_all add: show_nat.simps[of n] code_digit_char hd_append)
qed

lemma length_show_nat_octet: "n < 256 \<Longrightarrow> length (show_nat n) \<le> 3"
  by (simp add: show_nat.simps[of n] show_nat.simps[of "n div 10"] show_nat.simps[of "n div 10 div 10"])

lemma show_nat_hd: "hd (map f (show_nat n)) = f (hd (show_nat n))"
  by (simp add: hd_map)

lemma read_number_show_nat:
  assumes "n < 256" and "r = [] \<or> digit_value 10 (hd r) = None"
  shows "read_number 10 8 (Some 3) False (show_nat n @ r) = Some (n, r)"
proof -
  let ?ks = "map (\<lambda>c. code c - 48) (show_nat n)"
  have ks: "read_digits 10 (show_nat n @ r) = (?ks, r)"
    by (rule read_digits_append[OF show_nat_digits assms(2)])
  have val: "foldl (\<lambda>acc k. 10 * acc + k) 0 ?ks = n"
    using digits_value_show_nat[of n] by (simp add: digits_value_def foldl_map)
  have "is_digit_char (hd (show_nat n))"
    using show_nat_digits[of n] by (cases "show_nat n") auto
  then have lead: "hd ?ks = 0 \<Longrightarrow> n = 0"
    using show_nat_leading[of n] by (auto simp: show_nat_hd is_digit_char_def)
  have "n = 0 \<Longrightarrow> length ?ks = 1" by (simp add: show_nat.simps)
  with lead val assms(1) length_show_nat_octet[OF assms(1)] show ?thesis
    by (auto simp: read_number_def ks Let_def)
qed

lemma read_octet_show:
  "r = [] \<or> digit_value 10 (hd r) = None \<Longrightarrow> read_octet (show_nat (unat (w :: u8)) @ r) = Some (w, r)"
  using unsigned_less[of w, where ?'a = nat] by (simp add: read_octet_def read_number_show_nat)

lemma read_char_Cons [simp]: "read_char c (c # r) = Some r"
  using strip_prefix_append[of "[c]" r] by (simp add: read_char_def)

lemma digit_value_dot: "digit_value 10 CHR ''.'' = None"
  by (simp add: digit_value_def)

lemma read_ipv4_show: "read_ipv4 (show_ipv4 a b c d) = Some ((a, b, c, d), [])"
  using read_octet_show[of "[]" d]
  by (simp add: read_ipv4_def show_ipv4_def read_octet_show digit_value_dot)

text \<open>The text of an IPv4 address parses back to that address.\<close>

lemma parse_ip_show_ipv4: "parse_ip (show_ip (V4 a b c d)) = Some (V4 a b c d)"
  by (simp add: parse_ip_def show_ip_def read_ipv4_show)

end
