(* ===== verification/Rate_Limiter.thy ===== *)
theory Rate_Limiter
  imports F64 Net_Addr
begin

text \<open>
  \<^verbatim>\<open>src/src/security/rate_limiter.rs\<close>: the token bucket per client address that admits new
  connections, and the fixed-window counter that limits the packets of one connection. The
  clock is an argument: each \<^verbatim>\<open>Instant::now()\<close> of the source is one parameter.
  \<^verbatim>\<open>duration_since\<close> saturates at zero, as subtraction on \<^typ>\<open>nat\<close> does. The lock's
  poisoned state is a field.
\<close>

section \<open>Model\<close>

record token_bucket =
  tokens :: f64
  last_update :: instant

record connection_rate_limiter =
  crl_enabled :: bool
  rate_per_sec :: f64
  burst :: f64
  buckets :: "(ip_addr, token_bucket) hmap"
  buckets_poisoned :: bool

record packet_rate_limiter =
  max_packets_per_sec :: u32
  packet_count :: u32
  window_start :: instant

definition token_bucket_new :: "f64 \<Rightarrow> instant \<Rightarrow> token_bucket" where
  "token_bucket_new brst now = \<lparr>tokens = brst, last_update = now\<rparr>"

definition try_consume :: "instant \<Rightarrow> f64 \<Rightarrow> f64 \<Rightarrow> token_bucket \<Rightarrow> bool \<times> token_bucket" where
  "try_consume now rate brst b =
     (let elapsed = as_secs_f64 (now - last_update b);
          b = b\<lparr>last_update := now\<rparr>;
          b = b\<lparr>tokens := min (f64_add (tokens b) (f64_mul elapsed rate)) brst\<rparr>
      in if 1 \<le> tokens b then (True, b\<lparr>tokens := f64_sub (tokens b) 1\<rparr>) else (False, b))"

definition connection_rate_limiter_new :: "bool \<Rightarrow> u32 \<Rightarrow> u32 \<Rightarrow> connection_rate_limiter" where
  "connection_rate_limiter_new en rate brst =
     \<lparr>crl_enabled = en, rate_per_sec = f64_of_u32 rate, burst = f64_of_u32 brst,
      buckets = [], buckets_poisoned = False\<rparr>"

definition evict_stale ::
  "instant \<Rightarrow> (ip_addr, token_bucket) hmap \<Rightarrow> (ip_addr, token_bucket) hmap" where
  "evict_stale now bs =
     (if length bs > 10000
      then filter (\<lambda>(_, b). now - last_update b < 60 * nanos_per_sec) bs else bs)"

definition check_connection ::
  "instant \<times> instant \<times> instant \<Rightarrow> ip_addr \<Rightarrow> connection_rate_limiter \<Rightarrow> bool \<times> connection_rate_limiter" where
  "check_connection clock addr l =
     (case clock of (t_evict, t_new, t_consume) \<Rightarrow>
      if \<not> crl_enabled l then (True, l)
      else if buckets_poisoned l then (True, l)
      else
        let bs = evict_stale t_evict (buckets l);
            b = (case map_of bs addr of Some b \<Rightarrow> b | None \<Rightarrow> token_bucket_new (burst l) t_new);
            (ok, b') = try_consume t_consume (rate_per_sec l) (burst l) b
        in (ok, l\<lparr>buckets := AList.update addr b' bs\<rparr>))"

definition packet_rate_limiter_new :: "u32 \<Rightarrow> instant \<Rightarrow> packet_rate_limiter" where
  "packet_rate_limiter_new m now =
     \<lparr>max_packets_per_sec = m, packet_count = 0, window_start = now\<rparr>"

definition record_packet :: "instant \<Rightarrow> packet_rate_limiter \<Rightarrow> bool \<times> packet_rate_limiter" where
  "record_packet now l =
     (if nanos_per_sec \<le> now - window_start l
      then (True, l\<lparr>window_start := now, packet_count := 1\<rparr>)
      else let l = l\<lparr>packet_count := packet_count l + 1\<rparr>
           in (packet_count l \<le> max_packets_per_sec l, l))"

section \<open>The token bucket\<close>

definition bucket_ok :: "f64 \<Rightarrow> token_bucket \<Rightarrow> bool" where
  "bucket_ok brst b \<longleftrightarrow> 0 \<le> tokens b \<and> tokens b \<le> brst \<and> f64_round (tokens b) = tokens b"

definition crl_ok :: "connection_rate_limiter \<Rightarrow> bool" where
  "crl_ok l \<longleftrightarrow> (\<exists>w. burst l = f64_of_u32 w) \<and> 0 \<le> rate_per_sec l
     \<and> distinct (map fst (buckets l)) \<and> (\<forall>b \<in> snd ` set (buckets l). bucket_ok (burst l) b)"

lemma f64_of_u32_nonneg: "0 \<le> f64_of_u32 w"
  unfolding f64_of_u32_def by (rule of_nat_0_le_iff)

lemma bucket_ok_new: "bucket_ok (f64_of_u32 w) (token_bucket_new (f64_of_u32 w) t)"
  by (simp add: bucket_ok_def token_bucket_new_def f64_of_u32_nonneg f64_round_of_u32)

lemma try_consume_ok:
  assumes "bucket_ok brst b" and "0 \<le> rate" and "f64_round brst = brst"
  shows "bucket_ok brst (snd (try_consume now rate brst b))"
proof -
  let ?e = "as_secs_f64 (now - last_update b)"
  let ?s = "tokens b + f64_mul ?e rate"
  let ?t = "min (f64_round ?s) brst"
  have e: "0 \<le> f64_mul ?e rate"
    using assms(2) by (auto simp: f64_mul_def intro!: f64_round_nonneg mult_nonneg_nonneg as_secs_f64_nonneg)
  with assms have s: "0 \<le> ?s" and brst: "0 \<le> brst" by (auto simp: bucket_ok_def)
  then have t: "0 \<le> ?t" "f64_round ?t = ?t"
    using assms by (auto simp: min_def f64_round_nonneg f64_round_idem)
  have sub: "f64_round (?t - 1) \<le> brst" "0 \<le> f64_round (?t - 1)"
      "f64_round (f64_round (?t - 1)) = f64_round (?t - 1)" if "1 \<le> ?t"
  proof -
    have "f64_round (?t - 1) \<le> f64_round ?t"
      using that by (intro f64_round_mono) auto
    with t show "f64_round (?t - 1) \<le> brst" by simp
  qed (use that in \<open>auto intro: f64_round_nonneg f64_round_idem\<close>)
  show ?thesis
    using t sub by (auto simp: bucket_ok_def try_consume_def Let_def f64_add_def f64_sub_def)
qed

lemma evict_stale_subset: "set (evict_stale t bs) \<subseteq> set bs"
  by (auto simp: evict_stale_def)

lemma evict_stale_distinct: "distinct (map fst bs) \<Longrightarrow> distinct (map fst (evict_stale t bs))"
  by (auto simp: evict_stale_def distinct_map_filter)

lemma snd_set_update: "snd ` set (AList.update k v m) \<subseteq> insert v (snd ` set m)"
  by (induction m) auto

lemma ball_snd_update:
  assumes "P v" and "\<forall>b \<in> snd ` set m. P b"
  shows "\<forall>b \<in> snd ` set (AList.update k v m). P b"
  using assms snd_set_update[of k v m] by blast

lemma check_connection_ok:
  assumes "crl_ok l"
  shows "crl_ok (snd (check_connection clock addr l))"
proof -
  obtain te tn tc where clock: "clock = (te, tn, tc)" by (cases clock)
  let ?bs = "evict_stale te (buckets l)"
  let ?b = "case map_of ?bs addr of Some b \<Rightarrow> b | None \<Rightarrow> token_bucket_new (burst l) tn"
  let ?r = "try_consume tc (rate_per_sec l) (burst l) ?b"
  from assms obtain w where w: "burst l = f64_of_u32 w" by (auto simp: crl_ok_def)
  have bs: "\<forall>b \<in> snd ` set ?bs. bucket_ok (burst l) b"
    using assms evict_stale_subset[of te "buckets l"] by (auto simp: crl_ok_def)
  have "bucket_ok (burst l) ?b"
  proof (cases "map_of ?bs addr")
    case None
    then show ?thesis using bucket_ok_new[of w tn] w by simp
  next
    case (Some b)
    then have "b \<in> snd ` set ?bs" by (metis image_eqI map_of_SomeD snd_conv)
    with bs have "bucket_ok (burst l) b" by blast
    with Some show ?thesis by simp
  qed
  then have "bucket_ok (burst l) (snd ?r)"
    using assms w by (intro try_consume_ok) (auto simp: crl_ok_def f64_round_of_u32)
  then have "\<forall>b \<in> snd ` set (AList.update addr (snd ?r) ?bs). bucket_ok (burst l) b"
    using bs by (rule ball_snd_update)
  moreover have "distinct (map fst (AList.update addr (snd ?r) ?bs))"
    using assms by (intro distinct_update evict_stale_distinct) (simp add: crl_ok_def)
  ultimately show ?thesis
    using assms by (simp add: check_connection_def clock crl_ok_def Let_def split_beta cong: option.case_cong)
qed

lemma crl_ok_new: "crl_ok (connection_rate_limiter_new en rate brst)"
  by (auto simp: crl_ok_def connection_rate_limiter_new_def f64_of_u32_nonneg)

text \<open>A sequence of attempts, one after the other under the lock.\<close>

fun check_connections ::
  "((instant \<times> instant \<times> instant) \<times> ip_addr) list \<Rightarrow> connection_rate_limiter
     \<Rightarrow> bool list \<times> connection_rate_limiter" where
  "check_connections [] l = ([], l)"
| "check_connections ((clock, addr) # as) l =
     (let (ok, l') = check_connection clock addr l; (oks, l'') = check_connections as l'
      in (ok # oks, l''))"

lemma check_connections_ok: "crl_ok l \<Longrightarrow> crl_ok (snd (check_connections as l))"
proof (induction as arbitrary: l)
  case (Cons a as)
  then show ?case
    using check_connection_ok[OF Cons.prems, of "fst a" "snd a"] by (cases a) (simp add: split_beta)
qed simp

text \<open>What the buckets hold after the attempts \<^verbatim>\<open>past\<close>, all made at instant \<^verbatim>\<open>t\<close>.\<close>

definition spent_ok :: "ip_addr list \<Rightarrow> instant \<Rightarrow> u32 \<Rightarrow> (ip_addr, token_bucket) hmap \<Rightarrow> bool" where
  "spent_ok past t brst bs \<longleftrightarrow>
     (\<forall>a. map_of bs a =
        (if a \<in> set past
         then Some \<lparr>tokens = of_nat (unat brst - count_list past a), last_update = t\<rparr> else None))"

lemma u32_f64_exact: "n \<le> unat (w :: u32) \<Longrightarrow> f64_round (of_nat n) = of_nat n"
  by (rule f64_round_nat) (rule le_less_trans[OF _ less_trans[OF unsigned_less[of w]]], simp_all)

lemma try_consume_same_instant:
  assumes "n \<le> unat brst"
  shows "try_consume t rate (f64_of_u32 brst) \<lparr>tokens = of_nat n, last_update = t\<rparr> =
     (0 < n, \<lparr>tokens = of_nat (n - 1), last_update = t\<rparr>)"
proof -
  have b: "min (of_nat n) (f64_of_u32 brst) = of_nat n"
    unfolding f64_of_u32_def using assms by (intro min_absorb1) (rule of_nat_mono)
  have r: "f64_round (of_nat n) = of_nat n" using assms by (rule u32_f64_exact)
  have r1: "f64_round (of_nat (n - 1)) = of_nat (n - 1)"
    using assms by (intro u32_f64_exact[of _ brst]) simp
  show ?thesis
  proof (cases n)
    case 0
    with b r show ?thesis by (simp add: try_consume_def f64_add_def f64_mul_def)
  next
    case (Suc m)
    with b r have "f64_round (of_nat n) \<le> f64_of_u32 brst" by (simp only: min_def split: if_splits)
    with b r r1 Suc show ?thesis
      by (simp add: try_consume_def f64_add_def f64_mul_def f64_sub_def Let_def)
  qed
qed

lemma evict_stale_same_instant:
  assumes "spent_ok past t brst bs" and "distinct (map fst bs)"
  shows "evict_stale t bs = bs"
proof -
  have "last_update b = t" if "(k, b) \<in> set bs" for k b
  proof -
    have "map_of bs k = Some b" using assms(2) that by simp
    with assms(1) show ?thesis by (auto simp: spent_ok_def split: if_splits)
  qed
  then show ?thesis
    by (auto simp: evict_stale_def nanos_per_sec_def intro!: filter_True)
qed

lemma spent_ok_bucket:
  assumes "spent_ok past t brst bs"
  shows "(case map_of bs addr of Some b \<Rightarrow> b | None \<Rightarrow> token_bucket_new (f64_of_u32 brst) t)
    = \<lparr>tokens = of_nat (unat brst - count_list past addr), last_update = t\<rparr>"
proof (cases "addr \<in> set past")
  case True
  with assms show ?thesis by (simp add: spent_ok_def)
next
  case False
  with assms show ?thesis
    by (simp add: spent_ok_def token_bucket_new_def f64_of_u32_def count_notin del: of_nat_unat)
qed

lemma spent_ok_update:
  assumes "spent_ok past t brst bs"
  shows "spent_ok (past @ [addr]) t brst
    (AList.update addr \<lparr>tokens = of_nat (unat brst - count_list past addr - 1), last_update = t\<rparr> bs)"
  using assms by (auto simp: spent_ok_def update_conv')

lemma check_connection_same_instant:
  assumes "spent_ok past t brst (buckets l)" and "distinct (map fst (buckets l))"
    and "crl_enabled l" and "\<not> buckets_poisoned l" and "burst l = f64_of_u32 brst"
  shows "check_connection (t, t, t) addr l =
    (count_list past addr < unat brst,
     l\<lparr>buckets := AList.update addr
         \<lparr>tokens = of_nat (unat brst - count_list past addr - 1), last_update = t\<rparr> (buckets l)\<rparr>)"
  using assms try_consume_same_instant[of "unat brst - count_list past addr" brst t "rate_per_sec l"]
  by (simp add: check_connection_def evict_stale_same_instant spent_ok_bucket Let_def
      cong: option.case_cong)

lemma check_connections_same_instant:
  assumes "spent_ok past t brst (buckets l)" and "distinct (map fst (buckets l))"
    and "crl_enabled l" and "\<not> buckets_poisoned l" and "burst l = f64_of_u32 brst"
  shows "fst (check_connections (map (\<lambda>a. ((t, t, t), a)) addrs) l)
    = map (\<lambda>i. count_list (past @ take i addrs) (addrs ! i) < unat brst) [0..<length addrs]"
  using assms
proof (induction addrs arbitrary: past l)
  case (Cons addr addrs)
  let ?l = "snd (check_connection (t, t, t) addr l)"
  have step: "fst (check_connection (t, t, t) addr l) = (count_list past addr < unat brst)"
    using check_connection_same_instant[OF Cons.prems, of addr] by simp
  have "spent_ok (past @ [addr]) t brst (buckets ?l)" "distinct (map fst (buckets ?l))"
      "crl_enabled ?l" "\<not> buckets_poisoned ?l" "burst ?l = f64_of_u32 brst"
    unfolding check_connection_same_instant[OF Cons.prems, of addr]
    using Cons.prems spent_ok_update[OF Cons.prems(1), of addr] by (simp_all add: distinct_update)
  from Cons.IH[OF this] step show ?case
    by (auto simp: split_beta upt_conv_Cons map_Suc_upt[symmetric] simp del: upt_Suc)
qed simp

text \<open>
  C25: whatever sequence of connection attempts a fresh connection limiter sees, at whatever
  clock readings, every bucket it keeps holds a non-negative token count that never exceeds the
  configured burst and is a binary64 value, and no address has two buckets.
\<close>
theorem connection_limiter_invariant:
  "crl_ok (snd (check_connections attempts (connection_rate_limiter_new en rate brst)))"
  by (rule check_connections_ok) (rule crl_ok_new)

text \<open>
  When all attempts fall on one instant, so that nothing is refilled, the limiter admits an
  attempt exactly when the same address has made fewer than \<^emph>\<open>burst\<close> attempts before it,
  however attempts of different addresses are interleaved.
\<close>
theorem connection_limiter_burst_exact:
  "fst (check_connections (map (\<lambda>a. ((t, t, t), a)) addrs) (connection_rate_limiter_new True rate brst))
     = map (\<lambda>i. count_list (take i addrs) (addrs ! i) < unat brst) [0..<length addrs]"
  using check_connections_same_instant[of "[]" t brst "connection_rate_limiter_new True rate brst" addrs]
  by (simp add: connection_rate_limiter_new_def spent_ok_def)

section \<open>The packet window\<close>

text \<open>
  The packets one connection gets through: the tunnel closes the connection at the first refusal.
\<close>

fun admitted :: "instant list \<Rightarrow> packet_rate_limiter \<Rightarrow> instant list" where
  "admitted [] l = []"
| "admitted (t # ts) l = (let (ok, l') = record_packet t l in if ok then t # admitted ts l' else [])"

definition in_second :: "instant \<Rightarrow> instant \<Rightarrow> bool" where
  "in_second a t \<longleftrightarrow> a \<le> t \<and> t < a + nanos_per_sec"

abbreviation admitted_in :: "instant \<Rightarrow> instant list \<Rightarrow> packet_rate_limiter \<Rightarrow> nat" where
  "admitted_in a ts l \<equiv> length (filter (in_second a) (admitted ts l))"

definition prl_cap :: "packet_rate_limiter \<Rightarrow> nat" where
  "prl_cap l = max 1 (unat (max_packets_per_sec l))"

definition prl_ok :: "packet_rate_limiter \<Rightarrow> bool" where
  "prl_ok l \<longleftrightarrow> unat (packet_count l) \<le> prl_cap l \<and> max_packets_per_sec l \<noteq> - 1"

lemma u32_not_max:
  assumes "w \<noteq> - 1"
  shows "unat (w :: u32) < 2 ^ 32 - 1"
proof -
  have "unat w < 2 ^ 32"
    using unsigned_less[of w, where ?'a = nat] by simp
  moreover have "unat w \<noteq> unat (- 1 :: u32)"
    using assms by (metis unsigned_word_eqI)
  ultimately show ?thesis by (simp add: unsigned_minus_1_eq_mask mask_eq_exp_minus_1)
qed

lemma record_packet_cases:
  assumes "prl_ok l" and "record_packet t l = (True, l')"
  obtains
    (fresh) "window_start l + nanos_per_sec \<le> t" "prl_ok l'" "window_start l' = t"
      "unat (packet_count l') = 1" "prl_cap l' = prl_cap l"
  | (same) "t < window_start l + nanos_per_sec" "prl_ok l'" "window_start l' = window_start l"
      "unat (packet_count l') = unat (packet_count l) + 1" "prl_cap l' = prl_cap l"
proof (cases "nanos_per_sec \<le> t - window_start l")
  case True
  with assms have l': "l' = l\<lparr>window_start := t, packet_count := 1\<rparr>"
    by (simp add: record_packet_def)
  from True have "window_start l + nanos_per_sec \<le> t"
    by (simp add: nanos_per_sec_def)
  with l' assms(1) show thesis
    by (intro fresh) (auto simp: prl_ok_def prl_cap_def)
next
  case False
  with assms have l': "l' = l\<lparr>packet_count := packet_count l + 1\<rparr>"
      and le: "packet_count l + 1 \<le> max_packets_per_sec l"
    by (auto simp: record_packet_def Let_def)
  from False have t: "t < window_start l + nanos_per_sec" by simp
  have "unat (packet_count l) < 2 ^ 32 - 1"
    using assms(1) u32_not_max[of "max_packets_per_sec l"] by (auto simp: prl_ok_def prl_cap_def)
  then have inc: "unat (packet_count l + 1) = unat (packet_count l) + 1"
    by (subst unat_add_lem[THEN iffD1]) simp_all
  with le have "unat (packet_count l) + 1 \<le> unat (max_packets_per_sec l)"
    by (simp add: word_le_nat_alt)
  with l' inc t assms(1) show thesis
    by (intro same) (auto simp: prl_ok_def prl_cap_def)
qed

lemma admitted_set: "set (admitted ts l) \<subseteq> set ts"
proof (induction ts arbitrary: l)
  case (Cons t ts)
  then show ?case by (cases "record_packet t l") auto
qed simp

lemma admitted_window_after:
  assumes "prl_ok l" and "a \<le> window_start l" and "sorted ts"
  shows "admitted_in a ts l \<le> prl_cap l - unat (packet_count l)"
  using assms
proof (induction ts arbitrary: l)
  case (Cons t ts)
  show ?case
  proof (cases "record_packet t l")
    case (Pair ok l')
    show ?thesis
    proof (cases ok)
      case True
      with Pair have r: "record_packet t l = (True, l')" by simp
      from Cons.prems(1) r show ?thesis
      proof (cases rule: record_packet_cases)
        case fresh
        then have "a + nanos_per_sec \<le> t" using Cons.prems(2) by simp
        then have "\<forall>u \<in> set (t # ts). \<not> in_second a u"
          using Cons.prems(3) by (auto simp: in_second_def)
        then have "filter (in_second a) (admitted (t # ts) l) = []"
          using admitted_set[of "t # ts" l] by (auto simp: filter_empty_conv)
        then show ?thesis by simp
      next
        case same
        then have "admitted_in a ts l' \<le> prl_cap l' - unat (packet_count l')"
          using Cons by (intro Cons.IH) auto
        with same r show ?thesis by (auto simp: prl_ok_def)
      qed
    qed (use Pair in simp)
  qed
qed simp

lemma admitted_window_before:
  assumes "prl_ok l" and "\<forall>t \<in> set ts. a \<le> t" and "sorted ts"
  shows "admitted_in a ts l \<le> 2 * prl_cap l - unat (packet_count l)"
  using assms
proof (induction ts arbitrary: l)
  case (Cons t ts)
  show ?case
  proof (cases "record_packet t l")
    case (Pair ok l')
    show ?thesis
    proof (cases ok)
      case True
      with Pair have r: "record_packet t l = (True, l')" by simp
      from Cons.prems(1) r show ?thesis
      proof (cases rule: record_packet_cases)
        case fresh
        then have "admitted_in a ts l' \<le> prl_cap l' - unat (packet_count l')"
          using Cons.prems by (intro admitted_window_after) auto
        with fresh r Cons.prems(1) show ?thesis by (auto simp: prl_ok_def prl_cap_def)
      next
        case same
        then have "admitted_in a ts l' \<le> 2 * prl_cap l' - unat (packet_count l')"
          using Cons.prems by (intro Cons.IH) auto
        with same r show ?thesis by (auto simp: prl_ok_def)
      qed
    qed (use Pair in simp)
  qed
qed simp

lemma admitted_bound:
  assumes "prl_ok l" and "sorted ts"
  shows "admitted_in a ts l \<le> 2 * prl_cap l"
  using assms
proof (induction ts arbitrary: l)
  case (Cons t ts)
  show ?case
  proof (cases "a \<le> t")
    case True
    then have "\<forall>u \<in> set (t # ts). a \<le> u" using Cons.prems(2) by auto
    from admitted_window_before[OF Cons.prems(1) this Cons.prems(2)] show ?thesis by simp
  next
    case False
    then have t: "\<not> in_second a t" by (simp add: in_second_def)
    obtain ok l' where r: "record_packet t l = (ok, l')" by (cases "record_packet t l")
    show ?thesis
    proof (cases ok)
      case True
      with r have "record_packet t l = (True, l')" by simp
      with Cons.prems(1) have l': "prl_ok l' \<and> prl_cap l' = prl_cap l"
        by (cases rule: record_packet_cases) auto
      then have "admitted_in a ts l' \<le> 2 * prl_cap l"
        using Cons.IH[of l'] Cons.prems(2) by simp
      with r t True show ?thesis by simp
    qed (use r in simp)
  qed
qed simp



end
