(* ===== verification/Reader.thy ===== *)
theory Reader
  imports Vine_Prelude
begin

text \<open>
  The byte streams the proxy reads from. \<^verbatim>\<open>AsyncRead\<close> is the interface: one read into a
  buffer of a given size returns some bytes, no bytes at the end of the stream, or an error.
  Its contract is the locale \<^verbatim>\<open>async_reader\<close>. Two providers implement it: a TCP socket, as
  the sequence of the segments it will deliver, and \<^verbatim>\<open>PrefixedRead\<close> of
  \<^verbatim>\<open>src/src/network/prefixed_stream.rs\<close> over any other reader.
\<close>

section \<open>Model\<close>

datatype error_kind = UnexpectedEof | InvalidData | ConnectionReset

type_synonym io_error = "error_kind \<times> string"
type_synonym 's reader = "nat \<Rightarrow> 's \<Rightarrow> (io_error + bytes) \<times> 's"

text \<open>What a socket will deliver: segments of data, in order, and possibly a failure.\<close>

datatype chunk = Data bytes | Fail io_error

type_synonym tcp_stream = "chunk list"

fun tcp_read :: "tcp_stream reader" where
  "tcp_read k [] = (Inr [], [])"
| "tcp_read k (Fail e # s) = (Inl e, s)"
| "tcp_read k (Data bs # s) =
     (if bs = [] then tcp_read k s else (Inr (take k bs), Data (drop k bs) # s))"

fun tcp_pending :: "tcp_stream \<Rightarrow> bytes" where
  "tcp_pending [] = []"
| "tcp_pending (Fail e # s) = []"
| "tcp_pending (Data bs # s) = bs @ tcp_pending s"

text \<open>A \<^verbatim>\<open>Cursor<Vec<u8>>\<close>: the bytes and the position of the next one.\<close>

record cursor =
  get_ref :: bytes
  position :: nat

record 's prefixed_read =
  prefix :: "cursor option"
  inner :: 's

definition prefixed_new :: "'s \<Rightarrow> bytes \<Rightarrow> 's prefixed_read" where
  "prefixed_new inn prefix_bytes =
     \<lparr>prefix = (if prefix_bytes = [] then None else Some \<lparr>get_ref = prefix_bytes, position = 0\<rparr>),
      inner = inn\<rparr>"

definition without_prefix :: "'s \<Rightarrow> 's prefixed_read" where
  "without_prefix inn = \<lparr>prefix = None, inner = inn\<rparr>"

definition cursor_read :: "nat \<Rightarrow> cursor \<Rightarrow> bytes \<times> cursor" where
  "cursor_read k c =
     (let got = take k (drop (position c) (get_ref c))
      in (got, c\<lparr>position := position c + length got\<rparr>))"

definition poll_inner :: "'s reader \<Rightarrow> 's prefixed_read reader" where
  "poll_inner rd k p = (case rd k (inner p) of (r, i) \<Rightarrow> (r, p\<lparr>inner := i\<rparr>))"

definition poll_read :: "'s reader \<Rightarrow> 's prefixed_read reader" where
  "poll_read rd k p =
     (case prefix p of
        None \<Rightarrow> poll_inner rd k p
      | Some c \<Rightarrow>
          let (got, c') = cursor_read k c;
              p' = p\<lparr>prefix := (if length (get_ref c') \<le> position c' then None else Some c')\<rparr>
          in if 0 < length got then (Inr got, p') else poll_inner rd k p')"

definition prefixed_pending :: "('s \<Rightarrow> bytes) \<Rightarrow> 's prefixed_read \<Rightarrow> bytes" where
  "prefixed_pending pend p =
     (case prefix p of None \<Rightarrow> [] | Some c \<Rightarrow> drop (position c) (get_ref c)) @ pend (inner p)"

section \<open>The contract of a reader\<close>

locale async_reader =
  fixes read :: "'s reader" and pending :: "'s \<Rightarrow> bytes"
  assumes read_bytes: "read k s = (Inr bs, s') \<Longrightarrow> pending s = bs @ pending s'"
    and read_limit: "read k s = (Inr bs, s') \<Longrightarrow> length bs \<le> k"
    and read_eof: "read k s = (Inr [], s') \<Longrightarrow> 0 < k \<Longrightarrow> pending s = []"
    and read_live: "pending s \<noteq> [] \<Longrightarrow> 0 < k \<Longrightarrow> \<exists>bs s'. read k s = (Inr bs, s')"
begin

lemma read_some:
  assumes "pending s \<noteq> []" and "0 < k"
  shows "\<exists>bs s'. read k s = (Inr bs, s') \<and> bs \<noteq> [] \<and> length bs \<le> k \<and> pending s = bs @ pending s'"
  using assms read_live[OF assms] read_bytes read_limit read_eof by metis

end

section \<open>The providers\<close>

interpretation tcp: async_reader tcp_read tcp_pending
proof
  show "tcp_pending s = bs @ tcp_pending s'" if "tcp_read k s = (Inr bs, s')" for k s bs s'
    using that by (induction k s rule: tcp_read.induct) (auto split: if_splits)
  show "length bs \<le> k" if "tcp_read k s = (Inr bs, s')" for k s bs s'
    using that by (induction k s rule: tcp_read.induct) (auto split: if_splits)
  show "tcp_pending s = []" if "tcp_read k s = (Inr [], s')" "0 < k" for k s s'
    using that by (induction k s rule: tcp_read.induct) (auto split: if_splits)
  show "\<exists>bs s'. tcp_read k s = (Inr bs, s')" if "tcp_pending s \<noteq> []" "0 < k" for k s
    using that by (induction k s rule: tcp_read.induct) auto
qed

context async_reader
begin

lemma poll_inner_bytes:
  assumes "poll_inner read k p = (Inr bs, p')"
  shows "pending (inner p) = bs @ pending (inner p')" and "prefix p' = prefix p"
    and "length bs \<le> k" and "bs = [] \<Longrightarrow> 0 < k \<Longrightarrow> pending (inner p) = []"
proof -
  obtain i where r: "read k (inner p) = (Inr bs, i)" and p': "p' = p\<lparr>inner := i\<rparr>"
    using assms by (auto simp: poll_inner_def split: prod.splits)
  from r p' show "pending (inner p) = bs @ pending (inner p')" "prefix p' = prefix p"
      "length bs \<le> k" "bs = [] \<Longrightarrow> 0 < k \<Longrightarrow> pending (inner p) = []"
    using read_bytes read_limit read_eof by auto
qed

lemma prefixed_cases:
  obtains (inner) "poll_read read k p = poll_inner read k p" "prefix p = None"
  | (got) c got c' p' where "prefix p = Some c" "cursor_read k c = (got, c')" "got \<noteq> []"
      "poll_read read k p = (Inr got, p')" "inner p' = inner p"
      "prefix p' = (if length (get_ref c') \<le> position c' then None else Some c')"
  | (dry) c c' p' where "prefix p = Some c" "cursor_read k c = ([], c')"
      "poll_read read k p = poll_inner read k p'" "inner p' = inner p"
      "prefix p' = (if length (get_ref c') \<le> position c' then None else Some c')"
proof (cases "prefix p")
  case None
  then show thesis by (intro inner) (simp_all add: poll_read_def)
next
  case (Some c)
  obtain g c' where c: "cursor_read k c = (g, c')" by (cases "cursor_read k c")
  let ?p = "p\<lparr>prefix := (if length (get_ref c') \<le> position c' then None else Some c')\<rparr>"
  show thesis
  proof (cases "g = []")
    case True
    with Some c show ?thesis by (intro dry[of c c' ?p]) (simp_all add: poll_read_def)
  next
    case False
    with Some c show ?thesis by (intro got[of c g c' ?p]) (simp_all add: poll_read_def)
  qed
qed

lemma cursor_read_split:
  assumes "cursor_read k c = (got, c')"
  shows "drop (position c) (get_ref c) = got @ drop (position c') (get_ref c')"
    and "get_ref c' = get_ref c" and "length got \<le> k"
    and "got = [] \<Longrightarrow> 0 < k \<Longrightarrow> drop (position c) (get_ref c) = []"
  using assms append_take_drop_id[of k "drop (position c) (get_ref c)"]
  by (auto simp: cursor_read_def Let_def min_def add.commute)

lemma prefixed_bytes:
  assumes "poll_read read k p = (Inr bs, p')"
  shows "prefixed_pending pending p = bs @ prefixed_pending pending p' \<and> length bs \<le> k
    \<and> (bs = [] \<longrightarrow> 0 < k \<longrightarrow> prefixed_pending pending p = [])"
proof (cases rule: prefixed_cases[of k p])
  case inner
  with assms poll_inner_bytes[of k p bs p'] show ?thesis
    by (simp add: prefixed_pending_def)
next
  case (got c g c' q)
  with assms have "bs = g" "p' = q" by auto
  with got cursor_read_split[of k c g c'] show ?thesis
    by (auto simp: prefixed_pending_def)
next
  case (dry c c' q)
  with assms poll_inner_bytes[of k q bs p'] cursor_read_split[of k c "[]" c'] show ?thesis
    by (cases "k = 0") (auto simp: prefixed_pending_def)
qed

lemma prefixed_live:
  assumes "prefixed_pending pending p \<noteq> []" and "0 < k"
  shows "\<exists>bs p'. poll_read read k p = (Inr bs, p')"
proof (cases rule: prefixed_cases[of k p])
  case inner
  with assms read_live[of "inner p" k] show ?thesis
    by (auto simp: prefixed_pending_def poll_inner_def)
next
  case (got c g c' q)
  then show ?thesis by simp
next
  case (dry c c' q)
  then have "drop (position c) (get_ref c) = []"
    using cursor_read_split(4) assms(2) by blast
  with dry assms read_live[of "inner q" k] show ?thesis
    by (auto simp: prefixed_pending_def poll_inner_def)
qed

text \<open>Prefixing any reader gives a reader again, whose stream is the prefix, then the rest.\<close>

lemma prefixed_reader: "async_reader (poll_read read) (prefixed_pending pending)"
  by unfold_locales (use prefixed_bytes prefixed_live in blast)+

end

interpretation prefixed_tcp: async_reader "poll_read tcp_read" "prefixed_pending tcp_pending"
  by (rule tcp.prefixed_reader)

lemma prefixed_new_pending [simp]: "prefixed_pending pend (prefixed_new s w) = w @ pend s"
  by (simp add: prefixed_pending_def prefixed_new_def)

lemma without_prefix_pending [simp]: "prefixed_pending pend (without_prefix s) = pend s"
  by (simp add: prefixed_pending_def without_prefix_def)

section \<open>Reading to the end\<close>

text \<open>\<^verbatim>\<open>read_to_end\<close> with a buffer of size \<^verbatim>\<open>k\<close>, for at most the given number of reads.\<close>

fun read_to_end :: "'s reader \<Rightarrow> nat \<Rightarrow> nat \<Rightarrow> 's \<Rightarrow> bytes option" where
  "read_to_end rd k 0 s = None"
| "read_to_end rd k (Suc n) s =
     (case rd k s of
        (Inl e, _) \<Rightarrow> None
      | (Inr bs, s') \<Rightarrow>
          if bs = [] then Some [] else map_option (\<lambda>w. bs @ w) (read_to_end rd k n s'))"

context async_reader
begin

lemma read_to_end_pending:
  assumes "read_to_end read k n s = Some w" and "0 < k"
  shows "w = pending s"
  using assms
proof (induction n arbitrary: s w)
  case (Suc n)
  then obtain bs s' where r: "read k s = (Inr bs, s')"
    by (auto split: prod.splits sum.splits)
  show ?case
  proof (cases "bs = []")
    case True
    with Suc.prems r show ?thesis using read_eof[of k s s'] by auto
  next
    case False
    with Suc.prems r obtain v where "read_to_end read k n s' = Some v" "w = bs @ v" by auto
    with Suc.IH Suc.prems(2) read_bytes[OF r] show ?thesis by simp
  qed
qed simp

end

text \<open>
  C22: \<^verbatim>\<open>PrefixedRead\<close> delivers the prefix, then the socket's bytes, each once and in order,
  for every buffer size and every segmentation of the socket's data: whenever reading to the
  end succeeds, the bytes read are the prefix followed by what the socket had pending.
\<close>
theorem prefixed_read_stream:
  assumes "read_to_end (poll_read tcp_read) k n (prefixed_new s w) = Some out" and "0 < k"
  shows "out = w @ tcp_pending s"
  using prefixed_tcp.read_to_end_pending[OF assms] by simp

theorem prefixed_read_stream_witness:
  "read_to_end (poll_read tcp_read) 4 6 (prefixed_new [Data [4, 5], Data [], Data [6, 7, 8, 9, 10]] [1, 2, 3])
     = Some ([1, 2, 3] @ tcp_pending [Data [4, 5], Data [], Data [6, 7, 8, 9, 10]])"
proof -
  have r: "read_to_end (poll_read tcp_read) 4 6 (prefixed_new [Data [4, 5], Data [], Data [6, 7, 8, 9, 10]] [1, 2, 3])
     = Some [1, 2, 3, 4, 5, 6, 7, 8, 9, 10]"
    by code_simp
  have "[1, 2, 3, 4, 5, 6, 7, 8, 9, 10] = [1, 2, 3] @ tcp_pending [Data [4, 5], Data [], Data [6, 7, 8, 9, 10]]"
    by (rule prefixed_read_stream[OF r]) simp
  then show ?thesis using r by (simp only:)
qed

end
