(* ===== verification/Proxy_Protocol.thy ===== *)
theory Proxy_Protocol
  imports Reader Net_Addr
begin

text \<open>
  \<^verbatim>\<open>src/src/network/proxy_protocol.rs\<close>: reading a HAProxy PROXY header, version 1 (text) or 2
  (binary), off the front of an incoming stream. The functions take the reader they are generic
  in as an argument and return the stream's new state beside their result.
\<close>

section \<open>Model\<close>

record proxy_header_result =
  client_addr :: socket_addr
  leftover_bytes :: bytes

definition PROXY_V2_MAGIC :: bytes where
  "PROXY_V2_MAGIC = [0x0D, 0x0A, 0x0D, 0x0A, 0x00, 0x0D, 0x0A, 0x51, 0x55, 0x49, 0x54, 0x0A]"

fun crlf_pos :: "bytes \<Rightarrow> nat option" where
  "crlf_pos (a # b # bs) =
     (if a = 0x0D \<and> b = 0x0A then Some 0 else map_option Suc (crlf_pos (b # bs)))"
| "crlf_pos _ = None"

function read_v1 :: "'s reader \<Rightarrow> bytes \<Rightarrow> 's \<Rightarrow> (io_error + bytes) \<times> 's" where
  "read_v1 rd buffer s =
     (if crlf_pos buffer \<noteq> None then (Inr buffer, s)
      else if length buffer \<ge> 108
      then (Inl (InvalidData, ''PROXY v1 header exceeded maximum length (107 bytes)''), s)
      else case rd 1 s of
        (Inl e, s') \<Rightarrow> (Inl e, s')
      | (Inr [], s') \<Rightarrow> (Inl (UnexpectedEof, ''EOF reached while reading PROXY v1 header''), s')
      | (Inr (b # _), s') \<Rightarrow> read_v1 rd (buffer @ [b]) s')"
  by pat_completeness auto
termination by (relation "measure (\<lambda>(_, buffer, _). 108 - length buffer)") auto

declare read_v1.simps [simp del]

definition parse_v1_line :: "socket_addr \<Rightarrow> string \<Rightarrow> io_error + socket_addr" where
  "parse_v1_line fallback_addr line =
     (let parts = split_on CHR '' '' line
      in if parts = [] \<or> parts ! 0 \<noteq> ''PROXY'' then Inl (InvalidData, ''Invalid PROXY v1 prefix'')
         else if length parts = 2 \<and> parts ! 1 = ''UNKNOWN'' then Inr fallback_addr
         else if length parts < 6
         then Inl (InvalidData, ''Incomplete PROXY v1 header: '' @ [CHR 0x27] @ line @ [CHR 0x27])
         else
           let proto = parts ! 1; src_ip_str = parts ! 2; src_port_str = parts ! 4
           in if proto = ''TCP4'' \<or> proto = ''TCP6'' then
                (case parse_ip src_ip_str of
                   None \<Rightarrow> Inl (InvalidData, ''Invalid PROXY v1 IP '' @ [CHR 0x27] @ src_ip_str
                      @ [CHR 0x27] @ '': invalid IP address syntax'')
                 | Some addr \<Rightarrow>
                    (case parse_uint 16 src_port_str of
                       None \<Rightarrow> Inl (InvalidData, ''Invalid PROXY v1 port '' @ [CHR 0x27] @ src_port_str
                          @ [CHR 0x27] @ '': '' @ parse_int_error 16 src_port_str)
                     | Some p \<Rightarrow> Inr \<lparr>ip = addr, port = of_nat p\<rparr>))
              else if proto = ''UNKNOWN'' then Inr fallback_addr
              else Inl (InvalidData, ''Unsupported PROXY v1 protocol: '' @ [CHR 0x27] @ proto @ [CHR 0x27]))"

definition parse_proxy_v1 ::
  "'s reader \<Rightarrow> socket_addr \<Rightarrow> bytes \<Rightarrow> 's \<Rightarrow> (io_error + proxy_header_result) \<times> 's" where
  "parse_proxy_v1 rd fallback_addr initial s =
     (case read_v1 rd initial s of
        (Inl e, s') \<Rightarrow> (Inl e, s')
      | (Inr buffer, s') \<Rightarrow>
          let pos = the (crlf_pos buffer)
          in case from_utf8 (take pos buffer) of
               None \<Rightarrow> (Inl (InvalidData, ''PROXY v1 header is not valid UTF-8''), s')
             | Some line \<Rightarrow>
                 (case parse_v1_line fallback_addr line of
                    Inl e \<Rightarrow> (Inl e, s')
                  | Inr a \<Rightarrow> (Inr \<lparr>client_addr = a, leftover_bytes = drop (pos + 2) buffer\<rparr>, s')))"

function fill :: "'s reader \<Rightarrow> nat \<Rightarrow> nat \<Rightarrow> string \<Rightarrow> bytes \<Rightarrow> 's \<Rightarrow> (io_error + bytes) \<times> 's" where
  "fill rd want cap eof_msg header s =
     (if length header < want then
        (case rd (min (want - length header) cap) s of
           (Inl e, s') \<Rightarrow> (Inl e, s')
         | (Inr bs, s') \<Rightarrow>
             if length bs = 0 then (Inl (UnexpectedEof, eof_msg), s')
             else fill rd want cap eof_msg (header @ bs) s')
      else (Inr header, s))"
  by pat_completeness auto
termination by (relation "measure (\<lambda>(_, want, _, _, header, _). want - length header)")
  (auto simp flip: length_greater_0_conv)

declare fill.simps [simp del]

definition fill_fixed :: "'s reader \<Rightarrow> bytes \<Rightarrow> 's \<Rightarrow> (io_error + bytes) \<times> 's" where
  "fill_fixed rd initial s = fill rd 16 16 ''EOF reached while reading PROXY v2 fixed header'' initial s"

definition parse_v2_body :: "socket_addr \<Rightarrow> u8 \<Rightarrow> u8 \<Rightarrow> bytes \<Rightarrow> io_error + socket_addr" where
  "parse_v2_body fallback_addr command fam_proto body =
     (if command = 0x00 then Inr fallback_addr
      else if command \<noteq> 0x01
      then Inl (InvalidData, ''Unsupported PROXY v2 command: '' @ show_nat (unat command))
      else
        let family = drop_bit 4 fam_proto; protocol = fam_proto AND 0x0F
        in if family = 0x1 \<and> protocol = 0x1 then
             (if length body < 12 then Inl (InvalidData, ''Truncated PROXY v2 IPv4 address block'')
              else Inr \<lparr>ip = V4 (body ! 0) (body ! 1) (body ! 2) (body ! 3),
                        port = u16_from_be (body ! 8) (body ! 9)\<rparr>)
           else if family = 0x2 \<and> protocol = 0x1 then
             (if length body < 36 then Inl (InvalidData, ''Truncated PROXY v2 IPv6 address block'')
              else Inr \<lparr>ip = V6 (take 16 body), port = u16_from_be (body ! 32) (body ! 33)\<rparr>)
           else Inr fallback_addr)"

definition parse_proxy_v2 ::
  "'s reader \<Rightarrow> socket_addr \<Rightarrow> bytes \<Rightarrow> 's \<Rightarrow> (io_error + proxy_header_result) \<times> 's" where
  "parse_proxy_v2 rd fallback_addr initial s =
     (case fill_fixed rd initial s of
        (Inl e, s') \<Rightarrow> (Inl e, s')
      | (Inr header, s') \<Rightarrow>
          let ver_cmd = header ! 12; fam_proto = header ! 13;
              addr_len = unat (u16_from_be (header ! 14) (header ! 15));
              version = drop_bit 4 ver_cmd; command = ver_cmd AND 0x0F;
              total_required = 16 + addr_len
          in if version \<noteq> 2
             then (Inl (InvalidData, ''Unsupported PROXY v2 version: '' @ show_nat (unat version)), s')
             else case fill rd total_required 512 ''EOF reached while reading PROXY v2 address body'' header s' of
               (Inl e, s'') \<Rightarrow> (Inl e, s'')
             | (Inr header, s'') \<Rightarrow>
                 (case parse_v2_body fallback_addr command fam_proto
                         (take addr_len (drop 16 header)) of
                    Inl e \<Rightarrow> (Inl e, s'')
                  | Inr a \<Rightarrow>
                      (Inr \<lparr>client_addr = a, leftover_bytes = drop total_required header\<rparr>, s'')))"

definition parse_proxy_protocol ::
  "'s reader \<Rightarrow> 's \<Rightarrow> socket_addr \<Rightarrow> (io_error + proxy_header_result) \<times> 's" where
  "parse_proxy_protocol rd s fallback_addr =
     (case rd 512 s of
        (Inl e, s') \<Rightarrow> (Inl e, s')
      | (Inr initial, s') \<Rightarrow>
          let n = length initial
          in if n = 0
             then (Inl (UnexpectedEof, ''Stream closed before reading PROXY header''), s')
             else if 12 \<le> n \<and> take 12 initial = PROXY_V2_MAGIC
             then parse_proxy_v2 rd fallback_addr initial s'
             else if 6 \<le> n \<and> take 6 initial = as_bytes ''PROXY ''
             then parse_proxy_v1 rd fallback_addr initial s'
             else (Inl (InvalidData, ''Unknown or invalid PROXY protocol header''), s'))"

lemma length_PROXY_V2_MAGIC [simp]: "length PROXY_V2_MAGIC = 12"
  by (simp add: PROXY_V2_MAGIC_def)

section \<open>Reading enough bytes\<close>

lemma crlf_pos_append: "crlf_pos w = Some i \<Longrightarrow> crlf_pos (w @ v) = Some i"
proof (induction w arbitrary: i rule: crlf_pos.induct)
  case (1 a b bs)
  then show ?case by (auto split: if_splits)
qed simp_all

lemma crlf_pos_bound: "crlf_pos w = Some i \<Longrightarrow> i + 2 \<le> length w"
  by (induction w arbitrary: i rule: crlf_pos.induct) (auto split: if_splits)

lemma crlf_pos_extend:
  assumes "crlf_pos (w @ v) = Some i" and "crlf_pos w = None"
  shows "length w < i + 2"
  using assms
proof (induction w arbitrary: i)
  case (Cons a w)
  then show ?case by (cases w) (auto split: if_splits)
qed simp

context async_reader
begin

lemma fill_sound:
  assumes "fill read want cap m h s = (Inr h', s')"
  shows "\<exists>w. h' = h @ w \<and> pending s = w @ pending s' \<and> want \<le> length h'
    \<and> length h' = max want (length h)"
  using assms
proof (induction "want - length h" arbitrary: h s rule: less_induct)
  case less
  show ?case
  proof (cases "length h < want")
    case True
    let ?k = "min (want - length h) cap"
    obtain bs t where r: "read ?k s = (Inr bs, t)" and ne: "bs \<noteq> []"
        and rec: "fill read want cap m (h @ bs) t = (Inr h', s')"
      using less.prems True by (subst (asm) fill.simps) (auto split: prod.splits sum.splits if_splits)
    have "want - length (h @ bs) < want - length h"
      using True ne by (simp flip: length_greater_0_conv)
    from less.hyps[OF this rec] obtain w where w: "h' = (h @ bs) @ w" "pending t = w @ pending s'"
        "want \<le> length h'" "length h' = max want (length (h @ bs))" by blast
    have "length (h @ bs) \<le> want" using read_limit[OF r] True by auto
    with w True read_bytes[OF r] show ?thesis
      by (intro exI[of _ "bs @ w"]) simp
  next
    case False
    with less.prems show ?thesis by (subst (asm) fill.simps) auto
  qed
qed

lemma fill_live:
  assumes "want \<le> length h + length (pending s)" and "0 < cap"
  shows "\<exists>h' s'. fill read want cap m h s = (Inr h', s')"
  using assms
proof (induction "want - length h" arbitrary: h s rule: less_induct)
  case less
  show ?case
  proof (cases "length h < want")
    case True
    let ?k = "min (want - length h) cap"
    have "pending s \<noteq> []" "0 < ?k" using less.prems True by auto
    then obtain bs t where r: "read ?k s = (Inr bs, t)" "bs \<noteq> []" "pending s = bs @ pending t"
      using read_some by blast
    have "want - length (h @ bs) < want - length h"
      using True r(2) by (simp flip: length_greater_0_conv)
    moreover have "want \<le> length (h @ bs) + length (pending t)"
      using less.prems(1) r(3) by simp
    ultimately have "\<exists>h' s'. fill read want cap m (h @ bs) t = (Inr h', s')"
      using less.hyps less.prems(2) by blast
    with True r(1,2) show ?thesis by (subst fill.simps) simp
  qed (subst fill.simps, simp)
qed

lemma read_v1_sound:
  assumes "read_v1 read b s = (Inr b', s')"
  shows "\<exists>w. b' = b @ w \<and> pending s = w @ pending s' \<and> crlf_pos b' \<noteq> None"
  using assms
proof (induction "108 - length b" arbitrary: b s rule: less_induct)
  case less
  show ?case
  proof (cases "crlf_pos b = None")
    case True
    then obtain c cs t where short: "length b < 108" and r: "read 1 s = (Inr (c # cs), t)"
        and rec: "read_v1 read (b @ [c]) t = (Inr b', s')"
      using less.prems
      by (subst (asm) read_v1.simps) (auto split: prod.splits sum.splits list.splits if_splits)
    have "cs = []" using read_limit[OF r] by simp
    have "108 - length (b @ [c]) < 108 - length b" using short by simp
    from less.hyps[OF this rec] obtain w where "b' = (b @ [c]) @ w" "pending t = w @ pending s'"
        "crlf_pos b' \<noteq> None" by blast
    with read_bytes[OF r] \<open>cs = []\<close> show ?thesis by (intro exI[of _ "c # w"]) simp
  next
    case False
    with less.prems show ?thesis by (subst (asm) read_v1.simps) auto
  qed
qed

lemma read_v1_live:
  assumes "crlf_pos (b @ pending s) = Some i" and "i + 2 \<le> 108"
  shows "\<exists>b' s'. read_v1 read b s = (Inr b', s')"
  using assms
proof (induction "108 - length b" arbitrary: b s rule: less_induct)
  case less
  show ?case
  proof (cases "crlf_pos b = None")
    case True
    with less.prems(1) have short: "length b < i + 2" by (rule crlf_pos_extend)
    have ne: "pending s \<noteq> []" using True less.prems(1) by auto
    then obtain bs t where r: "read 1 s = (Inr bs, t)" "bs \<noteq> []" "pending s = bs @ pending t"
        "length bs \<le> 1"
      using read_some[of s 1] by auto
    from r(2,4) obtain c where bs: "bs = [c]" by (cases bs) auto
    have "\<exists>b' s'. read_v1 read (b @ [c]) t = (Inr b', s')"
      using short less.prems r(3) bs by (intro less.hyps) auto
    with True r(1) bs short less.prems(2) show ?thesis by (subst read_v1.simps) simp
  next
    case False
    then show ?thesis by (subst read_v1.simps) simp
  qed
qed

end

section \<open>The header as a function of the whole stream\<close>

text \<open>
  The contract, on the bytes a stream delivers: one header, then the rest. It does not mention
  reads, buffers or leftover bytes.
\<close>

definition v1_spec :: "socket_addr \<Rightarrow> bytes \<Rightarrow> (socket_addr \<times> bytes) option" where
  "v1_spec fb w =
     (case crlf_pos w of
        None \<Rightarrow> None
      | Some i \<Rightarrow>
          (case from_utf8 (take i w) of
             None \<Rightarrow> None
           | Some line \<Rightarrow>
               (case parse_v1_line fb line of Inl _ \<Rightarrow> None | Inr a \<Rightarrow> Some (a, drop (i + 2) w))))"

definition v2_spec :: "socket_addr \<Rightarrow> bytes \<Rightarrow> (socket_addr \<times> bytes) option" where
  "v2_spec fb w =
     (if length w < 16 then None
      else let n = unat (u16_from_be (w ! 14) (w ! 15))
      in if length w < 16 + n \<or> drop_bit 4 (w ! 12) \<noteq> 2 then None
         else case parse_v2_body fb (w ! 12 AND 0x0F) (w ! 13) (take n (drop 16 w)) of
                Inl _ \<Rightarrow> None
              | Inr a \<Rightarrow> Some (a, drop (16 + n) w))"

definition proxy_spec :: "socket_addr \<Rightarrow> bytes \<Rightarrow> (socket_addr \<times> bytes) option" where
  "proxy_spec fb w =
     (if starts_with PROXY_V2_MAGIC w then v2_spec fb w
      else if starts_with (as_bytes ''PROXY '') w then v1_spec fb w
      else None)"

lemma v1_spec_append:
  assumes "v1_spec fb w = Some (a, r)"
  shows "v1_spec fb (w @ v) = Some (a, r @ v)"
proof -
  obtain i where i: "crlf_pos w = Some i"
    using assms by (auto simp: v1_spec_def split: option.splits)
  with assms crlf_pos_append[OF i, of v] crlf_pos_bound[OF i] show ?thesis
    by (auto simp: v1_spec_def split: option.splits sum.splits)
qed

context async_reader
begin

lemma parse_proxy_v1_sound:
  assumes "parse_proxy_v1 read fb b s = (Inr r, s')"
  shows "v1_spec fb (b @ pending s) = Some (client_addr r, leftover_bytes r @ pending s')"
proof -
  obtain b' where rd: "read_v1 read b s = (Inr b', s')"
    using assms by (auto simp: parse_proxy_v1_def Let_def split: prod.splits sum.splits option.splits)
  then obtain w i where w: "b' = b @ w" "pending s = w @ pending s'" "crlf_pos b' = Some i"
    using read_v1_sound[OF rd] by auto
  then have "v1_spec fb b' = Some (client_addr r, leftover_bytes r)"
    using assms rd
    by (auto simp: parse_proxy_v1_def v1_spec_def Let_def split: option.splits sum.splits)
  with w v1_spec_append show ?thesis by (metis append.assoc)
qed

lemma parse_proxy_v2_sound:
  assumes "parse_proxy_v2 read fb h s = (Inr r, s')"
  shows "v2_spec fb (h @ pending s) = Some (client_addr r, leftover_bytes r @ pending s')"
proof -
  define n where "n h = unat (u16_from_be (h ! 14) (h ! 15))" for h :: bytes
  obtain h1 s1 where f1: "fill_fixed read h s = (Inr h1, s1)"
    using assms by (auto simp: parse_proxy_v2_def split: prod.splits sum.splits)
  with assms obtain h2 where
      f2: "fill read (16 + n h1) 512 ''EOF reached while reading PROXY v2 address body'' h1 s1 = (Inr h2, s')"
      and ver: "drop_bit 4 (h1 ! 12) = (2 :: u8)"
      and body: "parse_v2_body fb (h1 ! 12 AND 0x0F) (h1 ! 13) (take (n h1) (drop 16 h2)) = Inr (client_addr r)"
      and lo: "leftover_bytes r = drop (16 + n h1) h2"
    by (auto simp: parse_proxy_v2_def n_def Let_def split: prod.splits sum.splits if_splits)
  obtain w1 where w1: "h1 = h @ w1" "pending s = w1 @ pending s1" "16 \<le> length h1"
    using fill_sound[OF f1[unfolded fill_fixed_def]] by auto
  obtain w2 where w2: "h2 = h1 @ w2" "pending s1 = w2 @ pending s'" "16 + n h1 \<le> length h2"
    using fill_sound[OF f2] by auto
  let ?w = "h @ pending s"
  have eq: "?w = h1 @ w2 @ pending s'" "?w = h2 @ pending s'" using w1 w2 by simp_all
  have nth: "?w ! 12 = h1 ! 12" "?w ! 13 = h1 ! 13" "?w ! 14 = h1 ! 14" "?w ! 15 = h1 ! 15"
    unfolding eq(1) using w1(3) by (simp_all add: nth_append)
  have "take (n h1) (drop 16 ?w) = take (n h1) (drop 16 h2)"
       "drop (16 + n h1) ?w = leftover_bytes r @ pending s'"
    unfolding eq(2) lo using w2(3) by simp_all
  moreover have "16 + n h1 \<le> length ?w" unfolding eq(2) using w2(3) by simp
  ultimately show ?thesis
    using ver body by (simp add: v2_spec_def nth n_def Let_def)
qed

lemma parse_proxy_sound:
  assumes "parse_proxy_protocol read s fb = (Inr r, s')"
  shows "proxy_spec fb (pending s) = Some (client_addr r, leftover_bytes r @ pending s')"
proof -
  obtain i t where r: "read 512 s = (Inr i, t)"
    using assms by (auto simp: parse_proxy_protocol_def split: prod.splits sum.splits)
  have p: "pending s = i @ pending t" by (rule read_bytes[OF r])
  have m: "starts_with PROXY_V2_MAGIC (pending s) \<longleftrightarrow> take 12 i = PROXY_V2_MAGIC" if "12 \<le> length i"
    using that unfolding p by (simp add: starts_with_def)
  have v: "starts_with (as_bytes ''PROXY '') (pending s)" "\<not> starts_with PROXY_V2_MAGIC (pending s)"
    if "6 \<le> length i" "take 6 i = as_bytes ''PROXY ''"
  proof -
    have "take 6 (pending s) = as_bytes ''PROXY ''" using that unfolding p by simp
    then show "starts_with (as_bytes ''PROXY '') (pending s)"
      by (simp add: starts_with_def eval_nat_numeral)
    show "\<not> starts_with PROXY_V2_MAGIC (pending s)"
    proof
      assume "starts_with PROXY_V2_MAGIC (pending s)"
      then have "hd (pending s) = 13" by (auto simp: starts_with_iff PROXY_V2_MAGIC_def)
      moreover have "hd (take 6 (pending s)) = 80"
        unfolding \<open>take 6 (pending s) = _\<close> by (simp add: as_bytes_def)
      ultimately show False by simp
    qed
  qed
  show ?thesis
  proof (cases "12 \<le> length i \<and> take 12 i = PROXY_V2_MAGIC")
    case True
    with assms r have "parse_proxy_v2 read fb i t = (Inr r, s')"
      by (auto simp: parse_proxy_protocol_def Let_def split: if_splits)
    from parse_proxy_v2_sound[OF this] True m show ?thesis by (simp add: proxy_spec_def p)
  next
    case False
    with assms r have "parse_proxy_v1 read fb i t = (Inr r, s')"
        "6 \<le> length i" "take 6 i = as_bytes ''PROXY ''"
      by (auto simp: parse_proxy_protocol_def Let_def split: if_splits)
    with parse_proxy_v1_sound[OF this(1)] v show ?thesis by (simp add: proxy_spec_def p)
  qed
qed

lemma parse_proxy_v2_live:
  assumes "v2_spec fb (h @ pending s) \<noteq> None"
  shows "\<exists>r s'. parse_proxy_v2 read fb h s = (Inr r, s')"
proof -
  define n where "n h = unat (u16_from_be (h ! 14) (h ! 15))" for h :: bytes
  let ?w = "h @ pending s"
  have len: "16 \<le> length ?w" and body: "16 + n ?w \<le> length ?w" and ver: "drop_bit 4 (?w ! 12) = 2"
      and dec: "\<exists>a. parse_v2_body fb (?w ! 12 AND 0x0F) (?w ! 13) (take (n ?w) (drop 16 ?w)) = Inr a"
    using assms by (auto simp: v2_spec_def n_def Let_def split: if_splits sum.splits)
  obtain h1 s1 where f1: "fill_fixed read h s = (Inr h1, s1)"
    unfolding fill_fixed_def using fill_live[of 16 h s 16] len
    by (metis length_append zero_less_numeral)
  obtain w1 where w1: "h1 = h @ w1" "pending s = w1 @ pending s1" "16 \<le> length h1"
    using fill_sound[OF f1[unfolded fill_fixed_def]] by auto
  then have eq1: "?w = h1 @ pending s1" by simp
  have nth: "?w ! 12 = h1 ! 12" "?w ! 13 = h1 ! 13" "?w ! 14 = h1 ! 14" "?w ! 15 = h1 ! 15"
    unfolding eq1 using w1(3) by (simp_all add: nth_append)
  then have n: "n ?w = n h1" by (simp add: n_def)
  have "16 + n h1 \<le> length h1 + length (pending s1)" using body unfolding n unfolding eq1 by simp
  then obtain h2 s2 where
      f2: "fill read (16 + n h1) 512 ''EOF reached while reading PROXY v2 address body'' h1 s1 = (Inr h2, s2)"
    using fill_live[of "16 + n h1" h1 s1 512] by (metis zero_less_numeral)
  obtain w2 where w2: "h2 = h1 @ w2" "pending s1 = w2 @ pending s2" "16 + n h1 \<le> length h2"
    using fill_sound[OF f2] by auto
  have "take (n h1) (drop 16 ?w) = take (n h1) (drop 16 h2)"
    unfolding eq1 using w2 by simp
  with dec obtain a where "parse_v2_body fb (h1 ! 12 AND 0x0F) (h1 ! 13) (take (n h1) (drop 16 h2)) = Inr a"
    unfolding n nth by auto
  with f1 f2 ver show ?thesis
    unfolding nth by (simp add: parse_proxy_v2_def n_def Let_def)
qed

lemma parse_proxy_v1_live:
  assumes "v1_spec fb (b @ pending s) \<noteq> None" and "\<forall>i. crlf_pos (b @ pending s) = Some i \<longrightarrow> i + 2 \<le> 108"
  shows "\<exists>r s'. parse_proxy_v1 read fb b s = (Inr r, s')"
proof -
  obtain i where i: "crlf_pos (b @ pending s) = Some i"
    using assms(1) by (auto simp: v1_spec_def split: option.splits)
  then obtain b' s' where r: "read_v1 read b s = (Inr b', s')"
    using read_v1_live assms(2) by blast
  then obtain w j where w: "b' = b @ w" "pending s = w @ pending s'" "crlf_pos b' = Some j"
    using read_v1_sound[OF r] by auto
  have "j = i" using crlf_pos_append[OF w(3), of "pending s'"] i w by simp
  moreover have "take i (b @ pending s) = take i b'"
    using w crlf_pos_bound[OF w(3)] \<open>j = i\<close> by simp
  ultimately show ?thesis
    using assms(1) i r w(3)
    by (auto simp: v1_spec_def parse_proxy_v1_def Let_def split: option.splits sum.splits)
qed

lemma parse_proxy_complete:
  assumes "proxy_spec fb (pending s) = Some (a, rest)"
    and "read 512 s = (Inr i, t)" and "12 \<le> length i"
    and "starts_with PROXY_V2_MAGIC (pending s) \<or> (\<forall>i. crlf_pos (pending s) = Some i \<longrightarrow> i + 2 \<le> 108)"
  shows "\<exists>r s'. parse_proxy_protocol read s fb = (Inr r, s') \<and> client_addr r = a
    \<and> leftover_bytes r @ pending s' = rest"
proof -
  have p: "pending s = i @ pending t" by (rule read_bytes[OF assms(2)])
  have ne: "i \<noteq> []" using assms(3) by auto
  have "\<exists>r s'. parse_proxy_protocol read s fb = (Inr r, s')"
  proof (cases "starts_with PROXY_V2_MAGIC (pending s)")
    case True
    then have "take 12 i = PROXY_V2_MAGIC" using assms(3) by (simp add: starts_with_def p)
    with parse_proxy_v2_live[of fb i t] assms ne True show ?thesis
      by (auto simp: parse_proxy_protocol_def proxy_spec_def p Let_def)
  next
    case False
    then have v1: "take 6 i = as_bytes ''PROXY ''" "take 12 i \<noteq> PROXY_V2_MAGIC"
      using assms(1,3) by (auto simp: proxy_spec_def starts_with_def p eval_nat_numeral split: if_splits)
    with parse_proxy_v1_live[of fb i t] assms ne False show ?thesis
      by (auto simp: parse_proxy_protocol_def proxy_spec_def p Let_def split: if_splits)
  qed
  with parse_proxy_sound[of s fb] assms(1) show ?thesis by fastforce
qed

end

section \<open>Headers a load balancer sends\<close>

definition octets :: "ip_addr \<Rightarrow> bytes" where
  "octets a = (case a of V4 a b c d \<Rightarrow> [a, b, c, d] | V6 bs \<Rightarrow> bs)"

definition v2_block :: "socket_addr \<Rightarrow> socket_addr \<Rightarrow> bytes \<Rightarrow> bytes" where
  "v2_block src dst tlvs =
     octets (ip src) @ octets (ip dst) @ u16_to_be (port src) @ u16_to_be (port dst) @ tlvs"

definition v2_header :: "socket_addr \<Rightarrow> socket_addr \<Rightarrow> bytes \<Rightarrow> bytes" where
  "v2_header src dst tlvs =
     PROXY_V2_MAGIC @ [0x21, case ip src of V4 _ _ _ _ \<Rightarrow> 0x11 | V6 _ \<Rightarrow> 0x21]
     @ u16_to_be (of_nat (length (v2_block src dst tlvs))) @ v2_block src dst tlvs"

definition same_family :: "ip_addr \<Rightarrow> ip_addr \<Rightarrow> bool" where
  "same_family a b \<longleftrightarrow>
     (case (a, b) of (V4 _ _ _ _, V4 _ _ _ _) \<Rightarrow> True | (V6 _, V6 _) \<Rightarrow> True | _ \<Rightarrow> False)"

type_synonym ipv4 = "u8 \<times> u8 \<times> u8 \<times> u8"

definition v1_parts :: "ipv4 \<Rightarrow> u16 \<Rightarrow> ipv4 \<Rightarrow> u16 \<Rightarrow> string list" where
  "v1_parts src sport dst dport =
     (case (src, dst) of ((a, b, c, d), (a', b', c', d')) \<Rightarrow>
        [''PROXY'', ''TCP4'', show_ipv4 a b c d, show_ipv4 a' b' c' d',
         show_nat (unat sport), show_nat (unat dport)])"

definition v1_header :: "ipv4 \<Rightarrow> u16 \<Rightarrow> ipv4 \<Rightarrow> u16 \<Rightarrow> bytes" where
  "v1_header src sport dst dport = as_bytes (join '' '' (v1_parts src sport dst dport)) @ [0x0D, 0x0A]"

lemma v2_block_source:
  assumes "same_family (ip src) (ip dst)" and "wf_ip (ip src)" and "wf_ip (ip dst)"
  defines "fam \<equiv> case ip src of V4 _ _ _ _ \<Rightarrow> 0x11 | V6 _ \<Rightarrow> 0x21"
  shows "parse_v2_body fb 1 fam (v2_block src dst tlvs) = Inr src"
proof (cases "ip src")
  case (V4 a b c d)
  with assms(1) obtain a' b' c' d' where "ip dst = V4 a' b' c' d'"
    by (cases "ip dst") (auto simp: same_family_def)
  with V4 show ?thesis
    by (simp add: parse_v2_body_def v2_block_def octets_def fam_def u16_to_be_def)
next
  case (V6 bs)
  with assms(1) obtain cs where cs: "ip dst = V6 cs"
    by (cases "ip dst") (auto simp: same_family_def)
  with V6 assms(2,3) have len: "length bs = 16" "length cs = 16" by (auto simp: wf_ip_def)
  then have "take 16 (v2_block src dst tlvs) = bs" "36 \<le> length (v2_block src dst tlvs)"
      "v2_block src dst tlvs ! 32 = ucast (drop_bit 8 (port src))"
      "v2_block src dst tlvs ! 33 = ucast (port src)"
    using V6 cs by (simp_all add: v2_block_def octets_def nth_append u16_to_be_def)
  with V6 show ?thesis by (simp add: parse_v2_body_def fam_def)
qed

lemma proxy_spec_v2_header:
  assumes "same_family (ip src) (ip dst)" and "wf_ip (ip src)" and "wf_ip (ip dst)"
    and "length (v2_block src dst tlvs) < 2 ^ 16"
  shows "proxy_spec fb (v2_header src dst tlvs @ payload) = Some (src, payload)"
proof -
  let ?b = "v2_block src dst tlvs" and ?fam = "case ip src of V4 _ _ _ _ \<Rightarrow> 0x11 | V6 _ \<Rightarrow> (0x21 :: u8)"
  let ?n = "of_nat (length ?b) :: u16"
  let ?w = "v2_header src dst tlvs @ payload"
  have w: "?w = [0x0D, 0x0A, 0x0D, 0x0A, 0x00, 0x0D, 0x0A, 0x51, 0x55, 0x49, 0x54, 0x0A, 0x21, ?fam,
      ucast (drop_bit 8 ?n), ucast ?n] @ ?b @ payload"
    by (simp add: v2_header_def PROXY_V2_MAGIC_def u16_to_be_def)
  have n: "unat ?n = length ?b" using assms(4) by (simp add: unat_of_nat)
  have "starts_with PROXY_V2_MAGIC ?w" by (simp add: v2_header_def)
  moreover have "v2_spec fb ?w = Some (src, payload)"
  proof -
    have nth: "?w ! 12 = 0x21" "?w ! 13 = ?fam" "u16_from_be (?w ! 14) (?w ! 15) = ?n"
      unfolding w by simp_all
    have "drop 16 ?w = ?b @ payload" "16 + length ?b \<le> length ?w" "16 \<le> length ?w"
      unfolding w by simp_all
    moreover have "drop (16 + length ?b) ?w = payload"
      using \<open>drop 16 ?w = _\<close> by (metis add.commute append_eq_conv_conj drop_drop)
    ultimately show ?thesis
      using v2_block_source[OF assms(1,2,3), of fb tlvs] by (simp add: v2_spec_def nth n Let_def)
  qed
  ultimately show ?thesis by (simp add: proxy_spec_def)
qed

definition v1_char :: "char \<Rightarrow> bool" where
  "v1_char c \<longleftrightarrow> 32 < code c \<and> code c < 128"

lemma v1_char_show_nat: "list_all v1_char (show_nat n)"
  using show_nat_digits[of n] by (auto simp: list_all_iff v1_char_def is_digit_char_def)

lemma v1_char_show_ipv4: "list_all v1_char (show_ipv4 a b c d)"
  using v1_char_show_nat by (simp add: show_ipv4_def v1_char_def)

lemma v1_parts_chars: "list_all (list_all v1_char) (v1_parts src sport dst dport)"
  using v1_char_show_nat v1_char_show_ipv4
  by (simp add: v1_parts_def v1_char_def split: prod.splits)

lemma length_show_ipv4: "length (show_ipv4 a b c d) \<le> 15"
proof -
  have "length (show_nat (unat w)) \<le> 3" for w :: u8
    using length_show_nat[of "unat w" 2] unsigned_less[of w, where ?'a = nat] by simp
  from this[of a] this[of b] this[of c] this[of d] show ?thesis by (simp add: show_ipv4_def)
qed

lemma length_v1_parts: "length (join '' '' (v1_parts src sport dst dport)) \<le> 106"
proof -
  have p: "length (show_nat (unat w)) \<le> 5" for w :: u16
    using length_show_nat[of "unat w" 4] unsigned_less[of w, where ?'a = nat] by simp
  obtain a b c d a' b' c' d' where "src = (a, b, c, d)" "dst = (a', b', c', d')"
    by (cases src; cases dst) auto
  with p[of sport] p[of dport] length_show_ipv4[of a b c d] length_show_ipv4[of a' b' c' d']
  show ?thesis by (simp add: v1_parts_def)
qed

lemma v1_line_chars: "c \<in> set (join '' '' (v1_parts src sport dst dport)) \<Longrightarrow> 32 \<le> code c \<and> code c < 128"
  using v1_parts_chars[of src sport dst dport] set_join[of "'' ''" "v1_parts src sport dst dport"]
  by (fastforce simp: list_all_iff v1_char_def)

lemma crlf_pos_no_cr: "0x0D \<notin> set w \<Longrightarrow> crlf_pos (w @ 0x0D # 0x0A # v) = Some (length w)"
proof (induction w)
  case (Cons c w)
  then show ?case by (cases w) auto
qed simp

lemma v1_parts_line:
  assumes "src = (a, b, c, d)"
  shows "parse_v1_line fb (join '' '' (v1_parts src sport dst dport)) = Inr \<lparr>ip = V4 a b c d, port = sport\<rparr>"
proof -
  obtain a' b' c' d' where dst: "dst = (a', b', c', d')" by (cases dst)
  have "CHR '' '' \<notin> set w" if "w \<in> set (v1_parts src sport dst dport)" for w
    using v1_parts_chars[of src sport dst dport] that by (fastforce simp: list_all_iff v1_char_def)
  then have "split_on CHR '' '' (join '' '' (v1_parts src sport dst dport)) = v1_parts src sport dst dport"
    by (intro split_on_join) (auto simp: list_all_iff v1_parts_def split: prod.splits)
  moreover have "parse_ip (show_ipv4 a b c d) = Some (V4 a b c d)"
    using parse_ip_show_ipv4[of a b c d] by (simp add: show_ip_def)
  moreover have "parse_uint 16 (show_nat (unat sport)) = Some (unat sport)"
    using unsigned_less[of sport, where ?'a = nat] by (intro parse_uint_show_nat) simp
  ultimately show ?thesis
    using assms dst by (simp add: parse_v1_line_def v1_parts_def Let_def)
qed

lemma proxy_spec_v1_header:
  assumes "src = (a, b, c, d)"
  shows "proxy_spec fb (v1_header src sport dst dport @ payload)
    = Some (\<lparr>ip = V4 a b c d, port = sport\<rparr>, payload)"
    and "crlf_pos (v1_header src sport dst dport @ payload)
      = Some (length (join '' '' (v1_parts src sport dst dport)))"
proof -
  define l where "l = join '' '' (v1_parts src sport dst dport)"
  let ?w = "v1_header src sport dst dport @ payload"
  have w: "?w = as_bytes l @ 0x0D # 0x0A # payload" by (simp add: v1_header_def l_def)
  have chars: "list_all (\<lambda>c. code c < 128) l" "\<forall>c \<in> set l. code c \<noteq> 13"
    unfolding l_def list_all_iff by (auto dest!: v1_line_chars)
  have "of_char c \<noteq> (0x0D :: u8)" if "c \<in> set l" for c
  proof
    assume "of_char c = (0x0D :: u8)"
    then have "code c = unat (0x0D :: u8)" using unat_of_char[of c] by simp
    with chars(2) that show False by simp
  qed
  then have "0x0D \<notin> set (as_bytes l)" by (fastforce simp: as_bytes_def)
  then show crlf: "crlf_pos ?w = Some (length (join '' '' (v1_parts src sport dst dport)))"
    unfolding w l_def[symmetric] using crlf_pos_no_cr[of "as_bytes l"] by simp
  have "take (length l) ?w = as_bytes l" "drop (length l + 2) ?w = payload"
    unfolding w by simp_all
  then have v1: "v1_spec fb ?w = Some (\<lparr>ip = V4 a b c d, port = sport\<rparr>, payload)"
    unfolding v1_spec_def crlf l_def[symmetric]
    using v1_parts_line[OF assms, of fb sport dst dport, folded l_def] chars(1)
    by (simp add: from_utf8_ascii)
  have "\<exists>r. l = ''PROXY '' @ r" unfolding l_def by (auto simp: v1_parts_def split: prod.splits)
  then obtain r where "l = ''PROXY '' @ r" ..
  then have "?w = as_bytes ''PROXY '' @ as_bytes r @ 0x0D # 0x0A # payload"
    unfolding w by (simp only: as_bytes_append append.assoc)
  then have "starts_with (as_bytes ''PROXY '') ?w" "hd ?w = 80"
    by (simp_all only: starts_with_append) (simp add: as_bytes_def)
  moreover have "\<not> starts_with PROXY_V2_MAGIC ?w"
    using \<open>hd ?w = 80\<close> by (auto simp: starts_with_iff PROXY_V2_MAGIC_def)
  ultimately show "proxy_spec fb ?w = Some (\<lparr>ip = V4 a b c d, port = sport\<rparr>, payload)"
    using v1 by (simp add: proxy_spec_def)
qed

section \<open>Properties\<close>

text \<open>
  C22: the incremental parser implements the stream specification on every TCP stream, however it
  is segmented: if it succeeds, the stream starts with one well-formed header that names exactly
  the address returned, and the connection the proxy goes on with (the leftover bytes put back in
  front of the socket by \<^verbatim>\<open>PrefixedRead\<close>) delivers exactly the bytes after that header: no
  byte of the payload is lost, duplicated or mistaken for header.
\<close>
theorem proxy_protocol_refines_spec:
  assumes "parse_proxy_protocol tcp_read s fb = (Inr r, s')"
  shows "proxy_spec fb (tcp_pending s)
    = Some (client_addr r, prefixed_pending tcp_pending (prefixed_new s' (leftover_bytes r)))"
  using tcp.parse_proxy_sound[OF assms] by simp

definition demo_src :: socket_addr where
  "demo_src = \<lparr>ip = V4 10 0 0 99, port = 45678\<rparr>"

definition demo_dst :: socket_addr where
  "demo_dst = \<lparr>ip = V4 192 168 1 1, port = 25565\<rparr>"

definition demo_fallback :: socket_addr where
  "demo_fallback = \<lparr>ip = V4 127 0 0 1, port = 1234\<rparr>"

definition demo_stream :: tcp_stream where
  "demo_stream =
     (let w = v2_header demo_src demo_dst [] in [Data (take 13 w), Data (drop 13 w @ [1]), Data [2, 3]])"

theorem proxy_protocol_refines_spec_witness:
  "parse_proxy_protocol tcp_read demo_stream demo_fallback
     = (Inr \<lparr>client_addr = demo_src, leftover_bytes = []\<rparr>, [Data [1], Data [2, 3]])
   \<and> proxy_spec demo_fallback (tcp_pending demo_stream) = Some (demo_src, [1, 2, 3])"
proof -
  have r: "parse_proxy_protocol tcp_read demo_stream demo_fallback
     = (Inr \<lparr>client_addr = demo_src, leftover_bytes = []\<rparr>, [Data [1], Data [2, 3]])"
    by code_simp
  from proxy_protocol_refines_spec[OF r] r show ?thesis by simp
qed





end
