(* ===== verification/Permissions.thy ===== *)
theory Permissions
  imports Vine_Prelude "HOL-Library.Multiset"
begin

text \<open>
  \<^verbatim>\<open>src/src/permissions.rs\<close>: permission nodes, groups with inheritance, and the decision
  whether a user holds a node. Group resolution is the breadth-first walk of the source, with the
  set of visited (lower-cased) group names and the queue of names still to resolve; its
  specification is the least set of groups closed under inheritance.
\<close>

section \<open>Model\<close>

definition matches_node :: "string \<Rightarrow> string \<Rightarrow> bool" where
  "matches_node pattern target =
     (let p = to_ascii_lowercase pattern; t = to_ascii_lowercase target
      in if p = ''*'' \<or> p = t then True
         else case strip_suffix ''.*'' p of
                Some prefix \<Rightarrow>
                  starts_with prefix t \<and> length prefix < length t \<and> t ! length prefix = CHR ''.''
              | None \<Rightarrow> False)"

record group_config =
  inherits :: "string list"
  permissions :: "string list"

datatype user_permission_config =
    Groups "string list"
  | Detailed (detailed_groups: "string list") (detailed_permissions: "string list")

definition user_groups :: "user_permission_config \<Rightarrow> string list" where
  "user_groups c = (case c of Groups gs \<Rightarrow> gs | Detailed gs _ \<Rightarrow> gs)"

definition direct_permissions :: "user_permission_config \<Rightarrow> string list" where
  "direct_permissions c = (case c of Groups _ \<Rightarrow> [] | Detailed _ ps \<Rightarrow> ps)"

record permissions_config =
  default_group :: string
  groups :: "(string, group_config) hmap"
  users :: "(string, user_permission_config) hmap"

definition default_group_name :: string where
  "default_group_name = ''default''"

definition default_permission_groups :: "(string, group_config) hmap" where
  "default_permission_groups =
     AList.update ''admin''
       \<lparr>inherits = [''default''],
        permissions = [''vine.command.send'', ''vine.admin'', ''*'']\<rparr>
       (AList.update ''default''
          \<lparr>inherits = [],
           permissions = [''vine.command.server'', ''vine.command.glist'', ''vine.command.list'',
             ''vine.command.help'']\<rparr> [])"

definition permissions_config_default :: permissions_config where
  "permissions_config_default =
     \<lparr>default_group = default_group_name, groups = default_permission_groups,
      users = AList.update ''Alex'' (Groups [''admin'']) []\<rparr>"

text \<open>The case-insensitive \<^verbatim>\<open>iter().find(..)\<close> over a map's entries.\<close>

definition find_ignore_case :: "(string, 'v) hmap \<Rightarrow> string \<Rightarrow> 'v option" where
  "find_ignore_case m k = map_option snd (find (\<lambda>(k', _). eq_ignore_ascii_case k' k) m)"

function resolve_groups ::
  "(string, group_config) hmap \<Rightarrow> string set \<Rightarrow> string list \<Rightarrow> string list \<Rightarrow> string list" where
  "resolve_groups gs visited [] result = result"
| "resolve_groups gs visited (grp_name # queue) result =
     (let grp_lower = to_ascii_lowercase grp_name
      in if grp_lower \<in> visited then resolve_groups gs visited queue result
         else case find_ignore_case gs grp_lower of
                Some grp \<Rightarrow>
                  resolve_groups gs (insert grp_lower visited) (queue @ inherits grp)
                    (result @ permissions grp)
              | None \<Rightarrow> resolve_groups gs (insert grp_lower visited) queue result)"
  by pat_completeness auto

lemma find_ignore_case_SomeD:
  assumes "find_ignore_case m k = Some v"
  shows "\<exists>k'. (k', v) \<in> set m \<and> to_ascii_lowercase k' = to_ascii_lowercase k"
  using assms
  by (auto simp: find_ignore_case_def find_Some_iff eq_ignore_ascii_case_def in_set_conv_nth) blast

termination resolve_groups
proof (relation "measures [\<lambda>(gs, visited, _, _). card (to_ascii_lowercase ` fst ` set gs - visited),
    \<lambda>(_, _, queue, _). length queue]")
  fix gs :: "(string, group_config) hmap" and visited grp_name queue result x grp
  assume x: "x = to_ascii_lowercase grp_name" "x \<notin> visited" "find_ignore_case gs x = Some grp"
  then obtain k where "(k, grp) \<in> set gs" "to_ascii_lowercase k = x"
    using find_ignore_case_SomeD by fastforce
  then have "x \<in> to_ascii_lowercase ` fst ` set gs" by force
  then have "card (to_ascii_lowercase ` fst ` set gs - insert x visited)
      < card (to_ascii_lowercase ` fst ` set gs - visited)"
    using x(2) by (intro psubset_card_mono) auto
  then show "((gs, insert x visited, queue @ inherits grp, result @ permissions grp),
      gs, visited, grp_name # queue, result)
    \<in> measures [\<lambda>(gs, visited, _, _). card (to_ascii_lowercase ` fst ` set gs - visited),
        \<lambda>(_, _, queue, _). length queue]"
    by simp
next
  fix gs :: "(string, group_config) hmap" and visited grp_name and queue :: "string list" and result :: "string list"
    and x :: string
  have "card (to_ascii_lowercase ` fst ` set gs - insert x visited)
      \<le> card (to_ascii_lowercase ` fst ` set gs - visited)"
    by (intro card_mono) auto
  then show "((gs, insert x visited, queue, result), gs, visited, grp_name # queue, result)
    \<in> measures [\<lambda>(gs, visited, _, _). card (to_ascii_lowercase ` fst ` set gs - visited),
        \<lambda>(_, _, queue, _). length queue]"
    by auto
qed auto

definition collect_permissions :: "permissions_config \<Rightarrow> string \<Rightarrow> string list" where
  "collect_permissions cfg username =
     (let (result, ugroups) =
            (case find_ignore_case (users cfg) username of
               Some user_cfg \<Rightarrow> (direct_permissions user_cfg, user_groups user_cfg)
             | None \<Rightarrow> ([], []));
          ugroups =
            (if \<not> list_ex (\<lambda>g. eq_ignore_ascii_case g (default_group cfg)) ugroups
             then ugroups @ [default_group cfg] else ugroups)
      in resolve_groups (groups cfg) {} ugroups result)"

definition has_permission :: "permissions_config \<Rightarrow> string \<Rightarrow> string \<Rightarrow> bool" where
  "has_permission cfg username node =
     (let perms = collect_permissions cfg username
      in if list_ex (\<lambda>perm. case strip_prefix ''-'' perm of
                              Some negated \<Rightarrow> matches_node negated node | None \<Rightarrow> False) perms
         then False
         else list_ex (\<lambda>perm. \<not> starts_with ''-'' perm \<and> matches_node perm node) perms)"

section \<open>Matching a node\<close>

lemma boundary_iff:
  "starts_with q t \<and> length q < length t \<and> t ! length q = c \<longleftrightarrow> (\<exists>r. t = q @ c # r)"
proof
  assume a: "starts_with q t \<and> length q < length t \<and> t ! length q = c"
  then obtain r where "t = q @ r" by (auto simp: starts_with_iff)
  with a show "\<exists>r. t = q @ c # r" by (cases r) auto
qed auto

lemma matches_node_iff:
  "matches_node pattern target \<longleftrightarrow>
     (let p = to_ascii_lowercase pattern; t = to_ascii_lowercase target
      in p = ''*'' \<or> p = t \<or> (\<exists>prefix rest. p = prefix @ ''.*'' \<and> t = prefix @ ''.'' @ rest))"
proof (cases "strip_suffix ''.*'' (to_ascii_lowercase pattern)")
  case None
  then have "\<nexists>r. to_ascii_lowercase pattern = r @ ''.*''" by (simp only: strip_suffix_None_iff not_False_eq_True)
  with None show ?thesis by (auto simp: matches_node_def Let_def)
next
  case (Some q)
  then have "to_ascii_lowercase pattern = q @ ''.*''" by (simp only: strip_suffix_Some_iff)
  with Some show ?thesis
    using boundary_iff[of q "to_ascii_lowercase target" "CHR ''.''"] by (auto simp: matches_node_def Let_def)
qed

section \<open>Groups and inheritance\<close>

text \<open>The groups a user's permissions come from: the least set closed under inheritance.\<close>

definition start_groups :: "permissions_config \<Rightarrow> string \<Rightarrow> string set" where
  "start_groups cfg u =
     insert (default_group cfg)
       (case find_ignore_case (users cfg) u of Some c \<Rightarrow> set (user_groups c) | None \<Rightarrow> {})"

inductive_set reached :: "(string, group_config) hmap \<Rightarrow> string set \<Rightarrow> string set"
  for gs :: "(string, group_config) hmap" and start :: "string set" where
  start: "g \<in> start \<Longrightarrow> to_ascii_lowercase g \<in> reached gs start"
| inherit: "g \<in> reached gs start \<Longrightarrow> find_ignore_case gs g = Some c \<Longrightarrow> i \<in> set (inherits c)
    \<Longrightarrow> to_ascii_lowercase i \<in> reached gs start"

definition perms_of :: "(string, group_config) hmap \<Rightarrow> string set \<Rightarrow> string set" where
  "perms_of gs names = {p. \<exists>g \<in> names. \<exists>c. find_ignore_case gs g = Some c \<and> p \<in> set (permissions c)}"

definition effective :: "permissions_config \<Rightarrow> string \<Rightarrow> string set" where
  "effective cfg u =
     (case find_ignore_case (users cfg) u of Some c \<Rightarrow> set (direct_permissions c) | None \<Rightarrow> {})
     \<union> perms_of (groups cfg) (reached (groups cfg) (start_groups cfg u))"

definition children :: "(string, group_config) hmap \<Rightarrow> string \<Rightarrow> string set" where
  "children gs g =
     (case find_ignore_case gs g of Some c \<Rightarrow> to_ascii_lowercase ` set (inherits c) | None \<Rightarrow> {})"

definition walk_inv ::
  "(string, group_config) hmap \<Rightarrow> string set \<Rightarrow> string set \<Rightarrow> string set \<Rightarrow> string list \<Rightarrow> string list \<Rightarrow> bool" where
  "walk_inv gs start direct visited queue result \<longleftrightarrow>
     visited \<union> to_ascii_lowercase ` set queue \<subseteq> reached gs start
     \<and> to_ascii_lowercase ` start \<subseteq> visited \<union> to_ascii_lowercase ` set queue
     \<and> (\<Union>g \<in> visited. children gs g) \<subseteq> visited \<union> to_ascii_lowercase ` set queue
     \<and> set result = direct \<union> perms_of gs visited"

lemma children_reached: "g \<in> reached gs start \<Longrightarrow> children gs g \<subseteq> reached gs start"
  by (auto simp: children_def intro: reached.inherit split: option.splits)

lemma reached_subset:
  assumes "to_ascii_lowercase ` start \<subseteq> V" and "(\<Union>g \<in> V. children gs g) \<subseteq> V"
  shows "reached gs start \<subseteq> V"
proof
  fix g assume "g \<in> reached gs start"
  then show "g \<in> V"
  proof (induction rule: reached.induct)
    case (inherit g c i)
    then have "to_ascii_lowercase i \<in> children gs g" by (simp add: children_def)
    with inherit.IH assms(2) show ?case by blast
  qed (use assms(1) in blast)
qed

lemma walk_inv_done:
  assumes "walk_inv gs start direct visited [] result"
  shows "set result = direct \<union> perms_of gs (reached gs start)"
proof -
  from assms have "reached gs start = visited"
    using reached_subset[of start visited gs] by (simp add: walk_inv_def subset_antisym)
  with assms show ?thesis by (simp add: walk_inv_def)
qed

lemma perms_of_insert:
  "perms_of gs (insert g V) =
     (case find_ignore_case gs g of Some c \<Rightarrow> set (permissions c) | None \<Rightarrow> {}) \<union> perms_of gs V"
  by (auto simp: perms_of_def split: option.splits)

lemma walk_inv_skip:
  assumes "walk_inv gs start direct visited (g # queue) result" and "to_ascii_lowercase g \<in> visited"
  shows "walk_inv gs start direct visited queue result"
proof -
  have "visited \<union> to_ascii_lowercase ` set (g # queue) = visited \<union> to_ascii_lowercase ` set queue"
    using assms(2) by auto
  with assms(1) show ?thesis by (simp only: walk_inv_def)
qed

lemma walk_inv_step:
  assumes "walk_inv gs start direct visited (g # queue) result"
    and "to_ascii_lowercase ` set inh = children gs (to_ascii_lowercase g)"
    and "perms_of gs (insert (to_ascii_lowercase g) visited) = set perms \<union> perms_of gs visited"
  shows "walk_inv gs start direct (insert (to_ascii_lowercase g) visited) (queue @ inh) (result @ perms)"
proof -
  let ?g = "to_ascii_lowercase g"
  let ?seen = "visited \<union> to_ascii_lowercase ` set (g # queue)"
  have seen: "insert ?g visited \<union> to_ascii_lowercase ` set (queue @ inh) = ?seen \<union> children gs ?g"
    using assms(2) by auto
  have "?g \<in> reached gs start" using assms(1) by (simp add: walk_inv_def)
  from children_reached[OF this] assms(1,3) show ?thesis
    unfolding walk_inv_def seen by auto
qed

lemma resolve_groups_exact:
  assumes "walk_inv gs start direct visited queue result"
  shows "set (resolve_groups gs visited queue result) = direct \<union> perms_of gs (reached gs start)"
  using assms
proof (induction gs visited queue result rule: resolve_groups.induct)
  case (1 gs visited result)
  then show ?case by (simp add: walk_inv_done)
next
  case (2 gs visited g queue result)
  show ?case
  proof (cases "to_ascii_lowercase g \<in> visited")
    case True
    with 2 walk_inv_skip show ?thesis by simp
  next
    case False
    show ?thesis
    proof (cases "find_ignore_case gs (to_ascii_lowercase g)")
      case None
      then have "walk_inv gs start direct (insert (to_ascii_lowercase g) visited) (queue @ []) (result @ [])"
        by (intro walk_inv_step[OF "2.prems"]) (simp_all add: children_def perms_of_insert)
      with 2 False None show ?thesis by simp
    next
      case (Some c)
      then have "walk_inv gs start direct (insert (to_ascii_lowercase g) visited) (queue @ inherits c)
          (result @ permissions c)"
        by (intro walk_inv_step[OF "2.prems"]) (simp_all add: children_def perms_of_insert)
      with 2 False Some show ?thesis by simp
    qed
  qed
qed

lemma walk_inv_start:
  assumes "to_ascii_lowercase ` set queue = to_ascii_lowercase ` start"
  shows "walk_inv gs start (set direct) {} queue direct"
  unfolding walk_inv_def assms by (auto simp: perms_of_def intro: reached.start)

lemma set_collect_permissions: "set (collect_permissions cfg u) = effective cfg u"
proof -
  obtain d gl where u: "(case find_ignore_case (users cfg) u of
        Some c \<Rightarrow> (direct_permissions c, user_groups c) | None \<Rightarrow> ([], [])) = (d, gl)"
    by (cases "(case find_ignore_case (users cfg) u of
        Some c \<Rightarrow> (direct_permissions c, user_groups c) | None \<Rightarrow> ([], []))")
  then have start: "start_groups cfg u = insert (default_group cfg) (set gl)"
    and eff: "effective cfg u = set d \<union> perms_of (groups cfg) (reached (groups cfg) (start_groups cfg u))"
    by (auto simp: start_groups_def effective_def split: option.splits)
  let ?q = "if \<not> list_ex (\<lambda>g. eq_ignore_ascii_case g (default_group cfg)) gl
    then gl @ [default_group cfg] else gl"
  have "to_ascii_lowercase ` set ?q = to_ascii_lowercase ` start_groups cfg u"
    by (auto simp: start list_ex_iff eq_ignore_ascii_case_def) (metis image_eqI)
  then have "set (resolve_groups (groups cfg) {} ?q d) = effective cfg u"
    unfolding eff by (intro resolve_groups_exact walk_inv_start)
  with u show ?thesis by (simp add: collect_permissions_def)
qed

section \<open>Independence of case and of map order\<close>

lemma find_ignore_case_cong:
  "to_ascii_lowercase k = to_ascii_lowercase k' \<Longrightarrow> find_ignore_case m k = find_ignore_case m k'"
  by (simp add: find_ignore_case_def eq_ignore_ascii_case_def)

lemma collect_permissions_case:
  assumes "eq_ignore_ascii_case u u'"
  shows "collect_permissions cfg u = collect_permissions cfg u'"
  using find_ignore_case_cong[of u u' "users cfg"] assms
  by (simp add: collect_permissions_def eq_ignore_ascii_case_def)

lemma matches_node_case:
  "eq_ignore_ascii_case p p' \<Longrightarrow> eq_ignore_ascii_case t t' \<Longrightarrow> matches_node p t = matches_node p' t'"
  by (simp add: matches_node_def eq_ignore_ascii_case_def)

definition unambiguous :: "(string, 'v) hmap \<Rightarrow> bool" where
  "unambiguous m \<longleftrightarrow> distinct (map (\<lambda>(k, _). to_ascii_lowercase k) m)"

lemma find_ignore_case_map_of:
  "find_ignore_case m k = map_of (map (\<lambda>(k, v). (to_ascii_lowercase k, v)) m) (to_ascii_lowercase k)"
  by (induction m) (simp_all add: find_ignore_case_def eq_ignore_ascii_case_def split_beta fun_upd_apply)

lemma find_ignore_case_perm:
  assumes "mset m = mset m'" and "unambiguous m"
  shows "find_ignore_case m k = find_ignore_case m' k"
proof -
  let ?f = "\<lambda>(k, v). (to_ascii_lowercase k, v)"
  have fst: "map fst (map ?f l) = map (\<lambda>(k, _). to_ascii_lowercase k) l" for l :: "(string, 'a) hmap"
    by (simp add: split_beta)
  from assms(1) have "mset (map (\<lambda>(k, _). to_ascii_lowercase k) m) = mset (map (\<lambda>(k, _). to_ascii_lowercase k) m')"
    by (simp add: mset_map)
  with assms(2) have d: "distinct (map fst (map ?f m))" "distinct (map fst (map ?f m'))"
    unfolding fst unambiguous_def by (metis mset_eq_imp_distinct_iff)+
  moreover have "set (map ?f m) = set (map ?f m')"
    using assms(1) by (metis mset_eq_setD set_map)
  ultimately show ?thesis unfolding find_ignore_case_map_of by (metis map_of_inject_set)
qed

lemma reached_mono_find:
  assumes "\<And>k. find_ignore_case gs k = find_ignore_case gs' k"
  shows "reached gs start \<subseteq> reached gs' start"
proof (rule reached_subset)
  have "children gs g = children gs' g" for g by (simp add: children_def assms)
  then show "(\<Union>g \<in> reached gs' start. children gs g) \<subseteq> reached gs' start"
    using children_reached[of _ gs' start] by blast
qed (auto intro: reached.start)

lemma effective_perm:
  assumes "mset (groups cfg) = mset (groups cfg')" and "mset (users cfg) = mset (users cfg')"
    and "unambiguous (groups cfg)" and "unambiguous (users cfg)" and "default_group cfg = default_group cfg'"
  shows "effective cfg u = effective cfg' u"
proof -
  note g = find_ignore_case_perm[OF assms(1,3)] and us = find_ignore_case_perm[OF assms(2,4)]
  have "reached (groups cfg) S = reached (groups cfg') S" for S
    using reached_mono_find[of "groups cfg" "groups cfg'"] reached_mono_find[of "groups cfg'" "groups cfg"] g
    by (simp add: subset_antisym)
  moreover have "perms_of (groups cfg) N = perms_of (groups cfg') N" for N
    by (simp add: perms_of_def g)
  ultimately show ?thesis by (simp add: effective_def start_groups_def us assms(5))
qed

section \<open>Properties\<close>

lemma has_permission_iff:
  "has_permission cfg u node \<longleftrightarrow>
     (\<exists>p \<in> effective cfg u. \<not> starts_with ''-'' p \<and> matches_node p node)
     \<and> \<not> (\<exists>n. CHR ''-'' # n \<in> effective cfg u \<and> matches_node n node)"
proof -
  have "(case strip_prefix ''-'' p of Some n \<Rightarrow> matches_node n node | None \<Rightarrow> False)
      \<longleftrightarrow> (\<exists>n. p = CHR ''-'' # n \<and> matches_node n node)" for p
    by (auto simp: strip_prefix_def starts_with_iff)
  then show ?thesis
    by (auto simp: has_permission_def Let_def list_ex_iff set_collect_permissions)
qed

text \<open>
  C21: the permissions collected for a user are exactly the user's direct permissions and those of
  every group reached from the user's groups and the default group by inheritance, with group and
  user names compared without case, whatever cycles the inheritance has.
\<close>
theorem collect_permissions_exact:
  "set (collect_permissions cfg u) =
     (case find_ignore_case (users cfg) u of Some c \<Rightarrow> set (direct_permissions c) | None \<Rightarrow> {})
     \<union> {p. \<exists>g \<in> reached (groups cfg) (start_groups cfg u).
          \<exists>c. find_ignore_case (groups cfg) g = Some c \<and> p \<in> set (permissions c)}"
  by (simp add: set_collect_permissions effective_def perms_of_def)


text \<open>
  A pattern matches a node exactly when, ignoring ASCII case, it is the wildcard, or equal to
  the node, or a prefix followed by a wildcard component and the node continues that prefix with a
  dot: a wildcard never matches across a component boundary.
\<close>
theorem matches_node_spec:
  "matches_node pattern target \<longleftrightarrow>
     to_ascii_lowercase pattern = ''*''
     \<or> eq_ignore_ascii_case pattern target
     \<or> (\<exists>prefix rest. to_ascii_lowercase pattern = prefix @ ''.*''
           \<and> to_ascii_lowercase target = prefix @ ''.'' @ rest)"
  by (simp add: matches_node_iff eq_ignore_ascii_case_def Let_def)

text \<open>
  The decision does not depend on the case of the user name or of the node.
\<close>
theorem has_permission_case_insensitive:
  assumes "eq_ignore_ascii_case u u'" and "eq_ignore_ascii_case node node'"
  shows "has_permission cfg u node = has_permission cfg u' node'"
proof -
  have "effective cfg u = effective cfg u'"
    using collect_permissions_case[OF assms(1), of cfg] by (metis set_collect_permissions)
  moreover have "matches_node p node = matches_node p node'" for p
    using matches_node_case[of p p] assms(2) by simp
  ultimately show ?thesis by (simp add: has_permission_iff)
qed

theorem has_permission_case_insensitive_witness:
  "has_permission permissions_config_default ''Alex'' ''vine.command.send''
     = has_permission permissions_config_default ''aLEX'' ''VINE.Command.Send''
   \<and> has_permission permissions_config_default ''Alex'' ''vine.command.send''"
proof -
  have "eq_ignore_ascii_case ''Alex'' ''aLEX''"
    "eq_ignore_ascii_case ''vine.command.send'' ''VINE.Command.Send''" by code_simp+
  moreover have "has_permission permissions_config_default ''Alex'' ''vine.command.send''" by code_simp
  ultimately show ?thesis using has_permission_case_insensitive by blast
qed

text \<open>
  The decision does not depend on the order in which the hash maps of groups and users are
  iterated, as long as no two group names and no two user names differ only in case.
\<close>
theorem has_permission_order_independent:
  assumes "mset (groups cfg) = mset (groups cfg')" and "mset (users cfg) = mset (users cfg')"
    and "unambiguous (groups cfg)" and "unambiguous (users cfg)" and "default_group cfg = default_group cfg'"
  shows "has_permission cfg u node = has_permission cfg' u node"
  unfolding has_permission_iff effective_perm[OF assms] ..

theorem has_permission_order_independent_witness:
  "has_permission permissions_config_default ''Steve'' ''vine.command.list''
     = has_permission (permissions_config_default
         \<lparr>groups := rev (groups permissions_config_default)\<rparr>) ''Steve'' ''vine.command.list''"
proof (rule has_permission_order_independent)
  show "unambiguous (groups permissions_config_default)"
    "unambiguous (users permissions_config_default)" by code_simp+
qed simp_all

end
