(* ===== verification/Session.thy ===== *)
theory Session
  imports Vine_Prelude
begin

text \<open>
  \<^verbatim>\<open>src/src/session.rs\<close>: the registry of connected players, a lock around a map from the
  lower-cased user name to the player's session. \<^verbatim>\<open>poisoned\<close> is the lock's poisoned state, in
  which every operation does nothing. A channel's sending half is the number of the channel; the
  queues are kept by the components that send. Of \<^verbatim>\<open>TextComponent\<close> the sources use one
  constructor.
\<close>

section \<open>Model\<close>

datatype text_component = Text (text_of: string)

datatype player_action =
    Connect string
  | Transfer string u16
  | Message text_component
  | Disconnect string
  | PluginMessage string bytes

type_synonym uuid = bytes
type_synonym channel = nat

record player_session =
  username :: string
  session_uuid :: uuid
  current_server :: string
  action_tx :: channel
  client_ip :: string
  session_protocol :: u32

record session_manager =
  sessions :: "(string, player_session) hmap"
  poisoned :: bool

definition session_manager_new :: session_manager where
  "session_manager_new = \<lparr>sessions = [], poisoned = False\<rparr>"

definition register :: "player_session \<Rightarrow> session_manager \<Rightarrow> session_manager" where
  "register s m =
     (if poisoned m then m
      else m\<lparr>sessions := AList.update (to_ascii_lowercase (username s)) s (sessions m)\<rparr>)"

definition unregister :: "string \<Rightarrow> session_manager \<Rightarrow> player_session option \<times> session_manager" where
  "unregister u m =
     (if poisoned m then (None, m)
      else (map_of (sessions m) (to_ascii_lowercase u),
            m\<lparr>sessions := AList.delete (to_ascii_lowercase u) (sessions m)\<rparr>))"

definition update_server :: "string \<Rightarrow> string \<Rightarrow> session_manager \<Rightarrow> session_manager" where
  "update_server u new_server m =
     (if poisoned m then m
      else case map_of (sessions m) (to_ascii_lowercase u) of
             Some s \<Rightarrow>
               m\<lparr>sessions := AList.update (to_ascii_lowercase u) (s\<lparr>current_server := new_server\<rparr>) (sessions m)\<rparr>
           | None \<Rightarrow> m)"

definition get_session :: "string \<Rightarrow> session_manager \<Rightarrow> player_session option" where
  "get_session u m = (if poisoned m then None else map_of (sessions m) (to_ascii_lowercase u))"

definition list_sessions :: "session_manager \<Rightarrow> player_session list" where
  "list_sessions m = (if poisoned m then [] else map snd (sessions m))"

definition session_count :: "session_manager \<Rightarrow> nat" where
  "session_count m = (if poisoned m then 0 else length (sessions m))"

section \<open>The registry's contract\<close>

definition manager_ok :: "session_manager \<Rightarrow> bool" where
  "manager_ok m \<longleftrightarrow> distinct (map fst (sessions m))
     \<and> (\<forall>(k, s) \<in> set (sessions m). k = to_ascii_lowercase (username s))"

text \<open>
  What the commands, the bridge and the plugins rely on: sessions are found again by any spelling
  of the name, operations on one name leave the others alone, and listing and counting agree with
  looking up.
\<close>

locale session_registry =
  fixes reg :: "player_session \<Rightarrow> 'm \<Rightarrow> 'm"
    and unreg :: "string \<Rightarrow> 'm \<Rightarrow> player_session option \<times> 'm"
    and upd :: "string \<Rightarrow> string \<Rightarrow> 'm \<Rightarrow> 'm"
    and get :: "string \<Rightarrow> 'm \<Rightarrow> player_session option"
    and list_all_sessions :: "'m \<Rightarrow> player_session list"
    and count :: "'m \<Rightarrow> nat"
    and ok :: "'m \<Rightarrow> bool"
  assumes get_reg: "ok m \<Longrightarrow> get u (reg s m) = (if eq_ignore_ascii_case u (username s) then Some s else get u m)"
    and get_unreg: "ok m \<Longrightarrow> get u (snd (unreg v m)) = (if eq_ignore_ascii_case u v then None else get u m)"
    and fst_unreg: "ok m \<Longrightarrow> fst (unreg v m) = get v m"
    and get_upd: "ok m \<Longrightarrow> get u (upd v srv m) =
        (if eq_ignore_ascii_case u v then map_option (\<lambda>s. s\<lparr>current_server := srv\<rparr>) (get u m) else get u m)"
    and ok_reg: "ok m \<Longrightarrow> ok (reg s m)"
    and ok_unreg: "ok m \<Longrightarrow> ok (snd (unreg v m))"
    and ok_upd: "ok m \<Longrightarrow> ok (upd v srv m)"
    and list_get: "ok m \<Longrightarrow> s \<in> set (list_all_sessions m) \<longleftrightarrow> get (username s) m = Some s"
    and list_distinct: "ok m \<Longrightarrow> distinct (map (\<lambda>s. to_ascii_lowercase (username s)) (list_all_sessions m))"
    and count_list: "ok m \<Longrightarrow> count m = length (list_all_sessions m)"
begin

lemma set_list: "ok m \<Longrightarrow> set (list_all_sessions m) = {s. get (username s) m = Some s}"
  using list_get by auto

lemma count_card: "ok m \<Longrightarrow> count m = card {s. get (username s) m = Some s}"
  using list_distinct[of m] by (simp add: count_list set_list[symmetric] distinct_card distinct_map)

lemma finite_sessions: "ok m \<Longrightarrow> finite {s. get (username s) m = Some s}"
  by (metis set_list finite_set)

end

section \<open>The registry implements it\<close>

lemma map_of_sessions_name:
  assumes "manager_ok m" and "map_of (sessions m) k = Some s"
  shows "k = to_ascii_lowercase (username s)"
  using assms map_of_SomeD by (fastforce simp: manager_ok_def)

lemma set_update_subset: "set (AList.update k v m) \<subseteq> insert (k, v) (set m)"
  by (induction m) auto

lemma manager_ok_update:
  assumes "manager_ok m" and "k = to_ascii_lowercase (username s)"
  shows "manager_ok (m\<lparr>sessions := AList.update k s (sessions m)\<rparr>)"
  using assms set_update_subset[of k s "sessions m"]
  by (fastforce simp: manager_ok_def intro: distinct_update)

lemma manager_ok_delete:
  assumes "manager_ok m"
  shows "manager_ok (m\<lparr>sessions := AList.delete k (sessions m)\<rparr>)"
  using assms by (auto simp: manager_ok_def AList.delete_eq distinct_map_filter)

text \<open>A registry in use: its map is well-formed and its lock is not poisoned.\<close>

definition live :: "session_manager \<Rightarrow> bool" where
  "live m \<longleftrightarrow> manager_ok m \<and> \<not> poisoned m"

lemma live_new: "live session_manager_new"
  by (simp add: live_def manager_ok_def session_manager_new_def)

interpretation vine: session_registry register unregister update_server get_session list_sessions
  session_count live
proof
  fix m :: session_manager and u v srv :: string and s :: player_session
  assume m: "live m"
  then have ok: "manager_ok m" "\<not> poisoned m" "distinct (map fst (sessions m))"
    by (auto simp: live_def manager_ok_def)
  show "get_session u (register s m) = (if eq_ignore_ascii_case u (username s) then Some s else get_session u m)"
    using ok(2) by (simp add: get_session_def register_def update_conv' eq_ignore_ascii_case_def)
  show "get_session u (snd (unregister v m)) = (if eq_ignore_ascii_case u v then None else get_session u m)"
    using ok(2) by (simp add: get_session_def unregister_def delete_conv' eq_ignore_ascii_case_def)
  show "fst (unregister v m) = get_session v m"
    using ok(2) by (simp add: get_session_def unregister_def)
  show "get_session u (update_server v srv m) = (if eq_ignore_ascii_case u v
      then map_option (\<lambda>s. s\<lparr>current_server := srv\<rparr>) (get_session u m) else get_session u m)"
    using ok(2)
    by (auto simp: get_session_def update_server_def update_conv' eq_ignore_ascii_case_def split: option.splits)
  show "live (register s m)"
    using m manager_ok_update[OF ok(1)] by (auto simp: live_def register_def)
  show "live (snd (unregister v m))"
    using m manager_ok_delete[OF ok(1)] by (auto simp: live_def unregister_def)
  show "live (update_server v srv m)"
    using m map_of_sessions_name[OF ok(1)]
    by (auto simp: live_def update_server_def intro!: manager_ok_update split: option.splits)
  show "s \<in> set (list_sessions m) \<longleftrightarrow> get_session (username s) m = Some s"
  proof
    assume "s \<in> set (list_sessions m)"
    then obtain k where k: "(k, s) \<in> set (sessions m)" using ok(2) by (auto simp: list_sessions_def)
    with ok(1) have "k = to_ascii_lowercase (username s)" by (auto simp: manager_ok_def)
    with k ok show "get_session (username s) m = Some s" by (simp add: get_session_def)
  next
    assume "get_session (username s) m = Some s"
    then show "s \<in> set (list_sessions m)"
      using ok(2) by (force simp: get_session_def list_sessions_def dest: map_of_SomeD)
  qed
  have "map (\<lambda>s. to_ascii_lowercase (username s)) (list_sessions m) = map fst (sessions m)"
    using ok(1,2) by (auto simp: manager_ok_def list_sessions_def)
  with ok show "distinct (map (\<lambda>s. to_ascii_lowercase (username s)) (list_sessions m))"
    by (simp only:)
  show "session_count m = length (list_sessions m)"
    by (simp add: session_count_def list_sessions_def)
qed

section \<open>Properties\<close>

text \<open>
  Registering, moving and removing sessions behave as a map keyed by the case-folded name:
  after registering a player every spelling of the name finds that session and no other name is
  affected; moving a player changes only that player's server; removing returns what a lookup
  would have found and leaves the other players.
\<close>
theorem session_lookup:
  assumes "live m"
  shows "(\<forall>u. get_session u (register s m) =
      (if eq_ignore_ascii_case u (username s) then Some s else get_session u m))
    \<and> (\<forall>u. get_session u (update_server v srv m) =
      (if eq_ignore_ascii_case u v then map_option (\<lambda>s. s\<lparr>current_server := srv\<rparr>) (get_session u m)
       else get_session u m))
    \<and> fst (unregister v m) = get_session v m
    \<and> (\<forall>u. get_session u (snd (unregister v m)) =
      (if eq_ignore_ascii_case u v then None else get_session u m))"
  using vine.get_reg[OF assms] vine.get_upd[OF assms] vine.fst_unreg[OF assms] vine.get_unreg[OF assms]
  by simp

definition steve :: player_session where
  "steve = \<lparr>username = ''Steve'', session_uuid = replicate 16 1, current_server = ''lobby'', action_tx = 0,
     client_ip = ''127.0.0.1:12345'', session_protocol = 765\<rparr>"

theorem session_lookup_witness:
  "live session_manager_new \<and> get_session ''STEVE'' (register steve session_manager_new) = Some steve"
proof -
  note l = live_new
  have "eq_ignore_ascii_case ''STEVE'' (username steve)" by code_simp
  with l session_lookup[OF l, of steve] show ?thesis by simp
qed

text \<open>The operations of the registry, as the connections interleave them.\<close>

datatype session_op = Register player_session | Unregister string | UpdateServer string string

fun apply_op :: "session_op \<Rightarrow> session_manager \<Rightarrow> session_manager" where
  "apply_op (Register s) m = register s m"
| "apply_op (Unregister u) m = snd (unregister u m)"
| "apply_op (UpdateServer u srv) m = update_server u srv m"

lemma live_fold: "live m \<Longrightarrow> live (fold apply_op ops m)"
proof (induction ops arbitrary: m)
  case (Cons op ops)
  then have "live (apply_op op m)"
    by (cases op) (auto intro: vine.ok_reg vine.ok_unreg vine.ok_upd)
  with Cons.IH show ?case by simp
qed simp

text \<open>
  C30: after any sequence of registry operations on a fresh registry, however the connections'
  operations interleave, the listed sessions are exactly those a lookup by their name finds, no
  two of them have names that differ only in case, and the count is their number.
\<close>
theorem session_registry_invariant:
  "(let m = fold apply_op ops session_manager_new
    in (\<forall>s. s \<in> set (list_sessions m) = (get_session (username s) m = Some s))
       \<and> distinct (map (\<lambda>s. to_ascii_lowercase (username s)) (list_sessions m))
       \<and> session_count m = length (list_sessions m))"
proof -
  have "live (fold apply_op ops session_manager_new)" by (rule live_fold[OF live_new])
  then show ?thesis
    using vine.list_get vine.list_distinct vine.count_list by (simp add: Let_def)
qed

text \<open>
  A second login under the same name takes the session over: when the first connection ends
  and unregisters its user name, the session removed is the second connection's, so the player who
  is still connected is no longer found.
\<close>
theorem relogin_unregisters_new_session:
  assumes "live m" and "eq_ignore_ascii_case (username s1) (username s2)"
  shows "get_session (username s2) (register s2 (register s1 m)) = Some s2
    \<and> get_session (username s2) (snd (unregister (username s1) (register s2 (register s1 m)))) = None"
proof -
  have "live (register s2 (register s1 m))"
    using assms(1) vine.ok_reg by blast
  with assms vine.ok_reg[OF assms(1)] show ?thesis
    by (simp add: vine.get_reg vine.get_unreg eq_ignore_ascii_case_sym)
qed

theorem relogin_unregisters_new_session_witness:
  "get_session ''Steve'' (snd (unregister ''Steve''
      (register (steve\<lparr>action_tx := 7\<rparr>) (register steve session_manager_new)))) = None"
proof -
  note l = live_new
  show ?thesis
    using relogin_unregisters_new_session[OF l, of steve "steve\<lparr>action_tx := 7\<rparr>"] by (simp add: steve_def)
qed

end
