(* ===== verification/Vine_Config.thy ===== *)
theory Vine_Config
  imports Permissions Reader
begin

text \<open>
  \<^verbatim>\<open>src/src/config.rs\<close> and \<^verbatim>\<open>src/src/bedrock/config.rs\<close>: the configuration records, their
  default values, and \<^verbatim>\<open>Config::load_or_create\<close>. The TOML reader and printer are third-party
  code, arguments of the definition; the file system is a map from paths to what reading the file
  gives. Field names that several structs share carry the struct's name here.
\<close>

section \<open>Model\<close>

definition sect :: string where "sect = [CHR 0xC2, CHR 0xA7]"
definition raquo :: string where "raquo = [CHR 0xC2, CHR 0xBB]"
definition bullet :: string where "bullet = [CHR 0xE2, CHR 0x80, CHR 0xA2]"

definition default_true :: bool where "default_true = True"
definition default_compression_level :: i32 where "default_compression_level = 6"
definition default_shutdown_timeout :: u64 where "default_shutdown_timeout = 10"
definition default_tcp_keepalive :: u64 where "default_tcp_keepalive = 60"
definition default_handshake_timeout :: u64 where "default_handshake_timeout = 10"
definition default_status_timeout :: u64 where "default_status_timeout = 5"
definition default_login_timeout :: u64 where "default_login_timeout = 15"
definition default_backend_connect_timeout :: u64 where "default_backend_connect_timeout = 5"
definition default_backend_login_timeout :: u64 where "default_backend_login_timeout = 15"
definition default_backend_retries :: u32 where "default_backend_retries = 2"
definition default_listen_backlog :: u32 where "default_listen_backlog = 1024"
definition default_plugins_dir :: string where "default_plugins_dir = ''./plugins''"
definition default_telemetry_interval :: u64 where "default_telemetry_interval = 300"

definition default_telemetry_endpoint :: string where
  "default_telemetry_endpoint = ''https://market.pumpkinmc.org/api/v1/rest/telemetry/heartbeat''"

record plugin_config =
  plugins_enabled :: bool
  plugin_dir :: string

definition plugin_config_default :: plugin_config where
  "plugin_config_default = \<lparr>plugins_enabled = True, plugin_dir = default_plugins_dir\<rparr>"

record server_config =
  bind_address :: string
  online_mode :: bool
  prevent_proxy_connections :: bool
  compression_threshold :: i32
  compression_level :: i32
  shutdown_timeout_secs :: u64

record network_config =
  tcp_nodelay :: bool
  tcp_keepalive_secs :: u64
  client_handshake_timeout_secs :: u64
  client_status_timeout_secs :: u64
  client_login_timeout_secs :: u64
  backend_connect_timeout_secs :: u64
  backend_login_timeout_secs :: u64
  backend_connect_retry_attempts :: u32
  recv_buffer_size :: "u64 option"
  send_buffer_size :: "u64 option"
  listen_backlog :: u32
  proxy_protocol :: bool
  log_pings :: bool

definition network_config_default :: network_config where
  "network_config_default =
     \<lparr>tcp_nodelay = default_true, tcp_keepalive_secs = default_tcp_keepalive,
      client_handshake_timeout_secs = default_handshake_timeout,
      client_status_timeout_secs = default_status_timeout,
      client_login_timeout_secs = default_login_timeout,
      backend_connect_timeout_secs = default_backend_connect_timeout,
      backend_login_timeout_secs = default_backend_login_timeout,
      backend_connect_retry_attempts = default_backend_retries,
      recv_buffer_size = None, send_buffer_size = None,
      listen_backlog = default_listen_backlog, proxy_protocol = False, log_pings = False\<rparr>"

record motd_config =
  line1 :: string
  line2 :: string
  motd_max_players :: u32
  motd_version_name :: string
  motd_protocol_version :: i32
  sample_players :: "string list"
  motd_icon_path :: "string option"
  show_sample_players :: bool

record security_config =
  rate_limit_enabled :: bool
  max_connections_per_sec :: u32
  connection_burst :: u32
  sec_max_packets_per_sec :: u32
  max_packet_size :: u64
  validate_usernames :: bool

record routing_config =
  default_server :: string
  fallback_server :: "string option"
  forced_hosts :: "(string, string) hmap"
  try_fallback_on_connect_failure :: bool

datatype forwarding_mode = NoForwarding | BungeeCord | Velocity | Vine

record backend_config =
  address :: string
  forwarding :: forwarding_mode
  secret :: "string option"
  icon_path :: "string option"
  motd_line1 :: "string option"
  motd_line2 :: "string option"

record telemetry_config =
  telemetry_enabled :: bool
  endpoint :: string
  interval_secs :: u64
  public_listing :: bool
  tele_server_name :: "string option"

definition telemetry_config_default :: telemetry_config where
  "telemetry_config_default =
     \<lparr>telemetry_enabled = True, endpoint = default_telemetry_endpoint, interval_secs = 300,
      public_listing = False, tele_server_name = None\<rparr>"

record bedrock_config =
  bedrock_enabled :: bool
  bedrock_bind_address :: string
  bedrock_motd :: string
  sub_motd :: string
  bedrock_protocol_version :: u32
  bedrock_version_name :: string
  level_name :: string
  game_mode :: string
  game_mode_id :: u32
  bedrock_max_players :: u32
  cfg_server_guid :: u64

definition bedrock_config_default :: bedrock_config where
  "bedrock_config_default =
     \<lparr>bedrock_enabled = True, bedrock_bind_address = ''0.0.0.0:19132'',
      bedrock_motd = sect @ ''a'' @ sect @ ''lVine '' @ sect @ ''7'' @ raquo @ '' '' @ sect
        @ ''fHigh-Performance Minecraft Proxy'',
      sub_motd = ''Bedrock Support '' @ bullet @ '' 1.26.x'', bedrock_protocol_version = 2169,
      bedrock_version_name = ''1.26.45'', level_name = ''Vine Proxy'', game_mode = ''Survival'',
      game_mode_id = 0, bedrock_max_players = 100, cfg_server_guid = 0\<rparr>"

record config =
  server :: server_config
  network :: network_config
  motd :: motd_config
  security :: security_config
  routing :: routing_config
  servers :: "(string, backend_config) hmap"
  telemetry :: telemetry_config
  bedrock :: bedrock_config
  permissions_cfg :: permissions_config
  plugins :: plugin_config

definition default_servers :: "(string, backend_config) hmap" where
  "default_servers =
     AList.update ''vanilla''
       \<lparr>address = ''127.0.0.1:25568'', forwarding = NoForwarding, secret = None,
        icon_path = None, motd_line1 = None, motd_line2 = None\<rparr>
     (AList.update ''survival''
       \<lparr>address = ''127.0.0.1:25567'', forwarding = BungeeCord, secret = None, icon_path = None,
        motd_line1 = Some (sect @ ''b'' @ sect @ ''lVine Survival '' @ sect @ ''7'' @ raquo @ '' ''
          @ sect @ ''fWelcome back!''),
        motd_line2 = Some (sect @ ''7Custom world '' @ bullet @ '' Economy '' @ bullet @ '' Land Claims'')\<rparr>
     (AList.update ''lobby''
       \<lparr>address = ''127.0.0.1:25566'', forwarding = Velocity,
        secret = Some ''vine-velocity-secret-change-me'', icon_path = None,
        motd_line1 = None, motd_line2 = None\<rparr> []))"

definition config_default :: config where
  "config_default =
     \<lparr>server =
        \<lparr>bind_address = ''0.0.0.0:25565'', online_mode = True, prevent_proxy_connections = True,
         compression_threshold = 256, compression_level = 6, shutdown_timeout_secs = 10\<rparr>,
      network = network_config_default,
      motd =
        \<lparr>line1 = sect @ ''a'' @ sect @ ''lVine '' @ sect @ ''7'' @ raquo @ '' '' @ sect
           @ ''fHigh-Performance Minecraft Proxy'',
         line2 = sect @ ''7Multi-version support '' @ sect @ ''8'' @ bullet @ '' '' @ sect @ ''e1.7.x - 26.x'',
         motd_max_players = 100, motd_version_name = ''Vine 1.7.x - 26.x'', motd_protocol_version = 776,
         sample_players = [sect @ ''aVine Multi-Version Proxy'',
           sect @ ''7Secure '' @ bullet @ '' Fast '' @ bullet @ '' Reliable''],
         motd_icon_path = None, show_sample_players = True\<rparr>,
      security =
        \<lparr>rate_limit_enabled = True, max_connections_per_sec = 5, connection_burst = 10,
         sec_max_packets_per_sec = 500, max_packet_size = 2 * 1024 * 1024, validate_usernames = True\<rparr>,
      routing =
        \<lparr>default_server = ''lobby'', fallback_server = Some ''survival'',
         forced_hosts = AList.update ''vanilla.example.com'' ''vanilla''
           (AList.update ''survival.example.com'' ''survival'' []),
         try_fallback_on_connect_failure = True\<rparr>,
      servers = default_servers, telemetry = telemetry_config_default,
      bedrock = bedrock_config_default, permissions_cfg = permissions_config_default,
      plugins = plugin_config_default\<rparr>"

type_synonym file_system = "string \<Rightarrow> (io_error + string) option"

datatype config_error = Io_Error io_error | Toml_Error string

definition load_or_create ::
  "(string \<Rightarrow> string + config) \<Rightarrow> (config \<Rightarrow> string + string)
    \<Rightarrow> (string \<Rightarrow> string \<Rightarrow> file_system \<Rightarrow> io_error + file_system)
    \<Rightarrow> string \<Rightarrow> file_system \<Rightarrow> (config_error + config) \<times> file_system" where
  "load_or_create from_str to_string_pretty write path fs =
     (case fs path of
        Some (Inl e) \<Rightarrow> (Inl (Io_Error e), fs)
      | Some (Inr content) \<Rightarrow>
          (case from_str content of
             Inl e \<Rightarrow> (Inl (Toml_Error e), fs)
           | Inr cfg \<Rightarrow> (Inr cfg, fs))
      | None \<Rightarrow>
          let default_config = config_default
          in case to_string_pretty default_config of
               Inl e \<Rightarrow> (Inl (Toml_Error e), fs)
             | Inr toml_string \<Rightarrow>
                 (case write path toml_string fs of
                    Inl e \<Rightarrow> (Inl (Io_Error e), fs)
                  | Inr fs' \<Rightarrow> (Inr default_config, fs')))"

section \<open>Properties\<close>

text \<open>The concrete file system of a witness: writing stores the text.\<close>

definition fs_write :: "string \<Rightarrow> string \<Rightarrow> file_system \<Rightarrow> io_error + file_system" where
  "fs_write path content fs = Inr (fs(path \<mapsto> Inr content))"

text \<open>
  Starting without a configuration file creates one, and every later start reads back the
  configuration the first start used: with a TOML printer and parser that round-trip and a write
  that stores the file, loading twice returns the default configuration both times and the
  second load changes nothing.
\<close>
theorem load_or_create_stable:
  assumes toml_roundtrip: "\<And>c t. to_string_pretty c = Inr t \<Longrightarrow> from_str t = Inr c"
    and write_stores: "\<And>p t fs fs'. write p t fs = Inr fs' \<Longrightarrow> fs' p = Some (Inr t)"
    and "fs path = None"
    and "load_or_create from_str to_string_pretty write path fs = (Inr cfg, fs')"
  shows "cfg = config_default
    \<and> load_or_create from_str to_string_pretty write path fs' = (Inr cfg, fs')"
proof -
  obtain t where t: "to_string_pretty config_default = Inr t" "write path t fs = Inr fs'"
      and cfg: "cfg = config_default"
    using assms(3,4) by (auto simp: load_or_create_def Let_def split: sum.splits)
  have "from_str t = Inr config_default" "fs' path = Some (Inr t)"
    using toml_roundtrip[OF t(1)] write_stores[OF t(2)] by simp_all
  with cfg show ?thesis by (simp add: load_or_create_def)
qed

theorem load_or_create_stable_witness:
  "load_or_create (\<lambda>t. if t = ''d'' then Inr config_default else Inl ''bad'')
      (\<lambda>c. if c = config_default then Inr ''d'' else Inl ''unsupported'') fs_write ''vine.toml''
      (Map.empty(''vine.toml'' \<mapsto> Inr ''d''))
    = (Inr config_default, Map.empty(''vine.toml'' \<mapsto> Inr ''d''))"
proof -
  let ?from = "\<lambda>t. if t = ''d'' then Inr config_default else Inl ''bad'' :: string + config"
  let ?to = "\<lambda>c. if c = config_default then Inr ''d'' else Inl ''unsupported'' :: string + string"
  have 1: "load_or_create ?from ?to fs_write ''vine.toml'' Map.empty
      = (Inr config_default, Map.empty(''vine.toml'' \<mapsto> Inr ''d''))"
    by (simp add: load_or_create_def fs_write_def)
  have rt: "?from t = Inr c" if "?to c = Inr t" for c t using that by (auto split: if_splits)
  have ws: "fs' p = Some (Inr t)" if "fs_write p t fs = Inr fs'" for p t fs fs'
    using that by (auto simp: fs_write_def)
  show ?thesis
    by (rule conjunct2[OF load_or_create_stable[of "?to" "?from" fs_write Map.empty "''vine.toml''" config_default
          "Map.empty(''vine.toml'' \<mapsto> Inr ''d'')"]]) (assumption | rule rt ws refl 1)+
qed

end
