(* ===== verification/Router.thy ===== *)
theory Router
  imports Vine_Config
begin

text \<open>
  \<^verbatim>\<open>Router\<close> of \<^verbatim>\<open>src/src/backend/mod.rs\<close>: which backend a virtual host leads to.
\<close>

section \<open>Model\<close>

record router =
  router_routing :: routing_config
  router_servers :: "(string, backend_config) hmap"

definition router_new :: "routing_config \<Rightarrow> (string, backend_config) hmap \<Rightarrow> router" where
  "router_new r s = \<lparr>router_routing = r, router_servers = s\<rparr>"

definition resolve_server :: "router \<Rightarrow> string \<Rightarrow> (string \<times> backend_config) option" where
  "resolve_server r virtual_host =
     (let forced =
        (case map_of (forced_hosts (router_routing r)) virtual_host of
           Some target_name \<Rightarrow>
             (case map_of (router_servers r) target_name of
                Some cfg \<Rightarrow> Some (target_name, cfg) | None \<Rightarrow> None)
         | None \<Rightarrow> None)
      in case forced of
           Some res \<Rightarrow> Some res
         | None \<Rightarrow>
             (case map_of (router_servers r) (default_server (router_routing r)) of
                Some cfg \<Rightarrow> Some (default_server (router_routing r), cfg)
              | None \<Rightarrow>
                  (let fallback =
                     (case fallback_server (router_routing r) of
                        Some fallback_name \<Rightarrow>
                          (case map_of (router_servers r) fallback_name of
                             Some cfg \<Rightarrow> Some (fallback_name, cfg) | None \<Rightarrow> None)
                      | None \<Rightarrow> None)
                   in case fallback of
                        Some res \<Rightarrow> Some res
                      | None \<Rightarrow> (case router_servers r of [] \<Rightarrow> None | e # _ \<Rightarrow> Some e))))"

section \<open>Specification\<close>

text \<open>The names the router considers, in order of preference.\<close>

definition candidates :: "router \<Rightarrow> string \<Rightarrow> string list" where
  "candidates r h =
     (case map_of (forced_hosts (router_routing r)) h of Some t \<Rightarrow> [t] | None \<Rightarrow> [])
     @ [default_server (router_routing r)]
     @ (case fallback_server (router_routing r) of Some f \<Rightarrow> [f] | None \<Rightarrow> [])"

definition configured :: "router \<Rightarrow> string \<Rightarrow> bool" where
  "configured r n \<longleftrightarrow> map_of (router_servers r) n \<noteq> None"

lemma resolve_server_candidates:
  "resolve_server r h =
     (case find (configured r) (candidates r h) of
        Some n \<Rightarrow> Some (n, the (map_of (router_servers r) n))
      | None \<Rightarrow> (case router_servers r of [] \<Rightarrow> None | e # _ \<Rightarrow> Some e))"
  by (auto simp: resolve_server_def candidates_def configured_def Let_def split: option.splits)

section \<open>Properties\<close>

text \<open>
  C32: routing always answers with a configured server and its own configuration, and fails only
  when no server is configured at all; the answer is the first configured name among the forced
  host's target, the default server and the fallback server, and any other server only when none
  of these is configured.
\<close>
theorem resolve_server_sound:
  "(resolve_server r h = None \<longleftrightarrow> router_servers r = [])
    \<and> (\<forall>n c. resolve_server r h = Some (n, c) \<longrightarrow>
         map_of (router_servers r) n = Some c
         \<and> (case find (configured r) (candidates r h) of Some n' \<Rightarrow> n = n' | None \<Rightarrow> True))"
proof (cases "find (configured r) (candidates r h)")
  case None
  then show ?thesis
    unfolding resolve_server_candidates by (auto split: list.splits)
next
  case (Some n)
  then have "configured r n" by (auto simp: find_Some_iff)
  then obtain c where c: "map_of (router_servers r) n = Some c" by (auto simp: configured_def)
  then have "router_servers r \<noteq> []" by auto
  with Some c show ?thesis unfolding resolve_server_candidates by simp
qed

definition demo_router :: router where
  "demo_router = router_new (routing config_default) (servers config_default)"

theorem resolve_server_sound_witness:
  "resolve_server demo_router ''survival.example.com'' \<noteq> None
   \<and> map_of (router_servers demo_router) ''survival''
      = map_option snd (resolve_server demo_router ''survival.example.com'')"
proof -
  have n: "map_option fst (resolve_server demo_router ''survival.example.com'') = Some ''survival''"
    by code_simp
  then obtain c where "resolve_server demo_router ''survival.example.com'' = Some (''survival'', c)"
    by auto
  with resolve_server_sound[of demo_router "''survival.example.com''"] show ?thesis by auto
qed

end
