(* ===== verification/Codec.thy ===== *)
theory Codec
  imports Vine_Prelude
begin

text \<open>
  The wire codec of \<^verbatim>\<open>pumpkin_protocol\<close>, third-party code: a record of functions the
  definitions take as an argument. \<^verbatim>\<open>codec_ok\<close> is what they rely on, that reading undoes
  writing. The published Minecraft encoding (VarInt in groups of seven bits, strings with their
  length in bytes) is an instance, used by the witnesses.
\<close>

record codec =
  write_varint :: "i32 \<Rightarrow> string + bytes"
  write_string :: "string \<Rightarrow> string + bytes"
  write_bool :: "bool \<Rightarrow> string + bytes"
  get_var_int :: "bytes \<Rightarrow> string + i32 \<times> bytes"
  get_string :: "bytes \<Rightarrow> string + string \<times> bytes"
  get_bool :: "bytes \<Rightarrow> string + bool \<times> bytes"

text \<open>The law of one writer and its reader.\<close>

definition reads_back :: "('a \<Rightarrow> string + bytes) \<Rightarrow> (bytes \<Rightarrow> string + 'a \<times> bytes) \<Rightarrow> bool" where
  "reads_back w r \<longleftrightarrow> (\<forall>x bs rest. w x = Inr bs \<longrightarrow> r (bs @ rest) = Inr (x, rest))"

definition codec_ok :: "codec \<Rightarrow> bool" where
  "codec_ok c \<longleftrightarrow> reads_back (write_varint c) (get_var_int c)
     \<and> reads_back (write_string c) (get_string c) \<and> reads_back (write_bool c) (get_bool c)"

lemma codec_okD:
  assumes "codec_ok c"
  shows "write_varint c v = Inr bs \<Longrightarrow> get_var_int c (bs @ rest) = Inr (v, rest)"
    and "write_string c s = Inr bs \<Longrightarrow> get_string c (bs @ rest) = Inr (s, rest)"
    and "write_bool c b = Inr bs \<Longrightarrow> get_bool c (bs @ rest) = Inr (b, rest)"
  using assms by (auto simp: codec_ok_def reads_back_def)

definition bind_res :: "'e + 'a \<Rightarrow> ('a \<Rightarrow> 'e + 'b) \<Rightarrow> 'e + 'b" where
  "bind_res r f = (case r of Inl e \<Rightarrow> Inl e | Inr a \<Rightarrow> f a)"

lemma bind_res_simps [simp]: "bind_res (Inl e) f = Inl e" "bind_res (Inr a) f = f a"
  by (simp_all add: bind_res_def)

lemma bind_res_Inr_iff: "bind_res r f = Inr b \<longleftrightarrow> (\<exists>a. r = Inr a \<and> f a = Inr b)"
  by (cases r) auto

lemma case_sum_Inr_iff:
  "(case r of Inl e \<Rightarrow> Inl (f e) | Inr a \<Rightarrow> Inr (g a)) = Inr b \<longleftrightarrow> (\<exists>a. r = Inr a \<and> g a = b)"
  by (cases r) auto

section \<open>The Minecraft encoding\<close>

fun varint_nat :: "nat \<Rightarrow> bytes" where
  "varint_nat n = (if n < 128 then [of_nat n] else of_nat (n mod 128 + 128) # varint_nat (n div 128))"

declare varint_nat.simps [simp del]

fun unvarint_nat :: "bytes \<Rightarrow> (nat \<times> bytes) option" where
  "unvarint_nat [] = None"
| "unvarint_nat (b # bs) =
     (if unat b < 128 then Some (unat b, bs)
      else map_option (\<lambda>(n, r). (unat b - 128 + 128 * n, r)) (unvarint_nat bs))"

lemma unvarint_varint: "unvarint_nat (varint_nat n @ r) = Some (n, r)"
proof (induction n rule: varint_nat.induct)
  case (1 n)
  show ?case
  proof (cases "n < 128")
    case True
    then show ?thesis by (simp add: varint_nat.simps[of n] unat_of_nat)
  next
    case False
    have "unat (of_nat (n mod 128 + 128) :: u8) = n mod 128 + 128"
    proof -
      have "n mod 128 < 128" by simp
      then have "n mod 128 + 128 < 256" by linarith
      then show ?thesis by (subst unat_of_nat) simp
    qed
    with 1 False show ?thesis by (simp add: varint_nat.simps[of n])
  qed
qed

definition mc_write_varint :: "i32 \<Rightarrow> string + bytes" where
  "mc_write_varint v = Inr (varint_nat (unat v))"

definition mc_get_var_int :: "bytes \<Rightarrow> string + i32 \<times> bytes" where
  "mc_get_var_int bs =
     (case unvarint_nat bs of None \<Rightarrow> Inl ''incomplete'' | Some (n, r) \<Rightarrow> Inr (of_nat n, r))"

definition mc_write_string :: "string \<Rightarrow> string + bytes" where
  "mc_write_string s = Inr (varint_nat (length s) @ as_bytes s)"

definition mc_get_string :: "bytes \<Rightarrow> string + string \<times> bytes" where
  "mc_get_string bs =
     (case unvarint_nat bs of
        None \<Rightarrow> Inl ''incomplete''
      | Some (n, r) \<Rightarrow>
          if length r < n then Inl ''incomplete'' else Inr (bytes_to_string (take n r), drop n r))"

definition mc_write_bool :: "bool \<Rightarrow> string + bytes" where
  "mc_write_bool b = Inr [if b then 1 else 0]"

definition mc_get_bool :: "bytes \<Rightarrow> string + bool \<times> bytes" where
  "mc_get_bool bs = (case bs of [] \<Rightarrow> Inl ''incomplete'' | b # r \<Rightarrow> Inr (b \<noteq> 0, r))"

definition mc_codec :: codec where
  "mc_codec = \<lparr>write_varint = mc_write_varint, write_string = mc_write_string, write_bool = mc_write_bool,
     get_var_int = mc_get_var_int, get_string = mc_get_string, get_bool = mc_get_bool\<rparr>"

lemma codec_ok_mc: "codec_ok mc_codec"
proof -
  have "reads_back mc_write_varint mc_get_var_int"
    by (auto simp: reads_back_def mc_write_varint_def mc_get_var_int_def unvarint_varint)
  moreover have "reads_back mc_write_string mc_get_string"
    by (auto simp: reads_back_def mc_write_string_def mc_get_string_def unvarint_varint)
  moreover have "reads_back mc_write_bool mc_get_bool"
    by (auto simp: reads_back_def mc_write_bool_def mc_get_bool_def)
  ultimately show ?thesis by (simp add: codec_ok_def mc_codec_def)
qed

end
