(* ===== verification/Auth.thy ===== *)
theory Auth
  imports Session Net_Addr Sanitizer
begin

text \<open>
  \<^verbatim>\<open>src/src/auth.rs\<close>: the key store, the server hash, offline identities and the query to
  Mojang's session service. RSA, SHA-1, big integers, UUIDs, the HTTP client and the JSON parser
  are third-party code: the fields of a record \<^verbatim>\<open>auth_ext\<close> the definitions take as an
  argument. A UUID is its sixteen bytes.
\<close>

section \<open>Model\<close>

datatype auth_error =
    DecryptError string
  | VerifyTokenMismatch
  | MojangAuthFailed u16
  | NetworkError string
  | JsonError string
  | InvalidUuid string

definition show_auth_error :: "auth_error \<Rightarrow> string" where
  "show_auth_error err =
     (case err of
        DecryptError e \<Rightarrow> ''Failed to decrypt RSA payload: '' @ e
      | VerifyTokenMismatch \<Rightarrow> ''Verify token mismatch''
      | MojangAuthFailed c \<Rightarrow> ''Mojang authentication failed (status: '' @ show_nat (unat c) @ '')''
      | NetworkError e \<Rightarrow> ''Failed to contact Mojang session service: '' @ e
      | JsonError e \<Rightarrow> ''Failed to parse Mojang response JSON: '' @ e
      | InvalidUuid e \<Rightarrow> ''Invalid UUID from authentication server: '' @ e)"

record profile_property =
  prop_name :: string
  prop_value :: string
  prop_signature :: "string option"

record authenticated_player =
  player_id :: uuid
  player_name :: string
  properties :: "profile_property list"

record mojang_response =
  resp_id :: string
  resp_name :: string
  resp_properties :: "profile_property list"

record http_response =
  status :: u16
  body_text :: "string + string"

text \<open>The third-party functions.\<close>

record 'key auth_ext =
  rsa_generate :: "nat \<Rightarrow> string + 'key"
  rsa_public_der :: "'key \<Rightarrow> string + bytes"
  rsa_decrypt :: "'key \<Rightarrow> bytes \<Rightarrow> string + bytes"
  sha1 :: "bytes \<Rightarrow> bytes"
  signed_be_radix16 :: "bytes \<Rightarrow> string"
  uuid_v3 :: "uuid \<Rightarrow> bytes \<Rightarrow> uuid"
  uuid_parse :: "string \<Rightarrow> string + uuid"
  http_get :: "string \<Rightarrow> string + http_response"
  json_session :: "string \<Rightarrow> string + mojang_response"

record 'key key_store =
  private_key :: 'key
  public_key_der :: bytes

definition key_store_new :: "'key auth_ext \<Rightarrow> string + 'key key_store" where
  "key_store_new ext =
     (case rsa_generate ext 1024 of
        Inl e \<Rightarrow> Inl e
      | Inr k \<Rightarrow>
          (case rsa_public_der ext k of
             Inl e \<Rightarrow> Inl e
           | Inr der \<Rightarrow> Inr \<lparr>private_key = k, public_key_der = der\<rparr>))"

definition decrypt :: "'key auth_ext \<Rightarrow> 'key key_store \<Rightarrow> bytes \<Rightarrow> auth_error + bytes" where
  "decrypt ext ks dat =
     (case rsa_decrypt ext (private_key ks) dat of Inl e \<Rightarrow> Inl (DecryptError e) | Inr bs \<Rightarrow> Inr bs)"

definition auth_digest :: "'key auth_ext \<Rightarrow> 'key key_store \<Rightarrow> string \<Rightarrow> bytes \<Rightarrow> string" where
  "auth_digest ext ks server_id shared_secret =
     signed_be_radix16 ext (sha1 ext (as_bytes server_id @ shared_secret @ public_key_der ks))"

definition uuid_nil :: uuid where
  "uuid_nil = replicate 16 0"

definition offline :: "'key auth_ext \<Rightarrow> string \<Rightarrow> authenticated_player" where
  "offline ext u =
     \<lparr>player_id = uuid_v3 ext uuid_nil (as_bytes (''OfflinePlayer:'' @ u)), player_name = u, properties = []\<rparr>"

definition session_url :: "string \<Rightarrow> string \<Rightarrow> ip_addr \<Rightarrow> bool \<Rightarrow> string" where
  "session_url u server_hash addr prevent_proxy_connections =
     (if prevent_proxy_connections
      then ''https://sessionserver.mojang.com/session/minecraft/hasJoined?username='' @ u
        @ ''&serverId='' @ server_hash @ ''&ip='' @ show_ip addr
      else ''https://sessionserver.mojang.com/session/minecraft/hasJoined?username='' @ u
        @ ''&serverId='' @ server_hash)"

definition authenticate ::
  "'key auth_ext \<Rightarrow> string \<Rightarrow> string \<Rightarrow> ip_addr \<Rightarrow> bool \<Rightarrow> auth_error + authenticated_player" where
  "authenticate ext u server_hash addr prevent_proxy_connections =
     (case http_get ext (session_url u server_hash addr prevent_proxy_connections) of
        Inl e \<Rightarrow> Inl (NetworkError e)
      | Inr resp \<Rightarrow>
          if \<not> (200 \<le> status resp \<and> status resp < 300) then Inl (MojangAuthFailed (status resp))
          else (case body_text resp of
             Inl e \<Rightarrow> Inl (NetworkError e)
           | Inr body \<Rightarrow>
               (case json_session ext body of
                  Inl e \<Rightarrow> Inl (JsonError e)
                | Inr d \<Rightarrow>
                    (case uuid_parse ext (resp_id d) of
                       Inl e \<Rightarrow> Inl (InvalidUuid e)
                     | Inr i \<Rightarrow>
                         Inr \<lparr>player_id = i, player_name = resp_name d,
                              properties = map (\<lambda>p. \<lparr>prop_name = prop_name p, prop_value = prop_value p,
                                prop_signature = prop_signature p\<rparr>) (resp_properties d)\<rparr>))))"

section \<open>Characters of addresses\<close>

lemma set_show_hex: "set (show_hex n) \<subseteq> hex_digit ` {..<16}"
proof (induction n rule: show_hex.induct)
  case (1 n)
  then show ?case by (subst show_hex.simps) auto
qed

lemma hex_digit_range: "n < 16 \<Longrightarrow> 48 \<le> code (hex_digit n) \<and> code (hex_digit n) \<le> 102"
  by (auto simp: hex_digit_def)

lemma code_show_hex: "c \<in> set (show_hex n) \<Longrightarrow> 48 \<le> code c \<and> code c \<le> 102"
  using set_show_hex[of n] hex_digit_range by fastforce

lemma code_show_nat: "c \<in> set (show_nat n) \<Longrightarrow> 48 \<le> code c \<and> code c \<le> 57"
  using show_nat_digits[of n] by (auto simp: list_all_iff is_digit_char_def)

lemma code_show_ipv4: "ch \<in> set (show_ipv4 a b c d) \<Longrightarrow> 46 \<le> code ch \<and> code ch \<le> 102"
  by (auto simp: show_ipv4_def dest!: code_show_nat)

lemma code_show_segments: "ch \<in> set (show_segments ss) \<Longrightarrow> 46 \<le> code ch \<and> code ch \<le> 102"
  using set_join[of "'':''" "map (\<lambda>w. show_hex (unat w)) ss"]
  by (auto simp: show_segments_def dest!: code_show_hex subsetD)

lemma code_show_ip: "ch \<in> set (show_ip a) \<Longrightarrow> 46 \<le> code ch \<and> code ch \<le> 102"
  by (cases a)
    (auto simp: show_ip_def show_ipv6_def Let_def split_beta
      dest: code_show_ipv4 code_show_segments split: if_splits)

section \<open>Properties\<close>

definition url_query :: "string \<Rightarrow> string" where
  "url_query url = drop 1 (dropWhile (\<lambda>c. c \<noteq> CHR ''?'') url)"

lemma url_query_session:
  "url_query (session_url u h a prevent) =
     join ''&'' ([''username='' @ u, ''serverId='' @ h] @ (if prevent then [''ip='' @ show_ip a] else []))"
  by (simp add: url_query_def session_url_def)

lemma valid_username_no_amp: "is_valid_username u \<Longrightarrow> CHR ''&'' \<notin> set u"
  by (auto simp: is_valid_username_def list_all_iff is_ascii_alphanumeric_def Let_def split: if_splits)

text \<open>
  C33: a valid user name cannot inject parameters into the session query: the query has exactly
  the parameters \<^verbatim>\<open>username\<close>, \<^verbatim>\<open>serverId\<close> and, when proxies are to be prevented,
  \<^verbatim>\<open>ip\<close>, each with the intended value, for every client address and every server hash
  without an ampersand (the hash is a signed hexadecimal number).
\<close>
theorem session_url_no_injection:
  assumes "is_valid_username u" and "CHR ''&'' \<notin> set h"
  shows "split_on CHR ''&'' (url_query (session_url u h a prevent)) =
    [''username='' @ u, ''serverId='' @ h] @ (if prevent then [''ip='' @ show_ip a] else [])"
proof -
  have "CHR ''&'' \<notin> set (show_ip a)" using code_show_ip by fastforce
  with assms valid_username_no_amp show ?thesis
    unfolding url_query_session by (intro split_on_join) auto
qed

theorem session_url_no_injection_witness:
  "is_valid_username ''Steve_1''
   \<and> split_on CHR ''&'' (url_query (session_url ''Steve_1'' ''-7c9d'' (V4 10 0 0 1) True)) =
       [''username=Steve_1'', ''serverId=-7c9d'', ''ip=10.0.0.1'']"
proof -
  have v: "is_valid_username ''Steve_1''" by code_simp
  have ip: "show_ip (V4 10 0 0 1) = ''10.0.0.1''" by code_simp
  show ?thesis using session_url_no_injection[OF v, of "''-7c9d''" "V4 10 0 0 1" True] v ip by simp
qed

end
