(* ===== verification/Forwarding.thy ===== *)
theory Forwarding
  imports Codec Auth
begin

text \<open>
  \<^verbatim>\<open>src/src/backend/forwarding.rs\<close>: the player information the proxy hands to a backend, as a
  BungeeCord host string, an HMAC-signed Velocity payload, or an Ed25519-signed Vine payload.
  JSON, UUID text, HMAC, SHA-256, hex and Ed25519 are third-party code, the fields of
  \<^verbatim>\<open>fwd_ext\<close>; a signing key is its 32-byte seed, and the wall clock is an argument.
\<close>

section \<open>Model\<close>

definition VELOCITY_PLAYER_INFO_CHANNEL :: string where
  "VELOCITY_PLAYER_INFO_CHANNEL = ''velocity:player_info''"

definition VELOCITY_FORWARDING_VERSION :: i32 where
  "VELOCITY_FORWARDING_VERSION = 4"

definition VINE_PLAYER_INFO_CHANNEL :: string where
  "VINE_PLAYER_INFO_CHANNEL = ''vine:player_info''"

definition VINE_FORWARDING_VERSION :: i32 where
  "VINE_FORWARDING_VERSION = 1"

datatype forwarding_error =
    MissingVelocitySecret
  | MissingVineSecret
  | HmacError string
  | FwdIoError string
  | WritingError string

definition show_forwarding_error :: "forwarding_error \<Rightarrow> string" where
  "show_forwarding_error e =
     (case e of
        MissingVelocitySecret \<Rightarrow> ''Velocity secret is required for Velocity modern forwarding''
      | MissingVineSecret \<Rightarrow> ''Vine secret is required for Vine modern forwarding''
      | HmacError m \<Rightarrow> ''HMAC initialization failed: '' @ m
      | FwdIoError m \<Rightarrow> ''Serialization IO error: '' @ m
      | WritingError m \<Rightarrow> ''Writing error: '' @ m)"

record fwd_ext =
  json_properties :: "profile_property list \<Rightarrow> string option"
  uuid_simple :: "uuid \<Rightarrow> string"
  hmac_sha256 :: "bytes \<Rightarrow> bytes \<Rightarrow> string + bytes"
  sha256 :: "bytes \<Rightarrow> bytes"
  hex_decode :: "string \<Rightarrow> bytes option"
  hex_encode :: "bytes \<Rightarrow> string"
  ed25519_sign :: "bytes \<Rightarrow> bytes \<Rightarrow> bytes"
  ed25519_public :: "bytes \<Rightarrow> bytes"

definition build_bungeecord_host ::
  "fwd_ext \<Rightarrow> string \<Rightarrow> ip_addr \<Rightarrow> authenticated_player \<Rightarrow> string" where
  "build_bungeecord_host ext original_host addr player =
     (let uuid_str = uuid_simple ext (player_id player);
          json = (case json_properties ext (properties player) of Some j \<Rightarrow> j | None \<Rightarrow> ''[]'')
      in original_host @ [CHR 0x00] @ show_ip addr @ [CHR 0x00] @ uuid_str @ [CHR 0x00] @ json)"

definition writing :: "string + bytes \<Rightarrow> forwarding_error + bytes" where
  "writing r = (case r of Inl e \<Rightarrow> Inl (WritingError e) | Inr bs \<Rightarrow> Inr bs)"

definition write_property :: "codec \<Rightarrow> profile_property \<Rightarrow> bytes \<Rightarrow> forwarding_error + bytes" where
  "write_property c p payload =
     bind_res (writing (write_string c (prop_name p))) (\<lambda>n.
     bind_res (writing (write_string c (prop_value p))) (\<lambda>v.
     case prop_signature p of
       Some sig \<Rightarrow>
         bind_res (writing (write_bool c True)) (\<lambda>b.
         bind_res (writing (write_string c sig)) (\<lambda>s. Inr (payload @ n @ v @ b @ s)))
     | None \<Rightarrow> bind_res (writing (write_bool c False)) (\<lambda>b. Inr (payload @ n @ v @ b))))"

fun write_properties :: "codec \<Rightarrow> profile_property list \<Rightarrow> bytes \<Rightarrow> forwarding_error + bytes" where
  "write_properties c [] payload = Inr payload"
| "write_properties c (p # ps) payload =
     bind_res (write_property c p payload) (\<lambda>payload. write_properties c ps payload)"

text \<open>The part of the payload both modes share: address, identity and properties.\<close>

definition write_player ::
  "codec \<Rightarrow> ip_addr \<Rightarrow> authenticated_player \<Rightarrow> bytes \<Rightarrow> forwarding_error + bytes" where
  "write_player c addr player payload =
     bind_res (writing (write_string c (show_ip addr))) (\<lambda>i.
     bind_res (writing (write_string c (player_name player))) (\<lambda>u.
     bind_res (writing (write_varint c (of_nat (length (properties player))))) (\<lambda>n.
     write_properties c (properties player) (payload @ i @ player_id player @ u @ n))))"

definition build_velocity_payload ::
  "codec \<Rightarrow> fwd_ext \<Rightarrow> string \<Rightarrow> ip_addr \<Rightarrow> authenticated_player \<Rightarrow> forwarding_error + bytes" where
  "build_velocity_payload c ext secret_key addr player =
     (if secret_key = [] then Inl MissingVelocitySecret
      else
        bind_res (writing (write_varint c VELOCITY_FORWARDING_VERSION)) (\<lambda>v.
        bind_res (write_player c addr player v) (\<lambda>payload.
        case hmac_sha256 ext (as_bytes secret_key) payload of
          Inl e \<Rightarrow> Inl (HmacError e)
        | Inr signature \<Rightarrow> Inr (signature @ payload))))"

definition get_vine_signing_key :: "fwd_ext \<Rightarrow> string \<Rightarrow> forwarding_error + bytes" where
  "get_vine_signing_key ext secret_text =
     (let secret_key = trim secret_text
      in if secret_key = [] then Inl MissingVineSecret
         else if length secret_key = 64 \<and> hex_decode ext secret_key \<noteq> None
         then (case hex_decode ext secret_key of None \<Rightarrow> Inl MissingVineSecret | Some s \<Rightarrow> Inr s)
         else Inr (sha256 ext (as_bytes secret_key)))"

definition get_vine_public_key_hex :: "fwd_ext \<Rightarrow> string \<Rightarrow> forwarding_error + string" where
  "get_vine_public_key_hex ext secret_text =
     bind_res (get_vine_signing_key ext secret_text) (\<lambda>k. Inr (hex_encode ext (ed25519_public ext k)))"

definition build_vine_payload ::
  "codec \<Rightarrow> fwd_ext \<Rightarrow> u64 \<Rightarrow> string \<Rightarrow> ip_addr \<Rightarrow> authenticated_player \<Rightarrow> bytes
    \<Rightarrow> forwarding_error + bytes" where
  "build_vine_payload c ext now secret_text addr player challenge =
     bind_res (get_vine_signing_key ext secret_text) (\<lambda>signing_key.
     bind_res (writing (write_varint c VINE_FORWARDING_VERSION)) (\<lambda>v.
     bind_res (write_player c addr player (v @ u64_to_be now @ challenge)) (\<lambda>payload.
     Inr (ed25519_sign ext signing_key payload @ payload))))"

section \<open>What a backend reads\<close>

text \<open>The reader of a backend that follows the format, over the same codec.\<close>

fun read_properties :: "codec \<Rightarrow> nat \<Rightarrow> bytes \<Rightarrow> string + profile_property list \<times> bytes" where
  "read_properties c 0 bs = Inr ([], bs)"
| "read_properties c (Suc n) bs =
     bind_res (get_string c bs) (\<lambda>(nm, bs).
     bind_res (get_string c bs) (\<lambda>(v, bs).
     bind_res (get_bool c bs) (\<lambda>(signed, bs).
     bind_res (if signed then bind_res (get_string c bs) (\<lambda>(s, bs). Inr (Some s, bs)) else Inr (None, bs))
       (\<lambda>(sig, bs).
     bind_res (read_properties c n bs) (\<lambda>(ps, bs).
     Inr (\<lparr>prop_name = nm, prop_value = v, prop_signature = sig\<rparr> # ps, bs))))))"

definition read_player :: "codec \<Rightarrow> bytes \<Rightarrow> string + (string \<times> authenticated_player) \<times> bytes" where
  "read_player c bs =
     bind_res (get_string c bs) (\<lambda>(i, bs).
     let i16 = take 16 bs; bs = drop 16 bs in
     bind_res (get_string c bs) (\<lambda>(u, bs).
     bind_res (get_var_int c bs) (\<lambda>(n, bs).
     bind_res (read_properties c (unat n) bs) (\<lambda>(ps, bs).
     Inr ((i, \<lparr>player_id = i16, player_name = u, properties = ps\<rparr>), bs)))))"

definition read_velocity :: "codec \<Rightarrow> bytes \<Rightarrow> string + i32 \<times> string \<times> authenticated_player" where
  "read_velocity c bs =
     bind_res (get_var_int c bs) (\<lambda>(v, bs).
     bind_res (read_player c bs) (\<lambda>((i, p), bs).
     if bs = [] then Inr (v, i, p) else Inl ''trailing bytes''))"

definition read_vine :: "codec \<Rightarrow> bytes \<Rightarrow> string + i32 \<times> bytes \<times> bytes \<times> string \<times> authenticated_player" where
  "read_vine c bs =
     bind_res (get_var_int c bs) (\<lambda>(v, bs).
     let time = take 8 bs; nonce = take 16 (drop 8 bs) in
     bind_res (read_player c (drop 24 bs)) (\<lambda>((i, p), bs).
     if bs = [] then Inr (v, time, nonce, i, p) else Inl ''trailing bytes''))"

section \<open>Reading undoes writing\<close>

lemma writing_Inr_iff: "writing r = Inr bs \<longleftrightarrow> r = Inr bs"
  by (cases r) (auto simp: writing_def)

lemma write_property_reads:
  assumes "codec_ok c" and "write_property c p payload = Inr out"
  shows "\<exists>w. out = payload @ w \<and> (\<forall>n rest. read_properties c (Suc n) (w @ rest) =
    bind_res (read_properties c n rest) (\<lambda>(ps, r). Inr (p # ps, r)))"
proof -
  obtain n v where nv: "write_string c (prop_name p) = Inr n" "write_string c (prop_value p) = Inr v"
    using assms(2) by (auto simp: write_property_def bind_res_Inr_iff writing_Inr_iff)
  show ?thesis
  proof (cases "prop_signature p")
    case None
    then obtain b where b: "write_bool c False = Inr b" "out = payload @ n @ v @ b"
      using assms(2) nv by (auto simp: write_property_def bind_res_Inr_iff writing_Inr_iff)
    have "p = \<lparr>prop_name = prop_name p, prop_value = prop_value p, prop_signature = None\<rparr>"
      using None by simp
    with b codec_okD[OF assms(1)] nv show ?thesis
      by (intro exI[of _ "n @ v @ b"]) simp
  next
    case (Some sig)
    then obtain b s where b: "write_bool c True = Inr b" "write_string c sig = Inr s"
        "out = payload @ n @ v @ b @ s"
      using assms(2) nv by (auto simp: write_property_def bind_res_Inr_iff writing_Inr_iff)
    have "p = \<lparr>prop_name = prop_name p, prop_value = prop_value p, prop_signature = Some sig\<rparr>"
      using Some by simp
    with b codec_okD[OF assms(1)] nv show ?thesis
      by (intro exI[of _ "n @ v @ b @ s"]) simp
  qed
qed

lemma write_properties_reads:
  assumes "codec_ok c" and "write_properties c ps payload = Inr out"
  shows "\<exists>w. out = payload @ w \<and> (\<forall>rest. read_properties c (length ps) (w @ rest) = Inr (ps, rest))"
  using assms(2)
proof (induction ps arbitrary: payload)
  case (Cons p ps)
  then obtain mid where mid: "write_property c p payload = Inr mid" "write_properties c ps mid = Inr out"
    by (auto simp: bind_res_Inr_iff)
  obtain w where w: "mid = payload @ w" "\<forall>n rest. read_properties c (Suc n) (w @ rest) =
      bind_res (read_properties c n rest) (\<lambda>(ps, r). Inr (p # ps, r))"
    using write_property_reads[OF assms(1) mid(1)] by blast
  obtain v where v: "out = mid @ v" "\<forall>rest. read_properties c (length ps) (v @ rest) = Inr (ps, rest)"
    using Cons.IH[OF mid(2)] by blast
  have "read_properties c (length (p # ps)) ((w @ v) @ rest) = Inr (p # ps, rest)" for rest
    using w(2) v(2) by (simp del: read_properties.simps)
  with w(1) v(1) show ?case by (intro exI[of _ "w @ v"]) simp
qed simp

definition player_ok :: "authenticated_player \<Rightarrow> bool" where
  "player_ok p \<longleftrightarrow> length (player_id p) = 16 \<and> length (properties p) < 2 ^ 32"

lemma write_player_reads:
  assumes "codec_ok c" and "player_ok p" and "write_player c addr p payload = Inr out"
  shows "\<exists>w. out = payload @ w \<and> read_player c w = Inr ((show_ip addr, p), [])"
proof -
  obtain i u n where w: "write_string c (show_ip addr) = Inr i" "write_string c (player_name p) = Inr u"
      "write_varint c (of_nat (length (properties p))) = Inr n"
      "write_properties c (properties p) (payload @ i @ player_id p @ u @ n) = Inr out"
    using assms(3) by (auto simp: write_player_def bind_res_Inr_iff writing_Inr_iff)
  obtain v where v: "out = (payload @ i @ player_id p @ u @ n) @ v"
      "\<forall>rest. read_properties c (length (properties p)) (v @ rest) = Inr (properties p, rest)"
    using write_properties_reads[OF assms(1) w(4)] by blast
  have len: "unat (of_nat (length (properties p)) :: i32) = length (properties p)"
    using assms(2) by (simp add: player_ok_def unat_of_nat)
  have id: "length (player_id p) = 16"
    using assms(2) by (simp add: player_ok_def)
  have "read_player c (i @ player_id p @ u @ n @ v) = Inr ((show_ip addr, p), [])"
    using codec_okD[OF assms(1)] w(1-3) v(2)[rule_format, of "[]"]
    by (simp add: read_player_def Let_def id len)
  with v(1) show ?thesis by auto
qed

lemma code_nonzero: "0 < code c \<Longrightarrow> c \<noteq> CHR 0x00"
  by auto

lemma show_ip_no_nul: "CHR 0x00 \<notin> set (show_ip a)"
  using code_show_ip[of "CHR 0x00" a] by auto

section \<open>Properties\<close>

text \<open>
  C27: a client cannot forge forwarded fields through the virtual host: whatever well-formed host
  it sends, the BungeeCord string built from the sanitised host splits at NUL into exactly four
  parts, the sanitised host, the client's address, the player's UUID and the player's properties
  (the UUID text and the JSON text hold no NUL byte).
\<close>
theorem bungeecord_no_injection:
  assumes "utf8_valid h"
    and "CHR 0x00 \<notin> set (uuid_simple ext (player_id p))"
    and "\<forall>j. json_properties ext (properties p) = Some j \<longrightarrow> CHR 0x00 \<notin> set j"
  shows "split_on CHR 0x00 (build_bungeecord_host ext (sanitize_host h) addr p) =
    [sanitize_host h, show_ip addr, uuid_simple ext (player_id p),
     (case json_properties ext (properties p) of Some j \<Rightarrow> j | None \<Rightarrow> ''[]'')]"
proof -
  let ?j = "case json_properties ext (properties p) of Some j \<Rightarrow> j | None \<Rightarrow> ''[]''"
  have j: "CHR 0x00 \<notin> set ?j" using assms(3) by (auto split: option.splits)
  have "build_bungeecord_host ext (sanitize_host h) addr p =
      join [CHR 0x00] [sanitize_host h, show_ip addr, uuid_simple ext (player_id p), ?j]"
    by (simp add: build_bungeecord_host_def Let_def)
  then show ?thesis
    using sanitize_host_no_nul[OF assms(1)] show_ip_no_nul[of addr] assms(2) j
    by (simp only:) (rule split_on_join, simp_all)
qed

definition demo_player :: authenticated_player where
  "demo_player = \<lparr>player_id = [0, 1, 2, 3, 4, 5, 6, 7, 8, 9, 10, 11, 12, 13, 14, 15], player_name = ''Alex'',
     properties = [\<lparr>prop_name = ''textures'', prop_value = ''abc'', prop_signature = Some ''sig''\<rparr>,
       \<lparr>prop_name = ''x'', prop_value = ''y'', prop_signature = None\<rparr>]\<rparr>"

definition demo_ext :: fwd_ext where
  "demo_ext = \<lparr>json_properties = (\<lambda>_. Some ''[]''), uuid_simple = (\<lambda>i. concat (map (\<lambda>b. show_hex (unat b)) i)),
     hmac_sha256 = (\<lambda>k m. Inr (replicate 32 (sum_list (k @ m)))),
     sha256 = (\<lambda>m. replicate 32 (sum_list m)), hex_decode = (\<lambda>_. None),
     hex_encode = (\<lambda>bs. concat (map (\<lambda>b. show_hex (unat b)) bs)),
     ed25519_sign = (\<lambda>k m. replicate 64 (sum_list (k @ m))), ed25519_public = (\<lambda>k. k)\<rparr>"

lemma demo_player_ok: "player_ok demo_player"
  by (simp add: player_ok_def demo_player_def)

theorem bungeecord_no_injection_witness:
  "split_on CHR 0x00 (build_bungeecord_host demo_ext (sanitize_host (''play'' @ [CHR 0x00] @ ''x'')) (V4 10 0 0 1) demo_player)
    = [''playx'', ''10.0.0.1'', ''0123456789abcdef'', ''[]'']"
proof -
  have v: "utf8_valid (''play'' @ [CHR 0x00] @ ''x'')" by code_simp
  have s: "sanitize_host (''play'' @ [CHR 0x00] @ ''x'') = ''playx''" by code_simp
  have i: "show_ip (V4 10 0 0 1) = ''10.0.0.1''" by code_simp
  have u: "uuid_simple demo_ext (player_id demo_player) = ''0123456789abcdef''" by code_simp
  have j: "json_properties demo_ext (properties demo_player) = Some ''[]''" by (simp add: demo_ext_def)
  show ?thesis
    using bungeecord_no_injection[OF v, of demo_ext demo_player "V4 10 0 0 1"] unfolding s i u j by simp
qed

text \<open>
  C28: a Velocity payload is authentic and complete: its first 32 bytes are the HMAC, under the
  shared secret, of the rest, and the rest decodes, with nothing left over, to forwarding version
  4, the client's address and exactly the player's UUID, name and properties.
\<close>
theorem velocity_payload_correct:
  assumes "codec_ok c" and "player_ok p"
    and hmac_length: "\<And>k m t. hmac_sha256 ext k m = Inr t \<Longrightarrow> length t = 32"
    and "build_velocity_payload c ext key addr p = Inr d"
  shows "hmac_sha256 ext (as_bytes key) (drop 32 d) = Inr (take 32 d)
    \<and> read_velocity c (drop 32 d) = Inr (4, show_ip addr, p)"
proof -
  obtain v w sig where v: "write_varint c 4 = Inr v" "write_player c addr p v = Inr w"
      "hmac_sha256 ext (as_bytes key) w = Inr sig" "d = sig @ w"
    using assms(4)
    by (auto simp: build_velocity_payload_def VELOCITY_FORWARDING_VERSION_def bind_res_Inr_iff
        writing_Inr_iff case_sum_Inr_iff split: if_splits)
  then have d: "take 32 d = sig" "drop 32 d = w" using hmac_length by simp_all
  obtain u where "w = v @ u" "read_player c u = Inr ((show_ip addr, p), [])"
    using write_player_reads[OF assms(1,2) v(2)] by blast
  then have "read_velocity c w = Inr (4, show_ip addr, p)"
    using codec_okD(1)[OF assms(1) v(1)] by (simp add: read_velocity_def)
  with d v(3) show ?thesis by simp
qed

lemma mc_codec_writes:
  "\<exists>w. write_player mc_codec addr demo_player payload = Inr w" "\<exists>w. write_varint mc_codec v = Inr w"
  by (simp_all add: write_player_def mc_codec_def demo_player_def mc_write_string_def mc_write_varint_def
      mc_write_bool_def writing_def write_property_def)

theorem velocity_payload_correct_witness:
  "\<exists>d. build_velocity_payload mc_codec demo_ext ''key'' (V4 10 0 0 1) demo_player = Inr d
    \<and> read_velocity mc_codec (drop 32 d) = Inr (4, show_ip (V4 10 0 0 1), demo_player)"
proof -
  obtain v where v: "write_varint mc_codec VELOCITY_FORWARDING_VERSION = Inr v"
    using mc_codec_writes(2) by blast
  obtain w where w: "write_player mc_codec (V4 10 0 0 1) demo_player v = Inr w"
    using mc_codec_writes(1) by blast
  have "\<exists>d. build_velocity_payload mc_codec demo_ext ''key'' (V4 10 0 0 1) demo_player = Inr d"
    by (simp add: build_velocity_payload_def writing_def v w) (simp add: demo_ext_def)
  then obtain d where d: "build_velocity_payload mc_codec demo_ext ''key'' (V4 10 0 0 1) demo_player = Inr d" ..
  have h: "length t = 32" if "hmac_sha256 demo_ext k m = Inr t" for k m t
    using that by (auto simp: demo_ext_def)
  have "read_velocity mc_codec (drop 32 d) = Inr (4, show_ip (V4 10 0 0 1), demo_player)"
    by (rule conjunct2[OF velocity_payload_correct[OF codec_ok_mc demo_player_ok]]) (rule h, assumption, rule d)
  with d show ?thesis by blast
qed

text \<open>
  C29: a Vine payload is authentic, fresh and complete: its first 64 bytes are a signature of the
  rest that verifies under the public key of the secret, and the rest decodes, with nothing left
  over, to forwarding version 1, the current time, the challenge of the backend's own request, the
  client's address and exactly the player's UUID, name and properties.
\<close>
theorem vine_payload_correct:
  assumes "codec_ok c" and "player_ok p" and "length challenge = 16"
    and sign_length: "\<And>k m. length (ed25519_sign ext k m) = 64"
    and sign_verify: "\<And>k m. verify (ed25519_public ext k) m (ed25519_sign ext k m)"
    and "build_vine_payload c ext now key addr p challenge = Inr d"
  shows "(\<exists>k. get_vine_signing_key ext key = Inr k
      \<and> verify (ed25519_public ext k) (drop 64 d) (take 64 d))
    \<and> read_vine c (drop 64 d) = Inr (1, u64_to_be now, challenge, show_ip addr, p)"
proof -
  obtain k v w where k: "get_vine_signing_key ext key = Inr k" "write_varint c 1 = Inr v"
      "write_player c addr p (v @ u64_to_be now @ challenge) = Inr w" "d = ed25519_sign ext k w @ w"
    using assms(6)
    by (auto simp: build_vine_payload_def VINE_FORWARDING_VERSION_def bind_res_Inr_iff writing_Inr_iff)
  then have d: "take 64 d = ed25519_sign ext k w" "drop 64 d = w" using sign_length by simp_all
  obtain u where u: "w = (v @ u64_to_be now @ challenge) @ u" "read_player c u = Inr ((show_ip addr, p), [])"
    using write_player_reads[OF assms(1,2) k(3)] by blast
  have "length (u64_to_be now) = 8" by (simp add: u64_to_be_def)
  then have "read_vine c w = Inr (1, u64_to_be now, challenge, show_ip addr, p)"
    using codec_okD(1)[OF assms(1) k(2)] u assms(3) by (simp add: read_vine_def Let_def)
  with d k(1) sign_verify show ?thesis by auto
qed

theorem vine_payload_correct_witness:
  "\<exists>d. build_vine_payload mc_codec demo_ext 1700000000 ''key'' (V4 10 0 0 1) demo_player (replicate 16 7) = Inr d
    \<and> read_vine mc_codec (drop 64 d)
      = Inr (1, u64_to_be 1700000000, replicate 16 7, show_ip (V4 10 0 0 1), demo_player)"
proof -
  have "get_vine_signing_key demo_ext ''key'' = Inr (replicate 32 (sum_list (as_bytes ''key'')))"
    by code_simp
  moreover obtain v where v: "write_varint mc_codec VINE_FORWARDING_VERSION = Inr v"
    using mc_codec_writes(2) by blast
  moreover obtain w where "write_player mc_codec (V4 10 0 0 1) demo_player
      (v @ u64_to_be 1700000000 @ replicate 16 7) = Inr w"
    using mc_codec_writes(1) by blast
  ultimately have "\<exists>d. build_vine_payload mc_codec demo_ext 1700000000 ''key'' (V4 10 0 0 1) demo_player
      (replicate 16 7) = Inr d"
    by (simp add: build_vine_payload_def writing_def)
  then obtain d where d: "build_vine_payload mc_codec demo_ext 1700000000 ''key'' (V4 10 0 0 1) demo_player
      (replicate 16 7) = Inr d" ..
  have s: "length (ed25519_sign demo_ext k m) = 64" for k m by (simp add: demo_ext_def)
  have "read_vine mc_codec (drop 64 d)
      = Inr (1, u64_to_be 1700000000, replicate 16 7, show_ip (V4 10 0 0 1), demo_player)"
    by (rule conjunct2[OF vine_payload_correct[OF codec_ok_mc demo_player_ok,
          where verify = "\<lambda>pk m sig. sig = replicate 64 (sum_list (pk @ m))"]])
      (simp, rule s, simp add: demo_ext_def, rule d)
  with d show ?thesis by blast
qed

end
