(* ===== verification/Bedrock.thy ===== *)
theory Bedrock
  imports Vine_Config
begin

text \<open>
  \<^verbatim>\<open>src/src/bedrock/status.rs\<close> and the receive loop of \<^verbatim>\<open>src/src/bedrock/listener.rs\<close>: answers
  to RakNet status pings over UDP. The packet readers and the pong writer are
  \<^verbatim>\<open>pumpkin_protocol\<close>, fields of \<^verbatim>\<open>raknet\<close>; the random GUID is an argument.
\<close>

section \<open>Model\<close>

definition RAKNET_UNCONNECTED_PING_ID :: u8 where "RAKNET_UNCONNECTED_PING_ID = 0x01"
definition RAKNET_UNCONNECTED_PING_OPEN_ID :: u8 where "RAKNET_UNCONNECTED_PING_OPEN_ID = 0x02"
definition RAKNET_UNCONNECTED_PONG_ID :: u8 where "RAKNET_UNCONNECTED_PONG_ID = 0x1c"

record raknet =
  read_ping :: "bytes \<Rightarrow> (u64 \<times> bytes) option"
  read_ping_open :: "bytes \<Rightarrow> (u64 \<times> bytes) option"
  offline_magic :: bytes
  write_pong :: "u64 \<Rightarrow> u64 \<Rightarrow> string \<Rightarrow> bytes option"

record bedrock_status_handler =
  handler_config :: bedrock_config
  handler_guid :: u64
  ipv4_port :: u16
  ipv6_port :: u16

definition saturating_add_u16 :: "u16 \<Rightarrow> u16 \<Rightarrow> u16" where
  "saturating_add_u16 a b = (if unat a + unat b \<ge> 2 ^ 16 then - 1 else a + b)"

definition bedrock_status_handler_new :: "u64 \<Rightarrow> bedrock_config \<Rightarrow> u16 \<Rightarrow> bedrock_status_handler" where
  "bedrock_status_handler_new random_guid cfg port4 =
     \<lparr>handler_config = cfg,
      handler_guid = (if cfg_server_guid cfg \<noteq> 0 then cfg_server_guid cfg else random_guid),
      ipv4_port = port4, ipv6_port = saturating_add_u16 port4 1\<rparr>"

definition build_advertisement_string :: "nat \<Rightarrow> bedrock_status_handler \<Rightarrow> string" where
  "build_advertisement_string online_players h =
     (let cfg = handler_config h;
          online = (of_nat online_players :: i32);
          text = bedrock_motd cfg @ ''\<newline>'' @ sub_motd cfg
      in ''MCPE;'' @ text @ '';'' @ show_nat (unat (bedrock_protocol_version cfg)) @ '';''
         @ bedrock_version_name cfg @ '';'' @ show_int (sint online) @ '';''
         @ show_nat (unat (bedrock_max_players cfg)) @ '';'' @ show_nat (unat (handler_guid h)) @ '';''
         @ level_name cfg @ '';'' @ game_mode cfg @ '';'' @ show_nat (unat (game_mode_id cfg)) @ '';''
         @ show_nat (unat (ipv4_port h)) @ '';'' @ show_nat (unat (ipv6_port h)) @ '';0;'')"

definition handle_packet :: "raknet \<Rightarrow> nat \<Rightarrow> bedrock_status_handler \<Rightarrow> bytes \<Rightarrow> bytes option" where
  "handle_packet rk online_players h dat =
     (case dat of
        [] \<Rightarrow> None
      | packet_id # payload \<Rightarrow>
          (let ping =
             (if packet_id = RAKNET_UNCONNECTED_PING_ID then read_ping rk payload
              else if packet_id = RAKNET_UNCONNECTED_PING_OPEN_ID then read_ping_open rk payload
              else None)
           in case ping of
                None \<Rightarrow> None
              | Some (time, magic) \<Rightarrow>
                  if magic \<noteq> offline_magic rk then None
                  else
                    let ad = build_advertisement_string online_players h
                    in map_option (\<lambda>pong. RAKNET_UNCONNECTED_PONG_ID # pong)
                         (write_pong rk time (handler_guid h) ad)))"

text \<open>
  The listener: what it sends for the datagrams it receives before the shutdown signal, each with
  the number of players online at that moment.
\<close>

datatype 'peer udp_event = Datagram 'peer bytes nat | RecvError string | Shutdown

fun run_bedrock_listener ::
  "raknet \<Rightarrow> bedrock_status_handler \<Rightarrow> 'peer udp_event list \<Rightarrow> ('peer \<times> bytes) list" where
  "run_bedrock_listener rk h [] = []"
| "run_bedrock_listener rk h (Datagram peer packet online # evs) =
     (case handle_packet rk online h (take 2048 packet) of
        Some pong_bytes \<Rightarrow> (peer, pong_bytes) # run_bedrock_listener rk h evs
      | None \<Rightarrow> run_bedrock_listener rk h evs)"
| "run_bedrock_listener rk h (RecvError e # evs) = run_bedrock_listener rk h evs"
| "run_bedrock_listener rk h (Shutdown # evs) = []"

section \<open>Properties\<close>

definition no_semicolon :: "bedrock_config \<Rightarrow> bool" where
  "no_semicolon cfg \<longleftrightarrow> list_all (\<lambda>s. CHR '';'' \<notin> set s)
     [bedrock_motd cfg, sub_motd cfg, bedrock_version_name cfg, level_name cfg, game_mode cfg]"

lemma show_nat_no_semicolon: "CHR '';'' \<notin> set (show_nat n)"
  using show_nat_digits[of n] by (auto simp: list_all_iff is_digit_char_def)

lemma show_int_no_semicolon: "CHR '';'' \<notin> set (show_int n)"
  by (simp add: show_int_def show_nat_no_semicolon)

text \<open>
  With no semicolon in the configured texts, the advertisement has exactly the fourteen fields
  of the format, in order, among them the current number of players, the configured limit, the
  server's GUID and the two ports.
\<close>
theorem advertisement_fields:
  assumes "no_semicolon (handler_config h)"
  shows "split_on CHR '';'' (build_advertisement_string n h) =
    [''MCPE'', bedrock_motd (handler_config h) @ ''\<newline>'' @ sub_motd (handler_config h),
     show_nat (unat (bedrock_protocol_version (handler_config h))),
     bedrock_version_name (handler_config h), show_int (sint (of_nat n :: i32)),
     show_nat (unat (bedrock_max_players (handler_config h))), show_nat (unat (handler_guid h)),
     level_name (handler_config h), game_mode (handler_config h),
     show_nat (unat (game_mode_id (handler_config h))), show_nat (unat (ipv4_port h)),
     show_nat (unat (ipv6_port h)), ''0'', []]" (is "_ = ?fields")
proof -
  have "build_advertisement_string n h = join '';'' ?fields"
    by (simp add: build_advertisement_string_def Let_def)
  moreover have "list_all (\<lambda>w. CHR '';'' \<notin> set w) ?fields"
    using assms by (simp add: no_semicolon_def show_nat_no_semicolon show_int_no_semicolon)
  ultimately show ?thesis by (simp only:) (rule split_on_join, simp_all)
qed

definition demo_handler :: bedrock_status_handler where
  "demo_handler = bedrock_status_handler_new 42 bedrock_config_default 19132"

theorem advertisement_fields_witness:
  "no_semicolon (handler_config demo_handler)
   \<and> length (split_on CHR '';'' (build_advertisement_string 3 demo_handler)) = 14"
proof -
  have n: "no_semicolon (handler_config demo_handler)"
    by (simp add: no_semicolon_def demo_handler_def bedrock_status_handler_new_def
        bedrock_config_default_def sect_def raquo_def bullet_def)
  with advertisement_fields[OF n, of 3] show ?thesis by simp
qed

text \<open>
  The responder answers only genuine pings: a reply is sent only to a datagram whose first byte
  is one of the two ping ids, whose body reads as a ping and whose magic is the RakNet one; the
  reply is a pong that echoes the ping's time and carries the server's GUID and the advertisement.
\<close>
theorem handle_packet_only_pings:
  "handle_packet rk n h dat = Some reply \<longleftrightarrow>
     (\<exists>i payload time pong. dat = i # payload
       \<and> (i = RAKNET_UNCONNECTED_PING_ID \<and> read_ping rk payload = Some (time, offline_magic rk)
          \<or> i = RAKNET_UNCONNECTED_PING_OPEN_ID \<and> read_ping_open rk payload = Some (time, offline_magic rk))
       \<and> write_pong rk time (handler_guid h) (build_advertisement_string n h) = Some pong
       \<and> reply = RAKNET_UNCONNECTED_PONG_ID # pong)"
proof (cases dat)
  case (Cons i payload)
  consider (ping) "i = RAKNET_UNCONNECTED_PING_ID" | (ping_open) "i = RAKNET_UNCONNECTED_PING_OPEN_ID"
    | (other) "i \<noteq> RAKNET_UNCONNECTED_PING_ID" "i \<noteq> RAKNET_UNCONNECTED_PING_OPEN_ID" by blast
  then show ?thesis
    by cases (auto simp: handle_packet_def Cons RAKNET_UNCONNECTED_PING_ID_def
        RAKNET_UNCONNECTED_PING_OPEN_ID_def Let_def split: option.splits if_splits)
qed (simp add: handle_packet_def)

end
