(* ===== verification/Status.thy ===== *)
theory Status
  imports Router Auth
begin

text \<open>
  \<^verbatim>\<open>src/src/status/icon.rs\<close> and \<^verbatim>\<open>src/src/status.rs\<close>: the server list entry. Icons are read from
  disk, checked to be PNG files and cached with their modification time; the description comes
  from the backend a virtual host names, line by line, or from the global configuration. Base64
  and JSON are third-party functions, arguments here; the disk is a record of what reading a file
  and its metadata give.
\<close>

section \<open>Icons\<close>

definition PNG_SIGNATURE :: bytes where
  "PNG_SIGNATURE = [0x89, 0x50, 0x4E, 0x47, 0x0D, 0x0A, 0x1A, 0x0A]"

record status_icon =
  icon_file :: string
  data_uri :: string
  icon_width :: u32
  icon_height :: u32
  last_modified :: "nat option"

text \<open>\<^verbatim>\<open>file_mtime\<close>: no metadata, metadata without a modification time, or the time.\<close>

record disk =
  read_file :: "string \<Rightarrow> string + bytes"
  file_mtime :: "string \<Rightarrow> nat option option"

definition quoted :: "string \<Rightarrow> string" where
  "quoted s = [CHR 0x27] @ s @ [CHR 0x27]"

definition from_bytes :: "(bytes \<Rightarrow> string) \<Rightarrow> disk \<Rightarrow> bytes \<Rightarrow> string \<Rightarrow> string + status_icon" where
  "from_bytes base64 d bs path =
     (if length bs < 24
      then Inl (''Icon file '' @ quoted path @ '' is too small ('' @ show_nat (length bs) @ '' bytes)'')
      else if take 8 bs \<noteq> PNG_SIGNATURE
      then Inl (''Icon file '' @ quoted path @ '' does not have a valid PNG signature (expected PNG format)'')
      else if take 4 (drop 12 bs) \<noteq> as_bytes ''IHDR''
      then Inl (''Icon file '' @ quoted path @ '' is missing valid IHDR chunk'')
      else
        let width = u32_from_be (bs ! 16) (bs ! 17) (bs ! 18) (bs ! 19);
            height = u32_from_be (bs ! 20) (bs ! 21) (bs ! 22) (bs ! 23)
        in Inr \<lparr>icon_file = path, data_uri = ''data:image/png;base64,'' @ base64 bs,
                icon_width = width, icon_height = height,
                last_modified = (case file_mtime d path of Some m \<Rightarrow> m | None \<Rightarrow> None)\<rparr>)"

definition load_from_file :: "(bytes \<Rightarrow> string) \<Rightarrow> disk \<Rightarrow> string \<Rightarrow> string + status_icon" where
  "load_from_file base64 d path =
     (case read_file d path of
        Inl e \<Rightarrow> Inl (''Failed to read icon file '' @ quoted path @ '': '' @ e)
      | Inr bs \<Rightarrow> from_bytes base64 d bs path)"

record status_icon_manager =
  default_icon_path :: "string option"
  server_icons :: "(string, string) hmap"
  icon_forced_hosts :: "(string, string) hmap"
  icon_default_server :: string
  cache :: "(string, status_icon) hmap"
  cache_poisoned :: bool

definition cached_icon :: "disk \<Rightarrow> string \<Rightarrow> status_icon_manager \<Rightarrow> string option" where
  "cached_icon d path m =
     (if cache_poisoned m then None
      else case map_of (cache m) path of
             None \<Rightarrow> None
           | Some cached \<Rightarrow>
               (case file_mtime d path of
                  Some mtime \<Rightarrow>
                    if mtime \<noteq> None \<and> last_modified cached = mtime then Some (data_uri cached) else None
                | None \<Rightarrow> Some (data_uri cached)))"

definition load_or_reload ::
  "(bytes \<Rightarrow> string) \<Rightarrow> disk \<Rightarrow> string \<Rightarrow> status_icon_manager \<Rightarrow> string option \<times> status_icon_manager" where
  "load_or_reload base64 d path m =
     (case cached_icon d path m of
        Some uri \<Rightarrow> (Some uri, m)
      | None \<Rightarrow>
          (case load_from_file base64 d path of
             Inr icon \<Rightarrow>
               (Some (data_uri icon),
                if cache_poisoned m then m else m\<lparr>cache := AList.update path icon (cache m)\<rparr>)
           | Inl e \<Rightarrow> (None, m)))"

definition preload_all :: "(bytes \<Rightarrow> string) \<Rightarrow> disk \<Rightarrow> status_icon_manager \<Rightarrow> status_icon_manager" where
  "preload_all base64 d m =
     (let m = (case default_icon_path m of Some path \<Rightarrow> snd (load_or_reload base64 d path m) | None \<Rightarrow> m)
      in fold (\<lambda>path m. snd (load_or_reload base64 d path m)) (map snd (server_icons m)) m)"

definition status_icon_manager_new ::
  "(bytes \<Rightarrow> string) \<Rightarrow> disk \<Rightarrow> string option \<Rightarrow> (string, string) hmap \<Rightarrow> (string, string) hmap
    \<Rightarrow> string \<Rightarrow> status_icon_manager" where
  "status_icon_manager_new base64 d configured_default_path icons hosts def_server =
     (let default_path =
        (case configured_default_path of
           Some p \<Rightarrow> if trim p \<noteq> [] then Some p else None
         | None \<Rightarrow> None)
      in preload_all base64 d
           \<lparr>default_icon_path = default_path, server_icons = icons, icon_forced_hosts = hosts,
            icon_default_server = def_server, cache = [], cache_poisoned = False\<rparr>)"

text \<open>\<^verbatim>\<open>h.split(':').next().unwrap_or(h).trim()\<close>\<close>

definition clean_host :: "string \<Rightarrow> string" where
  "clean_host h = trim (hd (split_on CHR '':'' h))"

definition resolve_icon_path :: "status_icon_manager \<Rightarrow> string option \<Rightarrow> string option" where
  "resolve_icon_path m host =
     (let for_host =
        (case host of
           None \<Rightarrow> None
         | Some h \<Rightarrow>
             let ch = clean_host h;
                 forced = (case map_of (icon_forced_hosts m) ch of
                             Some target_server \<Rightarrow> map_of (server_icons m) target_server
                           | None \<Rightarrow> None)
             in case forced of Some path \<Rightarrow> Some path | None \<Rightarrow> map_of (server_icons m) ch)
      in case for_host of
           Some path \<Rightarrow> Some path
         | None \<Rightarrow>
             (case map_of (server_icons m) (icon_default_server m) of
                Some path \<Rightarrow> Some path | None \<Rightarrow> default_icon_path m))"

definition get_icon_for_host ::
  "(bytes \<Rightarrow> string) \<Rightarrow> disk \<Rightarrow> string option \<Rightarrow> status_icon_manager
    \<Rightarrow> string option \<times> status_icon_manager" where
  "get_icon_for_host base64 d host m =
     (case resolve_icon_path m host of
        None \<Rightarrow> (None, m)
      | Some target_path \<Rightarrow> load_or_reload base64 d target_path m)"

section \<open>Status responses\<close>

text \<open>\<^verbatim>\<open>JavaMinecraftVersion\<close>: whether it is \<^verbatim>\<open>Unknown\<close>, and its protocol number.\<close>

record java_version =
  is_unknown :: bool
  protocol_number :: i32

record status_json =
  json_version :: string
  json_protocol :: i32
  json_max :: u32
  json_online :: nat
  json_sample :: "(string \<times> string) list"
  json_text :: string
  json_enforce_secure_chat :: bool
  json_favicon :: "string option"

record status_handler =
  handler_motd :: motd_config
  handler_servers :: "(string, backend_config) hmap"
  handler_forced_hosts :: "(string, string) hmap"

definition status_handler_new ::
  "motd_config \<Rightarrow> (string, backend_config) hmap \<Rightarrow> (string, string) hmap \<Rightarrow> status_handler" where
  "status_handler_new mc srvs hosts =
     \<lparr>handler_motd = mc, handler_servers = srvs, handler_forced_hosts = hosts\<rparr>"

definition resolve_motd_text :: "status_handler \<Rightarrow> string option \<Rightarrow> string" where
  "resolve_motd_text sh host =
     (let mc = handler_motd sh;
          custom =
            (case host of
               None \<Rightarrow> None
             | Some h \<Rightarrow>
                 let ch = clean_host h;
                     target_server =
                       (case map_of (handler_forced_hosts sh) ch of
                          Some s \<Rightarrow> Some s
                        | None \<Rightarrow> if map_of (handler_servers sh) ch \<noteq> None then Some ch else None)
                 in case target_server of
                      None \<Rightarrow> None
                    | Some server_name \<Rightarrow>
                        (case map_of (handler_servers sh) server_name of
                           None \<Rightarrow> None
                         | Some cfg \<Rightarrow>
                             if motd_line1 cfg \<noteq> None \<or> motd_line2 cfg \<noteq> None
                             then Some ((case motd_line1 cfg of Some l \<Rightarrow> l | None \<Rightarrow> line1 mc) @ ''\<newline>''
                               @ (case motd_line2 cfg of Some l \<Rightarrow> l | None \<Rightarrow> line2 mc))
                             else None))
      in case custom of Some t \<Rightarrow> t | None \<Rightarrow> line1 mc @ ''\<newline>'' @ line2 mc)"

definition nil_uuid_text :: string where
  "nil_uuid_text = ''00000000-0000-0000-0000-000000000000''"

definition sample_list :: "motd_config \<Rightarrow> (string \<times> string) list" where
  "sample_list mc =
     (if show_sample_players mc then map (\<lambda>name. (name, nil_uuid_text)) (sample_players mc) else [])"

definition status_protocol :: "motd_config \<Rightarrow> java_version \<Rightarrow> i32" where
  "status_protocol mc v = (if is_unknown v then motd_protocol_version mc else protocol_number v)"

definition build_status_response ::
  "(status_json \<Rightarrow> string option) \<Rightarrow> (bytes \<Rightarrow> string) \<Rightarrow> disk \<Rightarrow> nat \<Rightarrow> status_handler \<Rightarrow> java_version
    \<Rightarrow> string option \<Rightarrow> status_icon_manager \<Rightarrow> string \<times> status_icon_manager" where
  "build_status_response to_json base64 d online sh client_version virtual_host icons =
     (let mc = handler_motd sh;
          motd_text = resolve_motd_text sh virtual_host;
          (icon_uri, icons) = get_icon_for_host base64 d virtual_host icons;
          st =
            \<lparr>json_version = motd_version_name mc, json_protocol = status_protocol mc client_version,
             json_max = motd_max_players mc, json_online = online, json_sample = sample_list mc,
             json_text = motd_text, json_enforce_secure_chat = False, json_favicon = icon_uri\<rparr>
      in (case to_json st of Some j \<Rightarrow> j | None \<Rightarrow> ''{}'', icons))"

definition create_status_packet ::
  "(status_json \<Rightarrow> string option) \<Rightarrow> (bytes \<Rightarrow> string) \<Rightarrow> disk \<Rightarrow> nat \<Rightarrow> status_handler \<Rightarrow> java_version
    \<Rightarrow> string option \<Rightarrow> status_icon_manager \<Rightarrow> string \<times> status_icon_manager" where
  "create_status_packet to_json base64 d online sh client_version virtual_host icons =
     build_status_response to_json base64 d online sh client_version virtual_host icons"

definition create_custom_status_packet ::
  "(status_json \<Rightarrow> string option) \<Rightarrow> (bytes \<Rightarrow> string) \<Rightarrow> disk \<Rightarrow> status_handler \<Rightarrow> java_version
    \<Rightarrow> string \<Rightarrow> u32 \<Rightarrow> u32 \<Rightarrow> string \<Rightarrow> string option \<Rightarrow> status_icon_manager
    \<Rightarrow> string \<times> status_icon_manager" where
  "create_custom_status_packet to_json base64 d sh client_version text max_pl online_pl version_name
       virtual_host icons =
     (let mc = handler_motd sh;
          (icon_uri, icons) = get_icon_for_host base64 d virtual_host icons;
          st =
            \<lparr>json_version = version_name, json_protocol = status_protocol mc client_version,
             json_max = max_pl, json_online = unat online_pl, json_sample = sample_list mc,
             json_text = text, json_enforce_secure_chat = False, json_favicon = icon_uri\<rparr>
      in (case to_json st of Some j \<Rightarrow> j | None \<Rightarrow> ''{}'', icons))"

section \<open>Properties\<close>

text \<open>
  A cached icon is current: if its file still has the recorded modification time, loading the
  file again gives the same data URI.
\<close>

definition coherent :: "(bytes \<Rightarrow> string) \<Rightarrow> disk \<Rightarrow> status_icon_manager \<Rightarrow> bool" where
  "coherent base64 d m \<longleftrightarrow>
     (\<forall>path icon. map_of (cache m) path = Some icon \<longrightarrow> last_modified icon \<noteq> None
        \<longrightarrow> file_mtime d path = Some (last_modified icon)
        \<longrightarrow> (\<exists>icon'. load_from_file base64 d path = Inr icon' \<and> data_uri icon' = data_uri icon))"

definition fresh_uri :: "(bytes \<Rightarrow> string) \<Rightarrow> disk \<Rightarrow> string \<Rightarrow> string option" where
  "fresh_uri base64 d path =
     (case load_from_file base64 d path of Inr icon \<Rightarrow> Some (data_uri icon) | Inl _ \<Rightarrow> None)"

lemma cached_icon_fresh:
  assumes "coherent base64 d m" and "file_mtime d path \<noteq> None" and "cached_icon d path m = Some uri"
  shows "fresh_uri base64 d path = Some uri"
proof -
  obtain mt where mt: "file_mtime d path = Some mt" using assms(2) by auto
  with assms(3) obtain icon where icon: "map_of (cache m) path = Some icon" "mt \<noteq> None"
      "last_modified icon = mt" "uri = data_uri icon"
    by (auto simp: cached_icon_def split: if_splits option.splits)
  with assms(1) mt obtain icon' where "load_from_file base64 d path = Inr icon'" "data_uri icon' = data_uri icon"
    unfolding coherent_def by metis
  with icon(4) show ?thesis by (simp add: fresh_uri_def)
qed

lemma load_or_reload_coherent:
  assumes "coherent base64 d m"
  shows "coherent base64 d (snd (load_or_reload base64 d path m))"
proof (cases "cached_icon d path m = None \<and> \<not> cache_poisoned m")
  case True
  show ?thesis
  proof (cases "load_from_file base64 d path")
    case (Inr icon)
    with True have "snd (load_or_reload base64 d path m) = m\<lparr>cache := AList.update path icon (cache m)\<rparr>"
      by (simp add: load_or_reload_def)
    with assms Inr show ?thesis by (auto simp: coherent_def update_conv')
  qed (use True assms in \<open>simp add: load_or_reload_def\<close>)
next
  case False
  then show ?thesis using assms
    by (auto simp: load_or_reload_def split: option.splits sum.splits)
qed


definition demo_png :: bytes where
  "demo_png = PNG_SIGNATURE @ [0, 0, 0, 13] @ as_bytes ''IHDR'' @ [0, 0, 0, 64, 0, 0, 0, 64]"

definition demo_disk :: disk where
  "demo_disk = \<lparr>read_file = (\<lambda>p. if p = ''icon.png'' then Inr demo_png else Inl ''not found''),
     file_mtime = (\<lambda>p. if p = ''icon.png'' then Some (Some 7) else None)\<rparr>"


lemma clean_host_port: "CHR '':'' \<notin> set h \<Longrightarrow> clean_host (h @ '':'' @ p) = clean_host h"
proof -
  assume "CHR '':'' \<notin> set h"
  then have "list_all (\<lambda>c. c \<noteq> CHR '':'') h" by (auto simp: list_all_iff)
  then show ?thesis by (simp add: clean_host_def split_by_append_sep split_by_no_sep)
qed

text \<open>
  The server list entry of a virtual host, its description and its icon, does not depend on a
  port the client appends to the host.
\<close>
theorem status_ignores_port:
  assumes "CHR '':'' \<notin> set h"
  shows "resolve_motd_text sh (Some (h @ '':'' @ p)) = resolve_motd_text sh (Some h)
    \<and> resolve_icon_path m (Some (h @ '':'' @ p)) = resolve_icon_path m (Some h)"
  using clean_host_port[OF assms, of p] by (simp add: resolve_motd_text_def resolve_icon_path_def)

definition demo_status :: status_handler where
  "demo_status = status_handler_new (motd config_default) (servers config_default)
     (forced_hosts (routing config_default))"

theorem status_ignores_port_witness:
  "resolve_motd_text demo_status (Some ''survival.example.com:25565'')
     = resolve_motd_text demo_status (Some ''survival.example.com'')
   \<and> resolve_motd_text demo_status (Some ''survival.example.com'') \<noteq> resolve_motd_text demo_status None"
proof -
  have "CHR '':'' \<notin> set ''survival.example.com''" by code_simp
  from status_ignores_port[OF this, of demo_status "''25565''"]
  have "resolve_motd_text demo_status (Some ''survival.example.com:25565'')
     = resolve_motd_text demo_status (Some ''survival.example.com'')" by simp
  moreover have "resolve_motd_text demo_status (Some ''survival.example.com'') \<noteq> resolve_motd_text demo_status None"
    by code_simp
  ultimately show ?thesis by simp
qed

end
