(* ===== verification/Command.thy ===== *)
theory Command
  imports Session Vine_Config Net_Addr
begin

text \<open>
  \<^verbatim>\<open>src/src/command/\<close>: who may run which proxy command and what each command does. An executor
  takes its source and returns its result together with the effects it has, in order: a line on
  the console or an action put into a player's channel. The command tree (parsing, requirements,
  suggestions) is \<^verbatim>\<open>pumpkin_command\<close>: the registered commands are data, and the functions of
  the raw dispatcher are the fields of \<^verbatim>\<open>raw_ops\<close>.
\<close>

section \<open>Sources and effects\<close>

datatype command_sender =
    Console
  | Player (sender_name: string) (sender_tx: channel)

record proxy_command_source =
  sender :: command_sender
  source_config :: config
  source_sessions :: session_manager

datatype effect = ConsoleLine text_component | Send channel player_action

type_synonym command_result = "(text_component + i32) \<times> effect list"

definition send_message :: "command_sender \<Rightarrow> text_component \<Rightarrow> effect list" where
  "send_message s message =
     (case s of Console \<Rightarrow> [ConsoleLine message] | Player _ tx \<Rightarrow> [Send tx (Message message)])"

definition send_text :: "command_sender \<Rightarrow> string \<Rightarrow> effect list" where
  "send_text s text = send_message s (Text text)"

definition sender_text :: "command_sender \<Rightarrow> string" where
  "sender_text s = (case s of Console \<Rightarrow> ''CONSOLE'' | Player u _ \<Rightarrow> u)"

definition source_has_permission :: "proxy_command_source \<Rightarrow> string \<Rightarrow> bool" where
  "source_has_permission src node =
     (case sender src of
        Console \<Rightarrow> True
      | Player u _ \<Rightarrow> has_permission (permissions_cfg (source_config src)) u node)"

definition is_admin :: "proxy_command_source \<Rightarrow> bool" where
  "is_admin src = source_has_permission src ''vine.admin''"

definition command_error :: "string \<Rightarrow> text_component" where
  "command_error msg = Text msg"

definition denied :: "string \<Rightarrow> command_result" where
  "denied node =
     (Inl (command_error (''You do not have permission to execute this command (required: '' @ node @ '').'')), [])"

section \<open>Built-in commands\<close>

definition nl :: string where "nl = ''\<newline>''"

definition help_text :: string where
  "help_text = ''Available commands:'' @ nl
     @ ''  - /server [server]            : View current server or switch to another backend'' @ nl
     @ ''  - /send <player|all> <server> : Send players to another backend (Admin)'' @ nl
     @ ''  - /list                       : List connected players'' @ nl
     @ ''  - /glist                      : List players grouped by server'' @ nl
     @ ''  - /help [command]             : Show this help or info about a command''"

definition help_execute :: "proxy_command_source \<Rightarrow> command_result" where
  "help_execute src = (Inr 1, send_message (sender src) (Text help_text))"

definition help_entries :: "(string \<times> string option) list" where
  "help_entries =
     [(''server'', Some ''vine.command.server''), (''send'', Some ''vine.command.send''),
      (''list'', Some ''vine.command.list''), (''glist'', Some ''vine.command.glist''),
      (''help'', Some ''vine.command.help'')]"

definition help_suggest :: "proxy_command_source \<Rightarrow> string \<Rightarrow> string list" where
  "help_suggest src remaining =
     map fst (filter (\<lambda>(cmd_name, required_perm).
        starts_with remaining cmd_name
        \<and> (is_admin src
           \<or> (case required_perm of Some p \<Rightarrow> source_has_permission src p | None \<Rightarrow> True))) help_entries)"

definition command_help_text :: "string \<Rightarrow> string" where
  "command_help_text cmd =
     (let c = to_ascii_lowercase cmd
      in if c = ''server'' then ''Command /server:'' @ nl @ ''  Usage: /server [server]'' @ nl
           @ ''  Description: View your current server or switch to another backend server.''
         else if c = ''send'' then ''Command /send:'' @ nl @ ''  Usage: /send <player|all> <server>'' @ nl
           @ ''  Description: Send players to another backend server (Requires vine.command.send / admin).''
         else if c = ''list'' then ''Command /list:'' @ nl @ ''  Usage: /list'' @ nl
           @ ''  Description: List all online players connected to the proxy.''
         else if c = ''glist'' then ''Command /glist:'' @ nl @ ''  Usage: /glist'' @ nl
           @ ''  Description: List online players grouped by backend server.''
         else if c = ''help'' then ''Command /help:'' @ nl @ ''  Usage: /help [command]'' @ nl
           @ ''  Description: Show help information for available proxy commands.''
         else ''Unknown command. Use /help to see all available proxy commands.'')"

definition command_help_execute :: "proxy_command_source \<Rightarrow> string \<Rightarrow> command_result" where
  "command_help_execute src cmd = (Inr 1, send_message (sender src) (Text (command_help_text cmd)))"

definition list_execute :: "proxy_command_source \<Rightarrow> command_result" where
  "list_execute src =
     (let ss = list_sessions (source_sessions src)
      in if ss = [] then (Inr 0, send_message (sender src) (Text ''There are 0 players online.''))
         else
           let players_info = map (\<lambda>s. username s @ '' ('' @ current_server s @ '')'') ss
           in (Inr (of_nat (length players_info)),
               send_message (sender src)
                 (Text (''Online players ('' @ show_nat (length players_info) @ ''): ''
                   @ join '', '' players_info))))"

subsection \<open>/server\<close>

definition server_names :: "proxy_command_source \<Rightarrow> string list" where
  "server_names src = map fst (servers (source_config src))"

definition server_suggest :: "proxy_command_source \<Rightarrow> string \<Rightarrow> string list" where
  "server_suggest src remaining =
     filter (\<lambda>s. starts_with remaining (to_ascii_lowercase s)) (server_names src)"

definition vine_tag :: string where
  "vine_tag = sect @ ''6[Vine] '' @ sect"

definition server_info_execute :: "proxy_command_source \<Rightarrow> command_result" where
  "server_info_execute src =
     (if \<not> source_has_permission src ''vine.command.server'' then denied ''vine.command.server''
      else
        let servers_str = join '', '' (sort (server_names src))
        in case sender src of
             Player u _ \<Rightarrow>
               let current = (case get_session u (source_sessions src) of
                                Some s \<Rightarrow> current_server s | None \<Rightarrow> ''unknown'')
               in (Inr 1, send_message (sender src)
                     (Text (vine_tag @ ''fYou are currently connected to server '' @ [CHR 0x27] @ sect @ ''a''
                        @ current @ sect @ ''f'' @ [CHR 0x27] @ ''.'' @ nl @ vine_tag
                        @ ''7Available servers: '' @ sect @ ''e'' @ servers_str)))
           | Console \<Rightarrow>
               (Inr 1, send_message (sender src) (Text (''Available backend servers: '' @ servers_str))))"

definition find_server :: "proxy_command_source \<Rightarrow> string \<Rightarrow> string option" where
  "find_server src server_name = find (\<lambda>k. eq_ignore_ascii_case k server_name) (server_names src)"

definition server_switch_execute :: "proxy_command_source \<Rightarrow> string \<Rightarrow> command_result" where
  "server_switch_execute src server_name =
     (if \<not> source_has_permission src ''vine.command.server'' then denied ''vine.command.server''
      else case sender src of
        Console \<Rightarrow>
          (Inl (command_error (''Console cannot switch servers. Use '' @ [CHR 0x27]
             @ ''/send <player> <server>'' @ [CHR 0x27] @ '' instead.'')), [])
      | Player u tx \<Rightarrow>
          (case find_server src server_name of
             None \<Rightarrow>
               (Inl (command_error (''Unknown server '' @ [CHR 0x27] @ server_name @ [CHR 0x27]
                  @ ''. Available servers: ['' @ join '', '' (sort (server_names src)) @ '']'')), [])
           | Some target_server \<Rightarrow>
               if (case get_session u (source_sessions src) of
                     Some s \<Rightarrow> eq_ignore_ascii_case (current_server s) target_server | None \<Rightarrow> False)
               then (Inl (command_error (''You are already connected to '' @ [CHR 0x27] @ target_server
                  @ [CHR 0x27] @ ''!'')), [])
               else (Inr 1,
                 send_message (sender src)
                   (Text (vine_tag @ ''eConnecting you to '' @ [CHR 0x27] @ sect @ ''a'' @ target_server
                      @ sect @ ''e'' @ [CHR 0x27] @ ''...''))
                 @ [Send tx (Connect target_server)])))"

subsection \<open>/send\<close>

definition parse_socket_addr :: "string \<Rightarrow> socket_addr option" where
  "parse_socket_addr s =
     (let v4 = do {
            ((a, b, c, d), r) \<leftarrow> read_ipv4 s;
            r \<leftarrow> read_char CHR '':'' r;
            (p, r) \<leftarrow> read_number 10 16 None True r;
            Some (\<lparr>ip = V4 a b c d, port = of_nat p\<rparr>, r) };
          v6 = do {
            r \<leftarrow> read_char CHR ''['' s;
            (bs, r) \<leftarrow> read_ipv6 r;
            let r = (case do { r' \<leftarrow> read_char CHR ''%'' r; read_number 10 32 None True r' } of
                       Some (_, r') \<Rightarrow> r' | None \<Rightarrow> r);
            r \<leftarrow> read_char CHR '']'' r;
            r \<leftarrow> read_char CHR '':'' r;
            (p, r) \<leftarrow> read_number 10 16 None True r;
            Some (\<lparr>ip = V6 bs, port = of_nat p\<rparr>, r) }
      in case (case v4 of Some x \<Rightarrow> Some x | None \<Rightarrow> v6) of
           Some (a, r) \<Rightarrow> if r = [] then Some a else None
         | None \<Rightarrow> None)"

definition parse_address :: "string \<Rightarrow> (string \<times> u16) option" where
  "parse_address addr =
     (case parse_socket_addr addr of
        Some sa \<Rightarrow> Some (show_ip (ip sa), port sa)
      | None \<Rightarrow>
          (case rsplit_once CHR '':'' addr of
             Some (host, port_str) \<Rightarrow>
               (case parse_uint 16 port_str of Some p \<Rightarrow> Some (host, of_nat p) | None \<Rightarrow> None)
           | None \<Rightarrow> None))"

definition target_suggest :: "proxy_command_source \<Rightarrow> string \<Rightarrow> string list" where
  "target_suggest src remaining =
     (if starts_with remaining ''all'' then [''all''] else [])
     @ map username (filter (\<lambda>s. starts_with remaining (to_ascii_lowercase (username s)))
          (list_sessions (source_sessions src)))"

definition send_execute :: "proxy_command_source \<Rightarrow> string \<Rightarrow> string \<Rightarrow> command_result" where
  "send_execute src target server_name =
     (if \<not> source_has_permission src ''vine.command.send'' then denied ''vine.command.send''
      else case find_server src server_name of
        None \<Rightarrow>
          (Inl (command_error (''Unknown backend server '' @ [CHR 0x27] @ server_name @ [CHR 0x27]
             @ ''. Available servers: ['' @ join '', '' (sort (server_names src)) @ '']'')), [])
      | Some canonical_server \<Rightarrow>
          if eq_ignore_ascii_case target ''all'' then
            (let ss = list_sessions (source_sessions src)
             in if ss = [] then (Inl (command_error ''No players currently online to send.''), [])
                else (Inr (of_nat (length ss)),
                  map (\<lambda>s. Send (action_tx s) (Connect canonical_server)) ss
                  @ send_message (sender src) (Text (''Sent '' @ show_nat (length ss) @ '' player(s) to ''
                      @ [CHR 0x27] @ canonical_server @ [CHR 0x27]))))
          else case get_session target (source_sessions src) of
            None \<Rightarrow> (Inl (command_error (''Player '' @ [CHR 0x27] @ target @ [CHR 0x27] @ '' is not online.'')), [])
          | Some s \<Rightarrow>
              (Inr 1,
               [Send (action_tx s) (Connect canonical_server)]
               @ send_message (sender src) (Text (''Sent '' @ [CHR 0x27] @ username s @ [CHR 0x27] @ '' to ''
                   @ [CHR 0x27] @ canonical_server @ [CHR 0x27]))))"

subsection \<open>/glist\<close>

text \<open>A \<^verbatim>\<open>BTreeMap\<close>: entries in key order; \<^verbatim>\<open>entry(k).or_default()\<close>, then a change.\<close>

fun btree_entry :: "'k::linorder \<Rightarrow> ('v \<Rightarrow> 'v) \<Rightarrow> 'v \<Rightarrow> ('k \<times> 'v) list \<Rightarrow> ('k \<times> 'v) list" where
  "btree_entry k f d [] = [(k, f d)]"
| "btree_entry k f d ((k', v) # m) =
     (if k < k' then (k, f d) # (k', v) # m
      else if k = k' then (k', f v) # m
      else (k', v) # btree_entry k f d m)"

definition group_players :: "string list \<Rightarrow> player_session list \<Rightarrow> (string \<times> string list) list" where
  "group_players names ss =
     fold (\<lambda>s m. btree_entry (current_server s) (\<lambda>ps. ps @ [username s]) [] m) ss
       (fold (\<lambda>n m. btree_entry n (\<lambda>ps. ps) [] m) names [])"

definition glist_line :: "string \<times> string list \<Rightarrow> string" where
  "glist_line e =
     (case e of (server_name, players) \<Rightarrow>
        let players = sort players
        in if players = [] then ''['' @ server_name @ ''] (0):''
           else ''['' @ server_name @ ''] ('' @ show_nat (length players) @ ''): '' @ join '', '' players)"

definition glist_execute :: "proxy_command_source \<Rightarrow> command_result" where
  "glist_execute src =
     (if \<not> source_has_permission src ''vine.command.glist'' then denied ''vine.command.glist''
      else
        let ss = list_sessions (source_sessions src);
            total_players = length ss;
            lines = map glist_line (group_players (server_names src) ss)
              @ [''Total players online: '' @ show_nat total_players]
        in (Inr (of_nat total_players), send_message (sender src) (Text (join nl lines))))"

section \<open>The dispatcher\<close>

text \<open>What is registered: a command with an optional required permission, an optional executor and arguments.\<close>

datatype ('x, 's) arg = Arg (arg_name: string) (arg_suggest: "'s option") (arg_exec: "'x option") (arg_then: "('x, 's) arg list")

datatype ('x, 's) cmd =
  Cmd (cmd_name: string) (cmd_desc: string) (cmd_requires: "string option") (cmd_exec: "'x option")
    (cmd_args: "('x, 's) arg list")

datatype executor =
    ServerInfoExecutor | ServerSwitchExecutor | SendExecutor | GlistExecutor | ListExecutor
  | HelpExecutor | CommandSpecificHelpExecutor | PluginExecutor u32 nat

datatype provider =
    ServerSuggestionProvider | TargetSuggestionProvider | HelpSuggestionProvider
  | PluginSuggestionProvider u32 nat

type_synonym command_builder = "(executor, provider) cmd"

record suggestion =
  suggestion_text :: string
  tooltip :: "text_component option"

record suggestions =
  range_start :: nat
  range_end :: nat
  suggestion_list :: "suggestion list"

definition suggestions_empty :: suggestions where
  "suggestions_empty = \<lparr>range_start = 0, range_end = 0, suggestion_list = []\<rparr>"

record raw_ops =
  raw_has_command :: "command_builder list \<Rightarrow> string \<Rightarrow> bool"
  raw_handle_command :: "command_builder list \<Rightarrow> proxy_command_source \<Rightarrow> string \<Rightarrow> effect list"
  raw_execute_input :: "command_builder list \<Rightarrow> string \<Rightarrow> proxy_command_source \<Rightarrow> command_result"
  raw_permitted :: "command_builder list \<Rightarrow> proxy_command_source \<Rightarrow> (string \<times> string) list"
  raw_suggest :: "command_builder list \<Rightarrow> string \<Rightarrow> proxy_command_source \<Rightarrow> suggestions"

record command_dispatcher =
  registered :: "command_builder list"
  disp_poisoned :: bool

definition server_command :: command_builder where
  "server_command =
     Cmd ''server'' ''View or connect to a backend server'' (Some ''vine.command.server'')
       (Some ServerInfoExecutor)
       [Arg ''server'' (Some ServerSuggestionProvider) (Some ServerSwitchExecutor) []]"

definition send_command :: command_builder where
  "send_command =
     Cmd ''send'' ''Sends a player or all players to another backend server'' None None
       [Arg ''target'' (Some TargetSuggestionProvider) None
         [Arg ''server'' (Some ServerSuggestionProvider) (Some SendExecutor) []]]"

definition glist_command :: command_builder where
  "glist_command =
     Cmd ''glist'' ''Lists online players grouped by server across the proxy'' (Some ''vine.command.glist'')
       (Some GlistExecutor) []"

definition dispatcher_new :: command_dispatcher where
  "dispatcher_new =
     \<lparr>registered = [server_command, send_command, glist_command,
        Cmd ''list'' ''Lists online players connected to the proxy'' None (Some ListExecutor) [],
        Cmd ''help'' ''Displays list of available proxy commands'' None (Some HelpExecutor)
          [Arg ''command'' (Some HelpSuggestionProvider) (Some CommandSpecificHelpExecutor) []]],
      disp_poisoned = False\<rparr>"

definition dispatcher_register :: "command_builder \<Rightarrow> command_dispatcher \<Rightarrow> command_dispatcher" where
  "dispatcher_register b d = (if disp_poisoned d then d else d\<lparr>registered := registered d @ [b]\<rparr>)"

definition has_command :: "raw_ops \<Rightarrow> command_dispatcher \<Rightarrow> string \<Rightarrow> bool" where
  "has_command raw d name =
     (let clean = to_ascii_lowercase (dropWhile (\<lambda>c. c = CHR ''/'') name)
      in if disp_poisoned d then False else raw_has_command raw (registered d) clean)"

definition handle_command :: "raw_ops \<Rightarrow> command_dispatcher \<Rightarrow> proxy_command_source \<Rightarrow> string \<Rightarrow> effect list" where
  "handle_command raw d src input =
     (if disp_poisoned d then [] else raw_handle_command raw (registered d) src input)"

definition strip_slash :: "string \<Rightarrow> string" where
  "strip_slash s = (case strip_prefix ''/'' s of Some r \<Rightarrow> r | None \<Rightarrow> s)"

definition execute_input :: "raw_ops \<Rightarrow> command_dispatcher \<Rightarrow> string \<Rightarrow> proxy_command_source \<Rightarrow> command_result" where
  "execute_input raw d input src =
     (let clean = strip_slash (trim input)
      in if disp_poisoned d then (Inl (command_error ''Command dispatcher lock poisoned''), [])
         else raw_execute_input raw (registered d) clean src)"

definition get_all_permitted_commands ::
  "raw_ops \<Rightarrow> command_dispatcher \<Rightarrow> proxy_command_source \<Rightarrow> (string \<times> string) list" where
  "get_all_permitted_commands raw d src =
     (if disp_poisoned d then [] else raw_permitted raw (registered d) src)"

definition suggest_command :: "raw_ops \<Rightarrow> command_dispatcher \<Rightarrow> string \<Rightarrow> proxy_command_source \<Rightarrow> suggestions" where
  "suggest_command raw d input src =
     (let clean = strip_slash input
      in if CHR '' '' \<in> set clean then
           (let first_word = (case split_whitespace clean of w # _ \<Rightarrow> w | [] \<Rightarrow> clean)
            in if has_command raw d first_word \<and> \<not> disp_poisoned d
               then raw_suggest raw (registered d) clean src
               else suggestions_empty)
         else
           let clean_lower = to_ascii_lowercase clean;
               permitted = get_all_permitted_commands raw d src
           in \<lparr>range_start = 0, range_end = length clean,
               suggestion_list =
                 map (\<lambda>(cmd_name, description). \<lparr>suggestion_text = cmd_name, tooltip = Some (Text description)\<rparr>)
                   (filter (\<lambda>(cmd_name, _). starts_with clean_lower cmd_name) permitted)\<rparr>)"

definition suggest_with_range :: "raw_ops \<Rightarrow> command_dispatcher \<Rightarrow> string \<Rightarrow> proxy_command_source \<Rightarrow> suggestions" where
  "suggest_with_range raw d input src = suggest_command raw d input src"

definition dispatcher_suggest :: "raw_ops \<Rightarrow> command_dispatcher \<Rightarrow> string \<Rightarrow> proxy_command_source \<Rightarrow> (string \<times> text_component option) list" where
  "dispatcher_suggest raw d input src =
     map (\<lambda>s. (suggestion_text s, tooltip s)) (suggestion_list (suggest_command raw d input src))"

section \<open>Properties\<close>

lemma find_server_configured:
  "find_server src n = Some k \<Longrightarrow> k \<in> set (server_names src) \<and> eq_ignore_ascii_case k n"
  by (auto simp: find_server_def find_Some_iff)


definition demo_source :: proxy_command_source where
  "demo_source = \<lparr>sender = Player ''Steve'' 4, source_config = config_default,
     source_sessions = register steve session_manager_new\<rparr>"


text \<open>The actions a command puts into the channels, without its feedback messages.\<close>

fun connects :: "effect list \<Rightarrow> (channel \<times> string) list" where
  "connects [] = []"
| "connects (Send tx (Connect n) # es) = (tx, n) # connects es"
| "connects (_ # es) = connects es"

lemma connects_append: "connects (a @ b) = connects a @ connects b"
  by (induction a rule: connects.induct) auto

lemma connects_message [simp]: "connects (send_message s m) = []"
  by (cases s) (simp_all add: send_message_def)

lemma connects_map: "connects (map (\<lambda>s. Send (f s) (Connect n)) ss) = map (\<lambda>s. (f s, n)) ss"
  by (induction ss) auto

text \<open>
  C35: \<^verbatim>\<open>/send\<close> moves exactly the players it names, to a server that exists: when it succeeds,
  the target is one of the configured names (ignoring case), \<^verbatim>\<open>all\<close> gives every online session
  one connect action and no other, a player's name gives one action to the session a lookup of
  that name finds, and the result is the number of actions.
\<close>
theorem send_execute_exact:
  assumes "fst (send_execute src target n) = Inr k"
  shows "\<exists>canon \<in> set (server_names src). eq_ignore_ascii_case canon n
    \<and> connects (snd (send_execute src target n)) =
        (if eq_ignore_ascii_case target ''all''
         then map (\<lambda>s. (action_tx s, canon)) (list_sessions (source_sessions src))
         else [(action_tx (the (get_session target (source_sessions src))), canon)])
    \<and> k = of_nat (length (connects (snd (send_execute src target n))))"
proof -
  obtain canon where canon: "find_server src n = Some canon"
    using assms by (auto simp: send_execute_def denied_def split: if_splits option.splits)
  show ?thesis
  proof (intro bexI[of _ canon] conjI)
    show "canon \<in> set (server_names src)" "eq_ignore_ascii_case canon n"
      using find_server_configured[OF canon] by simp_all
    show "connects (snd (send_execute src target n)) =
        (if eq_ignore_ascii_case target ''all''
         then map (\<lambda>s. (action_tx s, canon)) (list_sessions (source_sessions src))
         else [(action_tx (the (get_session target (source_sessions src))), canon)])"
      using assms canon
      by (auto simp: send_execute_def denied_def Let_def connects_append connects_map
          split: if_splits option.splits)
    show "k = of_nat (length (connects (snd (send_execute src target n))))"
      using assms canon
      by (auto simp: send_execute_def denied_def Let_def connects_append connects_map
          split: if_splits option.splits)
  qed
qed

theorem send_execute_exact_witness:
  "connects (snd (send_execute (demo_source\<lparr>sender := Console\<rparr>) ''all'' ''SURVIVAL'')) = [(0, ''survival'')]"
proof -
  let ?s = "demo_source\<lparr>sender := Console\<rparr>"
  have r: "fst (send_execute ?s ''all'' ''SURVIVAL'') = Inr 1" by code_simp
  have names: "server_names ?s = [''lobby'', ''survival'', ''vanilla'']" by code_simp
  have ss: "map action_tx (list_sessions (source_sessions ?s)) = [0]" by code_simp
  have "eq_ignore_ascii_case ''all'' ''all''" by simp
  with send_execute_exact[OF r] obtain canon where "canon \<in> set (server_names ?s)"
      "eq_ignore_ascii_case canon ''SURVIVAL''"
      "connects (snd (send_execute ?s ''all'' ''SURVIVAL''))
        = map (\<lambda>s. (action_tx s, canon)) (list_sessions (source_sessions ?s))"
    by auto
  moreover from this names have "canon = ''survival''"
    by (auto simp: eq_ignore_ascii_case_def to_ascii_lowercase_def ascii_lower_def)
  ultimately show ?thesis using ss by (auto simp: map_eq_Cons_conv)
qed

text \<open>Entries of a map in key order.\<close>

abbreviation in_order :: "('k::linorder \<times> 'v) list \<Rightarrow> bool" where
  "in_order m \<equiv> sorted_wrt (<) (map fst m)"

lemma fst_btree_entry: "set (map fst (btree_entry k f d m)) = insert k (set (map fst m))"
  by (induction k f d m rule: btree_entry.induct) auto

lemma in_order_btree_entry: "in_order m \<Longrightarrow> in_order (btree_entry k f d m)"
proof (induction k f d m rule: btree_entry.induct)
  case (2 k f d k' v m)
  have "\<forall>x \<in> set (map fst (btree_entry k f d m)). k' < x" if "\<not> k < k'" "k \<noteq> k'"
    unfolding fst_btree_entry using 2 that by auto
  with 2 show ?case by auto
qed simp

lemma map_of_btree_entry:
  "in_order m \<Longrightarrow> map_of (btree_entry k f d m) k' =
     (if k' = k then Some (f (case map_of m k of Some v \<Rightarrow> v | None \<Rightarrow> d)) else map_of m k')"
proof (induction k f d m rule: btree_entry.induct)
  case (2 k f d k1 v m)
  have "map_of m k = None" if "k < k1"
    using 2 that by (force simp: map_of_eq_None_iff)
  with 2 show ?case by auto
qed simp

definition players_on :: "string \<Rightarrow> player_session list \<Rightarrow> string list" where
  "players_on n ss = map username (filter (\<lambda>s. current_server s = n) ss)"

lemma fold_names:
  assumes "in_order m"
  shows "in_order (fold (\<lambda>n m. btree_entry n (\<lambda>ps. ps) [] m) names m)
    \<and> (\<forall>n. map_of (fold (\<lambda>n m. btree_entry n (\<lambda>ps. ps) [] m) names m) n =
         (if map_of m n = None \<and> n \<in> set names then Some [] else map_of m n))"
  using assms
proof (induction names arbitrary: m)
  case (Cons x names)
  let ?m = "btree_entry x (\<lambda>ps. ps) [] m"
  have "in_order ?m" using Cons.prems by (rule in_order_btree_entry)
  from Cons.IH[OF this] show ?case
    by (auto simp: map_of_btree_entry[OF Cons.prems] split: option.splits if_splits)
qed simp

lemma fold_players:
  assumes "in_order m"
  shows "in_order (fold (\<lambda>s m. btree_entry (current_server s) (\<lambda>ps. ps @ [username s]) [] m) ss m)
    \<and> (\<forall>n. map_of (fold (\<lambda>s m. btree_entry (current_server s) (\<lambda>ps. ps @ [username s]) [] m) ss m) n =
         (if map_of m n = None \<and> players_on n ss = [] then None
          else Some ((case map_of m n of Some v \<Rightarrow> v | None \<Rightarrow> []) @ players_on n ss)))"
  using assms
proof (induction ss arbitrary: m)
  case (Cons s ss)
  let ?m = "btree_entry (current_server s) (\<lambda>ps. ps @ [username s]) [] m"
  have "in_order ?m" using Cons.prems by (rule in_order_btree_entry)
  from Cons.IH[OF this] show ?case
    by (auto simp: map_of_btree_entry[OF Cons.prems] players_on_def split: option.splits)
qed (auto simp: players_on_def split: option.splits)

text \<open>
  C26: \<^verbatim>\<open>/glist\<close> is complete: its groups are in name order without repetition, there is a group
  for every configured server and for every server some player is on, and each group holds
  exactly the players whose current server it is.
\<close>
theorem glist_groups_exact:
  "sorted_wrt (<) (map fst (group_players names ss))
   \<and> map_of (group_players names ss) n =
       (if n \<in> set names \<union> current_server ` set ss
        then Some (map username (filter (\<lambda>s. current_server s = n) ss)) else None)"
proof -
  let ?m = "fold (\<lambda>n m. btree_entry n (\<lambda>ps. ps) [] m) names ([] :: (string \<times> string list) list)"
  have m: "in_order ?m" "\<forall>n. map_of ?m n = (if n \<in> set names then Some [] else None)"
    using fold_names[of "[] :: (string \<times> string list) list" names] by simp_all
  have "players_on n ss = [] \<longleftrightarrow> n \<notin> current_server ` set ss"
    by (auto simp: players_on_def filter_empty_conv)
  with fold_players[OF m(1), of ss] m(2) show ?thesis
    by (auto simp: group_players_def players_on_def)
qed

text \<open>
  Root suggestions are permitted commands that continue what was typed: when the input holds no
  space, every suggested text is the name of a command the source may run, starts with the typed
  text (without slash, in lower case), and every permitted command with that prefix is suggested.
\<close>
theorem suggest_root_exact:
  assumes "CHR '' '' \<notin> set (strip_slash input)"
  shows "map suggestion_text (suggestion_list (suggest_command raw d input src)) =
    filter (starts_with (to_ascii_lowercase (strip_slash input))) (map fst (get_all_permitted_commands raw d src))"
  using assms by (simp add: suggest_command_def Let_def filter_map comp_def case_prod_beta')

definition demo_raw :: raw_ops where
  "demo_raw = \<lparr>raw_has_command = (\<lambda>cs n. n \<in> cmd_name ` set cs), raw_handle_command = (\<lambda>_ _ _. []),
     raw_execute_input = (\<lambda>_ _ _. (Inr 0, [])),
     raw_permitted = (\<lambda>cs src. map (\<lambda>c. (cmd_name c, cmd_desc c)) (filter (\<lambda>c. case cmd_requires c of
        Some p \<Rightarrow> source_has_permission src p | None \<Rightarrow> True) cs)),
     raw_suggest = (\<lambda>_ _ _. suggestions_empty)\<rparr>"

theorem suggest_root_exact_witness:
  "map suggestion_text (suggestion_list (suggest_command demo_raw dispatcher_new ''/SE'' demo_source))
     = [''server'', ''send'']"
proof -
  have i: "CHR '' '' \<notin> set (strip_slash ''/SE'')" by code_simp
  have "filter (starts_with (to_ascii_lowercase (strip_slash ''/SE'')))
      (map fst (get_all_permitted_commands demo_raw dispatcher_new demo_source)) = [''server'', ''send'']"
    by code_simp
  with suggest_root_exact[OF i] show ?thesis by simp
qed

end
