(* ===== verification/Plugin_Manager.thy ===== *)
theory Plugin_Manager
  imports Command
begin

text \<open>
  \<^verbatim>\<open>src/src/plugin/api.rs\<close>, \<^verbatim>\<open>src/src/plugin/mod.rs\<close> and the loader's file test: events, their
  handlers and the order in which they run, plugin commands, loading and unloading. A loaded
  plugin is a number; the code inside it, WebAssembly run by a third-party engine, is the argument
  \<^verbatim>\<open>wasm_host\<close>, whose functions take and return the state \<^typ>\<open>'w\<close> of all plugins.
\<close>

section \<open>Events\<close>

record plugin_metadata =
  meta_name :: string
  meta_version :: string
  meta_authors :: "string list"
  meta_description :: "string option"
  meta_dependencies :: "string list"

datatype event_priority = Lowest | Low | Normal | High | Highest | Monitor

fun priority_rank :: "event_priority \<Rightarrow> nat" where
  "priority_rank Lowest = 0"
| "priority_rank Low = 1"
| "priority_rank Normal = 2"
| "priority_rank High = 3"
| "priority_rank Highest = 4"
| "priority_rank Monitor = 5"

lemma priority_rank_inj [simp]: "priority_rank a = priority_rank b \<longleftrightarrow> a = b"
  by (cases a; cases b) simp_all

instantiation event_priority :: linorder
begin

definition less_eq_event_priority :: "event_priority \<Rightarrow> event_priority \<Rightarrow> bool" where
  "less_eq_event_priority a b \<longleftrightarrow> priority_rank a \<le> priority_rank b"

definition less_event_priority :: "event_priority \<Rightarrow> event_priority \<Rightarrow> bool" where
  "less_event_priority a b \<longleftrightarrow> priority_rank a < priority_rank b"

instance
  by standard (auto simp: less_eq_event_priority_def less_event_priority_def)

end

datatype event_type =
    EvProxyPing | EvPlayerPreLogin | EvPlayerLogin | EvPlayerJoin | EvServerConnect | EvServerConnected
  | EvPlayerDisconnect | EvPlayerChat | EvPlayerCommand | EvPluginMessage

record proxy_ping_event =
  ping_client_ip :: string
  ping_protocol_version :: u32
  ping_virtual_host :: string
  ping_motd :: string
  ping_max_players :: u32
  ping_online_players :: u32
  ping_version_name :: string

record player_pre_login_event =
  pre_client_ip :: string
  pre_username :: string
  pre_protocol_version :: u32
  pre_virtual_host :: string
  pre_cancelled :: bool
  pre_cancel_reason :: "string option"

record player_login_event =
  login_uuid :: string
  login_username :: string
  login_client_ip :: string
  login_cancelled :: bool
  login_cancel_reason :: "string option"

record player_join_event =
  join_uuid :: string
  join_username :: string
  join_client_ip :: string
  join_initial_server :: string

record server_connect_event =
  connect_uuid :: string
  connect_username :: string
  connect_current_server :: "string option"
  connect_target_server :: string
  connect_cancelled :: bool
  connect_cancel_reason :: "string option"

record server_connected_event =
  connected_uuid :: string
  connected_username :: string
  connected_server_name :: string

record player_disconnect_event =
  disconnect_uuid :: string
  disconnect_username :: string
  disconnect_last_server :: "string option"

record player_chat_event =
  chat_uuid :: string
  chat_username :: string
  chat_message :: string
  chat_cancelled :: bool

record player_command_event =
  command_uuid :: string
  command_username :: string
  command_text :: string
  command_cancelled :: bool

record plugin_message_event =
  message_channel :: string
  message_data :: bytes
  message_player_uuid :: "string option"
  message_server_name :: "string option"
  message_cancelled :: bool

datatype event =
    ProxyPing proxy_ping_event
  | PlayerPreLogin player_pre_login_event
  | PlayerLogin player_login_event
  | PlayerJoin player_join_event
  | ServerConnect server_connect_event
  | ServerConnected server_connected_event
  | PlayerDisconnect player_disconnect_event
  | PlayerChat player_chat_event
  | PlayerCommand player_command_event
  | PluginMessageEvent plugin_message_event

record plugin_context =
  ctx_metadata :: plugin_metadata
  data_folder :: string
  registered_commands :: "u32 list"
  registered_events :: "(u32 \<times> event_type \<times> event_priority) list"

definition plugin_context_new :: "plugin_metadata \<Rightarrow> string \<Rightarrow> plugin_context" where
  "plugin_context_new md folder =
     \<lparr>ctx_metadata = md, data_folder = folder, registered_commands = [], registered_events = []\<rparr>"

section \<open>The manager\<close>

record wit_sender =
  wit_is_player :: bool
  wit_name :: string
  wit_uuid :: "string option"

text \<open>What a plugin registers with the proxy while one of its functions runs.\<close>

datatype registration =
    RegisterEvent event_type event_priority u32
  | RegisterCommand u32 string string "string list" "string option"

record 'w wasm_host =
  handle_event :: "nat \<Rightarrow> u32 \<Rightarrow> event \<Rightarrow> 'w \<Rightarrow> (string + event) \<times> 'w"
  handle_plugin_command :: "nat \<Rightarrow> u32 \<Rightarrow> wit_sender \<Rightarrow> string list \<Rightarrow> 'w \<Rightarrow> (string + (string + i32)) \<times> 'w"
  handle_suggestion :: "nat \<Rightarrow> u32 \<Rightarrow> wit_sender \<Rightarrow> string list \<Rightarrow> 'w \<Rightarrow> (string + string list) \<times> 'w"
  load_plugin :: "string \<Rightarrow> 'w \<Rightarrow> (string + nat \<times> plugin_metadata) \<times> 'w"
  on_load :: "nat \<Rightarrow> plugin_context \<Rightarrow> 'w \<Rightarrow> (string + unit) \<times> registration list \<times> 'w"
  on_unload :: "nat \<Rightarrow> plugin_context \<Rightarrow> 'w \<Rightarrow> (string + unit) \<times> registration list \<times> 'w"

record registered_event_handler =
  handler_id :: u32
  priority :: event_priority
  handler_plugin :: nat

record plugin_manager =
  plugins_dir :: string
  loaded_plugins :: "(nat \<times> plugin_metadata) list"
  event_handlers :: "(event_type, registered_event_handler list) hmap"
  proxy_ctx :: bool

definition plugin_manager_new :: "string \<Rightarrow> plugin_manager" where
  "plugin_manager_new dir = \<lparr>plugins_dir = dir, loaded_plugins = [], event_handlers = [], proxy_ctx = False\<rparr>"

text \<open>
  The context has references to the configuration, the sessions, the dispatcher and the manager
  itself; what matters here is whether it has been set.
\<close>

definition init_proxy_context :: "plugin_manager \<Rightarrow> plugin_manager" where
  "init_proxy_context m = m\<lparr>proxy_ctx := True\<rparr>"

definition handlers_for :: "plugin_manager \<Rightarrow> event_type \<Rightarrow> registered_event_handler list" where
  "handlers_for m t = (case map_of (event_handlers m) t of Some hs \<Rightarrow> hs | None \<Rightarrow> [])"

definition register_event_handler ::
  "event_type \<Rightarrow> event_priority \<Rightarrow> u32 \<Rightarrow> nat \<Rightarrow> plugin_manager \<Rightarrow> plugin_manager" where
  "register_event_handler t prio hid plugin m =
     (let hs = handlers_for m t @ [\<lparr>handler_id = hid, priority = prio, handler_plugin = plugin\<rparr>]
      in m\<lparr>event_handlers := AList.update t (sort_key priority hs) (event_handlers m)\<rparr>)"

definition plugin_command_builder ::
  "u32 \<Rightarrow> string \<Rightarrow> string \<Rightarrow> string option \<Rightarrow> nat \<Rightarrow> command_builder" where
  "plugin_command_builder command_id name description permission plugin =
     Cmd name description permission (Some (PluginExecutor command_id plugin))
       [Arg ''args'' (Some (PluginSuggestionProvider command_id plugin)) (Some (PluginExecutor command_id plugin)) []]"

definition register_command ::
  "u32 \<Rightarrow> string \<Rightarrow> string \<Rightarrow> string list \<Rightarrow> string option \<Rightarrow> nat \<Rightarrow> command_dispatcher option
    \<Rightarrow> command_dispatcher option" where
  "register_command command_id name description aliases permission plugin proxy =
     (case proxy of
        None \<Rightarrow> None
      | Some d \<Rightarrow>
          Some (fold (\<lambda>n d. dispatcher_register (plugin_command_builder command_id n description permission plugin) d)
            (name # aliases) d))"

subsection \<open>Loading and unloading\<close>

definition path_file_name :: "string \<Rightarrow> string" where
  "path_file_name p = (case rsplit_once CHR ''/'' p of Some (_, n) \<Rightarrow> n | None \<Rightarrow> p)"

definition path_extension :: "string \<Rightarrow> string option" where
  "path_extension p =
     (let n = path_file_name p
      in if n = ''..'' then None
         else case rsplit_once CHR ''.'' n of
                Some (before, after) \<Rightarrow> if before = [] then None else Some after
              | None \<Rightarrow> None)"

definition can_load :: "string \<Rightarrow> bool" where
  "can_load path =
     (case path_extension path of Some ext \<Rightarrow> eq_ignore_ascii_case ext ''wasm'' | None \<Rightarrow> False)"

text \<open>Joining paths: an absolute second path replaces the first.\<close>

definition path_join :: "string \<Rightarrow> string \<Rightarrow> string" where
  "path_join p q = (if starts_with ''/'' q then q else p @ ''/'' @ q)"

definition plugin_data_folder :: "plugin_metadata \<Rightarrow> string" where
  "plugin_data_folder md = path_join ''plugins/data'' (meta_name md)"

text \<open>What a registration does; without a context it does nothing.\<close>

definition apply_registration ::
  "nat \<Rightarrow> registration \<Rightarrow> command_dispatcher \<times> plugin_manager \<Rightarrow> command_dispatcher \<times> plugin_manager" where
  "apply_registration plugin r dm =
     (case dm of (d, m) \<Rightarrow>
        if \<not> proxy_ctx m then (d, m)
        else (case r of
           RegisterEvent t prio hid \<Rightarrow> (d, register_event_handler t prio hid plugin m)
         | RegisterCommand cid name description aliases permission \<Rightarrow>
             (case register_command cid name description aliases permission plugin (Some d) of
                Some d \<Rightarrow> (d, m) | None \<Rightarrow> (d, m))))"

definition apply_registrations ::
  "nat \<Rightarrow> registration list \<Rightarrow> command_dispatcher \<times> plugin_manager \<Rightarrow> command_dispatcher \<times> plugin_manager" where
  "apply_registrations plugin rs = fold (apply_registration plugin) rs"

fun load_entries ::
  "'w wasm_host \<Rightarrow> (string \<times> bool) list \<Rightarrow> command_dispatcher \<times> plugin_manager \<Rightarrow> 'w
    \<Rightarrow> nat \<times> (command_dispatcher \<times> plugin_manager) \<times> 'w" where
  "load_entries host [] dm w = (0, dm, w)"
| "load_entries host ((path, is_file) # es) dm w =
     (if is_file \<and> can_load path then
        (case load_plugin host path w of
           (Inl e, w) \<Rightarrow> load_entries host es dm w
         | (Inr (plugin, md), w) \<Rightarrow>
             (case on_load host plugin (plugin_context_new md (plugin_data_folder md)) w of
                (Inl e, rs, w) \<Rightarrow> load_entries host es (apply_registrations plugin rs dm) w
              | (Inr _, rs, w) \<Rightarrow>
                  (let (d, m) = apply_registrations plugin rs dm;
                       (n, dm, w) = load_entries host es
                         (d, m\<lparr>loaded_plugins := loaded_plugins m @ [(plugin, md)]\<rparr>) w
                   in (Suc n, dm, w))))
      else load_entries host es dm w)"

text \<open>
  The directory is \<^verbatim>\<open>None\<close> if it does not exist (it is then created) and \<^verbatim>\<open>Some None\<close> if it cannot
  be read.
\<close>

definition load_plugins ::
  "'w wasm_host \<Rightarrow> (string \<times> bool) list option option \<Rightarrow> command_dispatcher \<times> plugin_manager \<Rightarrow> 'w
    \<Rightarrow> nat \<times> (command_dispatcher \<times> plugin_manager) \<times> 'w" where
  "load_plugins host entries dm w =
     (case entries of
        None \<Rightarrow> (0, dm, w)
      | Some None \<Rightarrow> (0, dm, w)
      | Some (Some es) \<Rightarrow> load_entries host es dm w)"

fun unload_each ::
  "'w wasm_host \<Rightarrow> (nat \<times> plugin_metadata) list \<Rightarrow> command_dispatcher \<times> plugin_manager \<Rightarrow> 'w
    \<Rightarrow> (command_dispatcher \<times> plugin_manager) \<times> 'w" where
  "unload_each host [] dm w = (dm, w)"
| "unload_each host ((plugin, md) # ps) dm w =
     (case on_unload host plugin (plugin_context_new md (plugin_data_folder md)) w of
        (_, rs, w) \<Rightarrow> unload_each host ps (apply_registrations plugin rs dm) w)"

definition unload_plugins ::
  "'w wasm_host \<Rightarrow> command_dispatcher \<times> plugin_manager \<Rightarrow> 'w \<Rightarrow> (command_dispatcher \<times> plugin_manager) \<times> 'w" where
  "unload_plugins host dm w =
     (case dm of (d, m) \<Rightarrow>
        (case unload_each host (loaded_plugins m) (d, m\<lparr>loaded_plugins := []\<rparr>) w of
           ((d, m), w) \<Rightarrow> ((d, m\<lparr>event_handlers := []\<rparr>), w)))"

subsection \<open>Firing events\<close>

text \<open>
  The loop all event dispatchers share: each handler gets the event as the previous ones left it;
  an answer of the right kind is merged into the event and may stop the loop, any other answer and
  every error leave the event as it is.
\<close>

fun dispatch ::
  "'w wasm_host \<Rightarrow> ('e \<Rightarrow> event) \<Rightarrow> (event \<Rightarrow> 'e \<Rightarrow> 'e option) \<Rightarrow> ('e \<Rightarrow> bool)
    \<Rightarrow> registered_event_handler list \<Rightarrow> 'e \<Rightarrow> 'w \<Rightarrow> 'e \<times> 'w" where
  "dispatch host wit merge stop [] e w = (e, w)"
| "dispatch host wit merge stop (h # hs) e w =
     (case handle_event host (handler_plugin h) (handler_id h) (wit e) w of
        (Inl err, w) \<Rightarrow> dispatch host wit merge stop hs e w
      | (Inr ans, w) \<Rightarrow>
          (case merge ans e of
             None \<Rightarrow> dispatch host wit merge stop hs e w
           | Some e \<Rightarrow> if stop e then (e, w) else dispatch host wit merge stop hs e w))"

definition fire_proxy_ping :: "'w wasm_host \<Rightarrow> plugin_manager \<Rightarrow> proxy_ping_event \<Rightarrow> 'w \<Rightarrow> proxy_ping_event \<times> 'w" where
  "fire_proxy_ping host m =
     dispatch host ProxyPing
       (\<lambda>ans e. case ans of
          ProxyPing r \<Rightarrow> Some (e\<lparr>ping_motd := ping_motd r, ping_max_players := ping_max_players r,
             ping_online_players := ping_online_players r, ping_version_name := ping_version_name r\<rparr>)
        | _ \<Rightarrow> None)
       (\<lambda>_. False) (handlers_for m EvProxyPing)"

definition fire_player_pre_login ::
  "'w wasm_host \<Rightarrow> plugin_manager \<Rightarrow> player_pre_login_event \<Rightarrow> 'w \<Rightarrow> player_pre_login_event \<times> 'w" where
  "fire_player_pre_login host m =
     dispatch host PlayerPreLogin
       (\<lambda>ans e. case ans of
          PlayerPreLogin r \<Rightarrow> Some (e\<lparr>pre_cancelled := pre_cancelled r, pre_cancel_reason := pre_cancel_reason r\<rparr>)
        | _ \<Rightarrow> None)
       pre_cancelled (handlers_for m EvPlayerPreLogin)"

definition fire_player_login ::
  "'w wasm_host \<Rightarrow> plugin_manager \<Rightarrow> player_login_event \<Rightarrow> 'w \<Rightarrow> player_login_event \<times> 'w" where
  "fire_player_login host m =
     dispatch host PlayerLogin
       (\<lambda>ans e. case ans of
          PlayerLogin r \<Rightarrow> Some (e\<lparr>login_cancelled := login_cancelled r, login_cancel_reason := login_cancel_reason r\<rparr>)
        | _ \<Rightarrow> None)
       login_cancelled (handlers_for m EvPlayerLogin)"

definition fire_player_join :: "'w wasm_host \<Rightarrow> plugin_manager \<Rightarrow> player_join_event \<Rightarrow> 'w \<Rightarrow> 'w" where
  "fire_player_join host m e w =
     snd (dispatch host PlayerJoin (\<lambda>_ _. None) (\<lambda>_. False) (handlers_for m EvPlayerJoin) e w)"

definition fire_server_connect ::
  "'w wasm_host \<Rightarrow> plugin_manager \<Rightarrow> server_connect_event \<Rightarrow> 'w \<Rightarrow> server_connect_event \<times> 'w" where
  "fire_server_connect host m =
     dispatch host ServerConnect
       (\<lambda>ans e. case ans of
          ServerConnect r \<Rightarrow> Some (e\<lparr>connect_target_server := connect_target_server r,
             connect_cancelled := connect_cancelled r, connect_cancel_reason := connect_cancel_reason r\<rparr>)
        | _ \<Rightarrow> None)
       connect_cancelled (handlers_for m EvServerConnect)"

definition fire_server_connected :: "'w wasm_host \<Rightarrow> plugin_manager \<Rightarrow> server_connected_event \<Rightarrow> 'w \<Rightarrow> 'w" where
  "fire_server_connected host m e w =
     snd (dispatch host ServerConnected (\<lambda>_ _. None) (\<lambda>_. False) (handlers_for m EvServerConnected) e w)"

definition fire_player_disconnect :: "'w wasm_host \<Rightarrow> plugin_manager \<Rightarrow> player_disconnect_event \<Rightarrow> 'w \<Rightarrow> 'w" where
  "fire_player_disconnect host m e w =
     snd (dispatch host PlayerDisconnect (\<lambda>_ _. None) (\<lambda>_. False) (handlers_for m EvPlayerDisconnect) e w)"

definition fire_player_chat ::
  "'w wasm_host \<Rightarrow> plugin_manager \<Rightarrow> player_chat_event \<Rightarrow> 'w \<Rightarrow> player_chat_event \<times> 'w" where
  "fire_player_chat host m =
     dispatch host PlayerChat
       (\<lambda>ans e. case ans of
          PlayerChat r \<Rightarrow> Some (e\<lparr>chat_message := chat_message r, chat_cancelled := chat_cancelled r\<rparr>)
        | _ \<Rightarrow> None)
       chat_cancelled (handlers_for m EvPlayerChat)"

definition fire_player_command ::
  "'w wasm_host \<Rightarrow> plugin_manager \<Rightarrow> player_command_event \<Rightarrow> 'w \<Rightarrow> player_command_event \<times> 'w" where
  "fire_player_command host m =
     dispatch host PlayerCommand
       (\<lambda>ans e. case ans of
          PlayerCommand r \<Rightarrow> Some (e\<lparr>command_text := command_text r, command_cancelled := command_cancelled r\<rparr>)
        | _ \<Rightarrow> None)
       command_cancelled (handlers_for m EvPlayerCommand)"

definition fire_plugin_message ::
  "'w wasm_host \<Rightarrow> plugin_manager \<Rightarrow> plugin_message_event \<Rightarrow> 'w \<Rightarrow> plugin_message_event \<times> 'w" where
  "fire_plugin_message host m =
     dispatch host PluginMessageEvent
       (\<lambda>ans e. case ans of
          PluginMessageEvent r \<Rightarrow> Some (e\<lparr>message_data := message_data r, message_cancelled := message_cancelled r\<rparr>)
        | _ \<Rightarrow> None)
       message_cancelled (handlers_for m EvPluginMessage)"

subsection \<open>Plugin commands\<close>

definition plugin_args :: "string option \<Rightarrow> string list" where
  "plugin_args phrase = (case phrase of Some p \<Rightarrow> split_whitespace p | None \<Rightarrow> [])"

definition to_wit_sender :: "(uuid \<Rightarrow> string) \<Rightarrow> proxy_command_source \<Rightarrow> wit_sender" where
  "to_wit_sender uuid_text src =
     (case sender src of
        Console \<Rightarrow> \<lparr>wit_is_player = False, wit_name = ''CONSOLE'', wit_uuid = None\<rparr>
      | Player u _ \<Rightarrow>
          \<lparr>wit_is_player = True, wit_name = u,
           wit_uuid = map_option (\<lambda>s. uuid_text (session_uuid s)) (get_session u (source_sessions src))\<rparr>)"

definition plugin_execute ::
  "(uuid \<Rightarrow> string) \<Rightarrow> 'w wasm_host \<Rightarrow> u32 \<Rightarrow> nat \<Rightarrow> proxy_command_source \<Rightarrow> string option \<Rightarrow> 'w
    \<Rightarrow> command_result \<times> 'w" where
  "plugin_execute uuid_text host command_id plugin src phrase w =
     (case handle_plugin_command host plugin command_id (to_wit_sender uuid_text src) (plugin_args phrase) w of
        (Inr (Inr exit_code), w) \<Rightarrow> ((Inr exit_code, []), w)
      | (Inr (Inl err_msg), w) \<Rightarrow>
          ((Inr 0, send_message (sender src) (Text (sect @ ''cError: '' @ err_msg))), w)
      | (Inl e, w) \<Rightarrow>
          ((Inr 0, send_message (sender src) (Text (sect @ ''cPlugin command error: '' @ e))), w))"

definition plugin_suggest ::
  "(uuid \<Rightarrow> string) \<Rightarrow> 'w wasm_host \<Rightarrow> u32 \<Rightarrow> nat \<Rightarrow> proxy_command_source \<Rightarrow> string option \<Rightarrow> 'w
    \<Rightarrow> string list \<times> 'w" where
  "plugin_suggest uuid_text host command_id plugin src phrase w =
     (case handle_suggestion host plugin command_id (to_wit_sender uuid_text src) (plugin_args phrase) w of
        (Inr ss, w) \<Rightarrow> (ss, w)
      | (Inl e, w) \<Rightarrow> ([], w))"

section \<open>Order of handlers\<close>

lemma sort_key_snoc: "sort_key f (sort_key f xs @ [x]) = sort_key f (xs @ [x])"
proof (rule properties_for_sort_key)
  show "mset (sort_key f (xs @ [x])) = mset (sort_key f xs @ [x])" by simp
  show "filter (\<lambda>y. f k = f y) (sort_key f (xs @ [x])) = filter (\<lambda>y. f k = f y) (sort_key f xs @ [x])" for k
  proof -
    have "(\<lambda>y. f k = f y) = (\<lambda>y. f y = f k)" by auto
    then show ?thesis by (simp add: sort_key_stable)
  qed
qed simp

type_synonym handler_entry = "event_type \<times> event_priority \<times> u32 \<times> nat"

definition register_all :: "handler_entry list \<Rightarrow> plugin_manager \<Rightarrow> plugin_manager" where
  "register_all regs m = fold (\<lambda>(t, p, i, pl). register_event_handler t p i pl) regs m"

definition as_handler :: "handler_entry \<Rightarrow> registered_event_handler" where
  "as_handler r = (case r of (t, p, i, pl) \<Rightarrow> \<lparr>handler_id = i, priority = p, handler_plugin = pl\<rparr>)"

lemma handlers_for_register:
  "handlers_for (register_event_handler t p i pl m) t' =
     (if t' = t then sort_key priority (handlers_for m t @ [as_handler (t, p, i, pl)]) else handlers_for m t')"
  by (simp add: handlers_for_def register_event_handler_def as_handler_def update_conv' Let_def)

lemma handlers_for_register_all:
  assumes "\<forall>t. handlers_for m t = sort_key priority (map as_handler (filter (\<lambda>r. fst r = t) past))"
  shows "handlers_for (register_all regs m) t
    = sort_key priority (map as_handler (filter (\<lambda>r. fst r = t) (past @ regs)))"
  using assms
proof (induction regs arbitrary: m past)
  case Nil
  then show ?case by (simp add: register_all_def)
next
  case (Cons r regs)
  obtain t1 p i pl where r: "r = (t1, p, i, pl)" by (cases r)
  let ?m = "register_event_handler t1 p i pl m"
  have "\<forall>t. handlers_for ?m t = sort_key priority (map as_handler (filter (\<lambda>r. fst r = t) (past @ [r])))"
    using Cons.prems by (simp add: handlers_for_register r sort_key_snoc)
  from Cons.IH[OF this] show ?case by (simp add: register_all_def r)
qed

section \<open>Dispatching\<close>

lemma dispatch_frame:
  assumes "\<And>ans e e'. merge ans e = Some e' \<Longrightarrow> f e' = f e"
  shows "f (fst (dispatch host wit merge stop hs e w)) = f e"
  using assms
proof (induction hs arbitrary: e w)
  case (Cons h hs)
  show ?case
  proof (cases "handle_event host (handler_plugin h) (handler_id h) (wit e) w")
    case (Pair r w')
    then show ?thesis
      using Cons by (cases r) (auto split: option.splits)
  qed
qed simp

lemma dispatch_append:
  "\<not> stop (fst (dispatch host wit merge stop hs e w)) \<Longrightarrow>
     dispatch host wit merge stop (hs @ hs') e w =
       (let (e1, w1) = dispatch host wit merge stop hs e w in dispatch host wit merge stop hs' e1 w1)"
proof (induction hs arbitrary: e w)
  case (Cons h hs)
  show ?case
  proof (cases "handle_event host (handler_plugin h) (handler_id h) (wit e) w")
    case (Pair r w')
    then show ?thesis
      using Cons by (cases r) (auto split: option.splits if_splits)
  qed
qed simp

lemma dispatch_skip_errors:
  assumes "\<And>e w. handle_event host (handler_plugin h) (handler_id h) (wit e) w = (Inl (err e w), w)"
  shows "dispatch host wit merge stop (hs @ h # hs') e w = dispatch host wit merge stop (hs @ hs') e w"
proof (induction hs arbitrary: e w)
  case Nil
  then show ?case by (simp add: assms)
next
  case (Cons h' hs)
  show ?case
  proof (cases "handle_event host (handler_plugin h') (handler_id h') (wit e) w")
    case (Pair r w')
    then show ?thesis using Cons by (cases r) (auto split: option.splits)
  qed
qed

lemma dispatch_stopped:
  assumes "dispatch host wit merge stop hs e w = (e', w')" and "stop e'" and "\<not> stop e"
  shows "\<exists>hs1 h hs2. hs = hs1 @ h # hs2
    \<and> \<not> stop (fst (dispatch host wit merge stop hs1 e w))
    \<and> (\<forall>rest. dispatch host wit merge stop (hs1 @ h # rest) e w = (e', w'))"
  using assms
proof (induction hs arbitrary: e w)
  case (Cons h hs)
  obtain r w1 where r: "handle_event host (handler_plugin h) (handler_id h) (wit e) w = (r, w1)"
    by (cases "handle_event host (handler_plugin h) (handler_id h) (wit e) w")
  define e1 where "e1 = (case r of Inl _ \<Rightarrow> e | Inr ans \<Rightarrow> (case merge ans e of None \<Rightarrow> e | Some e1 \<Rightarrow> e1))"
  have step: "dispatch host wit merge stop (h # hs0) e w =
      (if stop e1 then (e1, w1) else dispatch host wit merge stop hs0 e1 w1)" for hs0
    using Cons.prems(3) r by (auto simp: e1_def split: sum.splits option.splits)
  show ?case
  proof (cases "stop e1")
    case True
    with step Cons.prems show ?thesis
      by (intro exI[of _ "[]"] exI[of _ h] exI[of _ hs]) simp
  next
    case False
    with step[of hs] Cons.prems have "dispatch host wit merge stop hs e1 w1 = (e', w')" by simp
    from Cons.IH[OF this Cons.prems(2) False] obtain hs1 h1 hs2 where ih: "hs = hs1 @ h1 # hs2"
        "\<not> stop (fst (dispatch host wit merge stop hs1 e1 w1))"
        "\<forall>rest. dispatch host wit merge stop (hs1 @ h1 # rest) e1 w1 = (e', w')" by blast
    with step False have "\<not> stop (fst (dispatch host wit merge stop (h # hs1) e w))"
        "\<forall>rest. dispatch host wit merge stop ((h # hs1) @ h1 # rest) e w = (e', w')"
      by (simp_all del: dispatch.simps)
    with ih(1) show ?thesis by (intro exI[of _ "h # hs1"] exI[of _ h1] exI[of _ hs2]) simp
  qed
qed simp

lemma apply_registrations_loaded: "loaded_plugins (snd (apply_registrations plugin rs dm)) = loaded_plugins (snd dm)"
  unfolding apply_registrations_def
  by (induction rs arbitrary: dm)
    (auto simp: apply_registration_def register_event_handler_def Let_def split: registration.splits option.splits prod.splits)

lemma unload_each_loaded: "loaded_plugins (snd (fst (unload_each host ps dm w))) = loaded_plugins (snd dm)"
  by (induction host ps dm w rule: unload_each.induct) (simp_all add: apply_registrations_loaded split: prod.splits)

text \<open>
  Loading, told by its outcomes: the plugins that came up, what they registered while
  \<^verbatim>\<open>on_load\<close> ran, and whether it succeeded.
\<close>

type_synonym load_outcome = "nat \<times> plugin_metadata \<times> registration list \<times> bool"

definition load_one :: "'w wasm_host \<Rightarrow> string \<times> bool \<Rightarrow> 'w \<Rightarrow> load_outcome list \<times> 'w" where
  "load_one host e w =
     (if snd e \<and> can_load (fst e) then
        (case load_plugin host (fst e) w of
           (Inl _, w) \<Rightarrow> ([], w)
         | (Inr (plugin, md), w) \<Rightarrow>
             (case on_load host plugin (plugin_context_new md (plugin_data_folder md)) w of
                (r, rs, w) \<Rightarrow> ([(plugin, md, rs, \<not> isl r)], w)))
      else ([], w))"

fun load_outcomes :: "'w wasm_host \<Rightarrow> (string \<times> bool) list \<Rightarrow> 'w \<Rightarrow> load_outcome list \<times> 'w" where
  "load_outcomes host [] w = ([], w)"
| "load_outcomes host (e # es) w =
     (case load_one host e w of (os, w) \<Rightarrow> (case load_outcomes host es w of (os', w) \<Rightarrow> (os @ os', w)))"

definition register_outcome :: "load_outcome \<Rightarrow> command_dispatcher \<times> plugin_manager \<Rightarrow> command_dispatcher \<times> plugin_manager" where
  "register_outcome x dm =
     (case x of (plugin, md, rs, ok) \<Rightarrow>
        (case apply_registrations plugin rs dm of (d, m) \<Rightarrow>
           (d, if ok then m\<lparr>loaded_plugins := loaded_plugins m @ [(plugin, md)]\<rparr> else m)))"

abbreviation succeeded :: "load_outcome list \<Rightarrow> load_outcome list" where
  "succeeded \<equiv> filter (\<lambda>(_, _, _, ok). ok)"

lemma load_entries_outcomes:
  "load_entries host es dm w =
     (case load_outcomes host es w of (os, w') \<Rightarrow> (length (succeeded os), fold register_outcome os dm, w'))"
proof (induction es arbitrary: dm w)
  case (Cons e es)
  then show ?case
    by (cases e) (auto simp: load_one_def register_outcome_def Let_def split: prod.splits sum.splits)
qed simp

definition outcome_handlers :: "load_outcome \<Rightarrow> handler_entry list" where
  "outcome_handlers x =
     (case x of (plugin, _, rs, _) \<Rightarrow>
        concat (map (\<lambda>r. case r of RegisterEvent t p h \<Rightarrow> [(t, p, h, plugin)] | RegisterCommand _ _ _ _ _ \<Rightarrow> []) rs))"

lemma register_all_append: "register_all (xs @ ys) m = register_all ys (register_all xs m)"
  by (simp add: register_all_def)

lemma register_all_Cons: "register_all (x # xs) m = register_all xs (register_all [x] m)"
  by (simp add: register_all_def)

lemma apply_registrations_handlers:
  assumes "proxy_ctx m"
  shows "snd (apply_registrations plugin rs (d, m)) = register_all (outcome_handlers (plugin, md, rs, ok)) m"
  using assms
proof (induction rs arbitrary: d m)
  case (Cons r rs)
  then show ?case
    by (cases r) (simp_all add: apply_registrations_def apply_registration_def outcome_handlers_def register_all_Cons[of _ "_ @ _"]
      register_all_Cons[of _ "concat _"] register_event_handler_def Let_def register_command_def, simp_all add: register_all_def register_event_handler_def Let_def)
qed (simp add: apply_registrations_def outcome_handlers_def register_all_def)

lemma register_all_keeps:
  "proxy_ctx (register_all xs m) = proxy_ctx m" "loaded_plugins (register_all xs m) = loaded_plugins m"
  unfolding register_all_def by (induction xs arbitrary: m) (auto simp: register_event_handler_def Let_def)

lemma handlers_for_loaded [simp]: "handlers_for (m\<lparr>loaded_plugins := ps\<rparr>) t = handlers_for m t"
  by (simp add: handlers_for_def)

lemma register_outcomes:
  assumes "proxy_ctx m"
    and "\<forall>t. handlers_for m t = sort_key priority (map as_handler (filter (\<lambda>r. fst r = t) past))"
  shows "handlers_for (snd (fold register_outcome os (d, m))) t
      = sort_key priority (map as_handler (filter (\<lambda>r. fst r = t) (past @ concat (map outcome_handlers os))))
    \<and> loaded_plugins (snd (fold register_outcome os (d, m)))
      = loaded_plugins m @ map (\<lambda>(plugin, md, _). (plugin, md)) (succeeded os)"
  using assms
proof (induction os arbitrary: d m past)
  case (Cons x os)
  obtain plugin md rs ok where x: "x = (plugin, md, rs, ok)" by (metis prod_cases4)
  obtain d1 m1 where r: "register_outcome x (d, m) = (d1, m1)" by fastforce
  have m1: "m1 = (let m' = register_all (outcome_handlers x) m in
      if ok then m'\<lparr>loaded_plugins := loaded_plugins m' @ [(plugin, md)]\<rparr> else m')"
    using r apply_registrations_handlers[OF Cons.prems(1), of plugin rs d md ok]
    by (auto simp: register_outcome_def x split: prod.splits)
  have c: "proxy_ctx m1" using Cons.prems(1) by (simp add: m1 Let_def register_all_keeps)
  have h: "\<forall>t. handlers_for m1 t = sort_key priority (map as_handler (filter (\<lambda>r. fst r = t) (past @ outcome_handlers x)))"
    using handlers_for_register_all[OF Cons.prems(2), of "outcome_handlers x"] by (simp add: m1 Let_def)
  have "loaded_plugins m1 = loaded_plugins m @ map (\<lambda>(plugin, md, _). (plugin, md)) (succeeded [x])"
    by (simp add: m1 Let_def x register_all_keeps)
  with Cons.IH[OF c h, of d1] r show ?case by (cases ok) (simp_all add: x)
qed simp

section \<open>Properties\<close>

text \<open>
  C37: handlers run in priority order, and handlers of equal priority in the order in which they
  were registered: after any sequence of registrations the handlers of an event are the stable
  sort by priority of the registrations for that event.
\<close>
theorem handlers_in_priority_order:
  "handlers_for (register_all regs (plugin_manager_new dir)) t
     = sort_key priority (map as_handler (filter (\<lambda>r. fst r = t) regs))"
proof -
  have "\<forall>t. handlers_for (plugin_manager_new dir) t = sort_key priority (map as_handler (filter (\<lambda>r. fst r = t) []))"
    by (simp add: handlers_for_def plugin_manager_new_def)
  from handlers_for_register_all[OF this, of regs] show ?thesis by simp
qed

text \<open>
  C36: loading takes every plugin file in turn: the plugins counted and kept are those whose \<^verbatim>\<open>on_load\<close>
  succeeded, and the handlers of an event are the stable sort by priority of what all plugins
  registered, in the order of loading. That includes the plugins whose \<^verbatim>\<open>on_load\<close> failed: what they had
  registered before they failed stays registered.
\<close>
theorem load_plugins_outcome:
  assumes "load_plugins host (Some (Some es)) (d, init_proxy_context (plugin_manager_new dir)) w = (n, (d', m'), w')"
  shows "\<exists>os. load_outcomes host es w = (os, w') \<and> n = length (succeeded os)
    \<and> loaded_plugins m' = map (\<lambda>(plugin, md, _). (plugin, md)) (succeeded os)
    \<and> handlers_for m' t = sort_key priority (map as_handler (filter (\<lambda>r. fst r = t) (concat (map outcome_handlers os))))"
proof -
  let ?m = "init_proxy_context (plugin_manager_new dir)"
  obtain os where os: "load_outcomes host es w = (os, w')" "n = length (succeeded os)" "fold register_outcome os (d, ?m) = (d', m')"
    using assms by (auto simp: load_plugins_def load_entries_outcomes split: prod.splits)
  have "\<forall>t. handlers_for ?m t = sort_key priority (map as_handler (filter (\<lambda>r. fst r = t) []))"
    by (simp add: handlers_for_def plugin_manager_new_def init_proxy_context_def)
  from register_outcomes[OF _ this, of os d t] os show ?thesis
    by (simp add: init_proxy_context_def plugin_manager_new_def)
qed

text \<open>
  C38: a cancellation is final: if a pre-login event ends up cancelled, some handler cancelled it,
  the handlers before it did not, and the outcome and every plugin's state are what they would be
  had no handler been registered after it.
\<close>
theorem pre_login_cancellation_final:
  assumes "fire_player_pre_login host m e w = (e', w')" and "pre_cancelled e'" and "\<not> pre_cancelled e"
  shows "\<exists>hs1 h hs2. handlers_for m EvPlayerPreLogin = hs1 @ h # hs2
    \<and> (\<forall>m'. handlers_for m' EvPlayerPreLogin = hs1 \<longrightarrow> \<not> pre_cancelled (fst (fire_player_pre_login host m' e w)))
    \<and> (\<forall>m'. handlers_for m' EvPlayerPreLogin = hs1 @ [h] \<longrightarrow> fire_player_pre_login host m' e w = (e', w'))"
proof -
  obtain hs1 h hs2 where hs: "handlers_for m EvPlayerPreLogin = hs1 @ h # hs2"
    and before: "\<And>m'. handlers_for m' EvPlayerPreLogin = hs1 \<Longrightarrow> \<not> pre_cancelled (fst (fire_player_pre_login host m' e w))"
    and after: "\<And>m'. handlers_for m' EvPlayerPreLogin = hs1 @ [h] \<Longrightarrow> fire_player_pre_login host m' e w = (e', w')"
    using dispatch_stopped[OF assms(1)[unfolded fire_player_pre_login_def] assms(2,3)]
    unfolding fire_player_pre_login_def by fastforce
  then show ?thesis by blast
qed

definition demo_host :: "nat wasm_host" where
  "demo_host =
     \<lparr>handle_event = (\<lambda>p i ev w. if i = 2 then
          (case ev of PlayerPreLogin e \<Rightarrow> (Inr (PlayerPreLogin (e\<lparr>pre_cancelled := True, pre_cancel_reason := Some ''no''\<rparr>)), Suc w)
           | _ \<Rightarrow> (Inl ''trap'', Suc w)) else (Inr ev, Suc w)),
      handle_plugin_command = (\<lambda>_ _ _ _ w. (Inr (Inr 1), w)), handle_suggestion = (\<lambda>_ _ _ _ w. (Inr [], w)),
      load_plugin = (\<lambda>_ w. (Inl ''no'', w)), on_load = (\<lambda>_ _ w. (Inr (), [], w)), on_unload = (\<lambda>_ _ w. (Inr (), [], w))\<rparr>"

text \<open>Two plugins, one of which fails after registering a handler.\<close>

definition loading_host :: "nat wasm_host" where
  "loading_host = demo_host\<lparr>
     load_plugin := (\<lambda>path w. (Inr (w, \<lparr>meta_name = path, meta_version = ''1'', meta_authors = [], meta_description = None,
       meta_dependencies = []\<rparr>), Suc w)),
     on_load := (\<lambda>p c w. (if p = 0 then Inl ''no database'' else Inr (),
       [RegisterEvent EvPlayerChat (if p = 0 then High else Low) 7], w))\<rparr>"

theorem load_plugins_outcome_witness:
  "\<exists>d' m' w'. load_plugins loading_host (Some (Some [(''plugins/a.wasm'', True), (''plugins/notes.txt'', True), (''plugins/b.WASM'', True)]))
       (dispatcher_new, init_proxy_context (plugin_manager_new ''plugins'')) 0 = (1, (d', m'), w')
     \<and> map fst (loaded_plugins m') = [1] \<and> map handler_plugin (handlers_for m' EvPlayerChat) = [1, 0]"
proof -
  let ?es = "[(''plugins/a.wasm'', True), (''plugins/notes.txt'', True), (''plugins/b.WASM'', True)]"
  obtain n d' m' w' where l: "load_plugins loading_host (Some (Some ?es))
      (dispatcher_new, init_proxy_context (plugin_manager_new ''plugins'')) 0 = (n, (d', m'), w')"
    by (metis prod.collapse)
  from load_plugins_outcome[OF l, of EvPlayerChat] obtain os where os: "load_outcomes loading_host ?es 0 = (os, w')"
      "n = length (succeeded os)" "loaded_plugins m' = map (\<lambda>(plugin, md, _). (plugin, md)) (succeeded os)"
      "handlers_for m' EvPlayerChat = sort_key priority (map as_handler (filter (\<lambda>r. fst r = EvPlayerChat) (concat (map outcome_handlers os))))"
    by blast
  have v: "case load_outcomes loading_host ?es 0 of (os, _) \<Rightarrow>
      length (succeeded os) = 1 \<and> map fst (succeeded os) = [1]
      \<and> map handler_plugin (sort_key priority (map as_handler (filter (\<lambda>r. fst r = EvPlayerChat) (concat (map outcome_handlers os))))) = [1, 0]"
    by code_simp
  have f: "map fst (map (\<lambda>(plugin, md, _). (plugin, md)) xs) = map fst xs" for xs :: "load_outcome list" by auto
  from v[unfolded os(1) case_prod_conv] have "n = 1" "map fst (loaded_plugins m') = [1]"
    "map handler_plugin (handlers_for m' EvPlayerChat) = [1, 0]" unfolding os(2-4) f by blast+
  with l show ?thesis by (intro exI conjI) simp_all
qed

definition demo_pre_login :: player_pre_login_event where
  "demo_pre_login = \<lparr>pre_client_ip = ''10.0.0.1'', pre_username = ''Alex'', pre_protocol_version = 765,
     pre_virtual_host = ''play.example.com'', pre_cancelled = False, pre_cancel_reason = None\<rparr>"

definition demo_manager :: plugin_manager where
  "demo_manager = register_all [(EvPlayerPreLogin, High, 3, 0), (EvPlayerPreLogin, Normal, 2, 0),
     (EvPlayerPreLogin, Low, 1, 0)] (plugin_manager_new ''plugins'')"

theorem pre_login_cancellation_final_witness:
  "pre_cancelled (fst (fire_player_pre_login demo_host demo_manager demo_pre_login 0))
   \<and> snd (fire_player_pre_login demo_host demo_manager demo_pre_login 0) = 2
   \<and> (\<exists>hs1 h hs2. handlers_for demo_manager EvPlayerPreLogin = hs1 @ h # hs2
       \<and> (\<forall>m'. handlers_for m' EvPlayerPreLogin = hs1 @ [h] \<longrightarrow>
            snd (fire_player_pre_login demo_host m' demo_pre_login 0) = 2))"
proof -
  obtain e' w' where r: "fire_player_pre_login demo_host demo_manager demo_pre_login 0 = (e', w')"
    by (cases "fire_player_pre_login demo_host demo_manager demo_pre_login 0")
  have c: "pre_cancelled (fst (fire_player_pre_login demo_host demo_manager demo_pre_login 0))"
    "snd (fire_player_pre_login demo_host demo_manager demo_pre_login 0) = 2" by code_simp+
  have n: "\<not> pre_cancelled demo_pre_login" by (simp add: demo_pre_login_def)
  from r c have "pre_cancelled e'" "w' = 2" by simp_all
  from pre_login_cancellation_final[OF r this(1) n] obtain hs1 h hs2 where
      "handlers_for demo_manager EvPlayerPreLogin = hs1 @ h # hs2"
      "\<forall>m'. handlers_for m' EvPlayerPreLogin = hs1 @ [h] \<longrightarrow> fire_player_pre_login demo_host m' demo_pre_login 0 = (e', w')"
    by blast
  then have "handlers_for demo_manager EvPlayerPreLogin = hs1 @ h # hs2
      \<and> (\<forall>m'. handlers_for m' EvPlayerPreLogin = hs1 @ [h] \<longrightarrow>
            snd (fire_player_pre_login demo_host m' demo_pre_login 0) = 2)"
    using \<open>w' = 2\<close> by simp
  with c show ?thesis by blast
qed


text \<open>
  A broken plugin does not disturb the others: a handler that fails on every event, leaving the
  plugins' state alone, has no influence on how a server connection is decided.
\<close>
theorem failing_handler_isolated:
  assumes "\<And>e w. \<exists>err. handle_event host (handler_plugin h) (handler_id h) (ServerConnect e) w = (Inl err, w)"
    and "handlers_for m EvServerConnect = hs @ h # hs'" and "handlers_for m' EvServerConnect = hs @ hs'"
  shows "fire_server_connect host m e w = fire_server_connect host m' e w"
proof -
  obtain err where err: "\<And>e w. handle_event host (handler_plugin h) (handler_id h) (ServerConnect e) w = (Inl (err e w), w)"
    using assms(1) by metis
  then show ?thesis
    unfolding fire_server_connect_def assms(2,3) by (rule dispatch_skip_errors)
qed

definition demo_connect :: server_connect_event where
  "demo_connect = \<lparr>connect_uuid = ''u'', connect_username = ''Alex'', connect_current_server = None,
     connect_target_server = ''lobby'', connect_cancelled = False, connect_cancel_reason = None\<rparr>"

theorem failing_handler_isolated_witness:
  "fire_server_connect (demo_host\<lparr>handle_event := (\<lambda>p i ev w. if p = 1 then (Inl ''trap'', w) else (Inr ev, Suc w))\<rparr>)
      (register_all [(EvServerConnect, Low, 0, 0), (EvServerConnect, Normal, 0, 1)] (plugin_manager_new [])) demo_connect 0
   = fire_server_connect (demo_host\<lparr>handle_event := (\<lambda>p i ev w. if p = 1 then (Inl ''trap'', w) else (Inr ev, Suc w))\<rparr>)
      (register_all [(EvServerConnect, Low, 0, 0)] (plugin_manager_new [])) demo_connect 0"
proof (rule failing_handler_isolated[where hs = "[as_handler (EvServerConnect, Low, 0, 0)]"
      and h = "as_handler (EvServerConnect, Normal, 0, 1)" and hs' = "[]"])
  show "handlers_for (register_all [(EvServerConnect, Low, 0, 0), (EvServerConnect, Normal, 0, 1)] (plugin_manager_new []))
      EvServerConnect = [as_handler (EvServerConnect, Low, 0, 0)] @ as_handler (EvServerConnect, Normal, 0, 1) # []"
    by code_simp
  show "handlers_for (register_all [(EvServerConnect, Low, 0, 0)] (plugin_manager_new [])) EvServerConnect
      = [as_handler (EvServerConnect, Low, 0, 0)] @ []" by code_simp
qed (simp add: as_handler_def)

end
