(* ===== verification/Plugin_Host.thy ===== *)
theory Plugin_Host
  imports Plugin_Manager
begin

text \<open>
  \<^verbatim>\<open>src/src/plugin/loader/wasm/wasm_host/\<close>: the functions the proxy offers its plugins, and how a
  plugin is brought up. A host function sees the proxy through \<^verbatim>\<open>proxy_plugin_context\<close> and
  returns its answer and the actions it puts into players' channels. UUID parsing and printing
  (\<^verbatim>\<open>uuid_lib\<close>) and the WebAssembly engine (\<^verbatim>\<open>engine\<close>) are third-party code.
\<close>

section \<open>Host functions\<close>

record uuid_lib =
  parse_str :: "string \<Rightarrow> uuid option"
  uuid_to_string :: "uuid \<Rightarrow> string"

record proxy_plugin_context =
  ctx_config :: config
  ctx_sessions :: session_manager
  ctx_dispatcher :: command_dispatcher
  ctx_manager :: plugin_manager

record plugin_host_state =
  resource_table :: "(u32, plugin_context) hmap"
  host_proxy :: "proxy_plugin_context option"
  plugin_name :: string
  host_data_folder :: string
  host_plugin :: "nat option"

definition plugin_host_state_new ::
  "string \<Rightarrow> string \<Rightarrow> proxy_plugin_context option \<Rightarrow> plugin_host_state" where
  "plugin_host_state_new name folder proxy =
     \<lparr>resource_table = [], host_proxy = proxy, plugin_name = name,
      host_data_folder = folder, host_plugin = None\<rparr>"

text \<open>
  The index of a new resource is chosen by the table of the engine (\<^verbatim>\<open>alloc\<close>, given the indices in use), which
  may be full.
\<close>

definition add_context ::
  "(u32 list \<Rightarrow> string + u32) \<Rightarrow> plugin_context \<Rightarrow> plugin_host_state \<Rightarrow> (string + u32) \<times> plugin_host_state" where
  "add_context alloc c st =
     (case alloc (map fst (resource_table st)) of
        Inl e \<Rightarrow> (Inl e, st)
      | Inr rep \<Rightarrow> (Inr rep, st\<lparr>resource_table := AList.update rep c (resource_table st)\<rparr>))"

definition get_context :: "u32 \<Rightarrow> plugin_host_state \<Rightarrow> string + plugin_context" where
  "get_context rep st =
     (case map_of (resource_table st) rep of
        Some c \<Rightarrow> Inr c | None \<Rightarrow> Inl ''resource not present'')"

record player_info =
  info_uuid :: string
  info_username :: string
  info_current_server :: string
  info_client_ip :: string
  info_protocol_version :: u32

record server_info =
  info_name :: string
  info_address :: string
  info_player_count :: u32

definition to_player_info :: "uuid_lib \<Rightarrow> player_session \<Rightarrow> player_info" where
  "to_player_info ul s =
     \<lparr>info_uuid = uuid_to_string ul (session_uuid s), info_username = username s,
      info_current_server = current_server s, info_client_ip = client_ip s,
      info_protocol_version = session_protocol s\<rparr>"

text \<open>The session of a textual UUID, as most host functions look it up.\<close>

definition session_by_uuid :: "uuid_lib \<Rightarrow> proxy_plugin_context \<Rightarrow> string \<Rightarrow> player_session option" where
  "session_by_uuid ul proxy txt =
     (case parse_str ul txt of
        None \<Rightarrow> None
      | Some u \<Rightarrow> find (\<lambda>s. session_uuid s = u) (list_sessions (ctx_sessions proxy)))"

definition host_reply ::
  "uuid_lib \<Rightarrow> plugin_host_state \<Rightarrow> wit_sender \<Rightarrow> string \<Rightarrow> effect list" where
  "host_reply ul st ws message =
     (case host_proxy st of
        None \<Rightarrow> []
      | Some proxy \<Rightarrow>
          if \<not> wit_is_player ws then [ConsoleLine (Text (''[Console] '' @ message))]
          else case wit_uuid ws of
            None \<Rightarrow> []
          | Some uuid_str \<Rightarrow>
              (case session_by_uuid ul proxy uuid_str of
                 None \<Rightarrow> [] | Some s \<Rightarrow> [Send (action_tx s) (Message (Text message))]))"

definition get_player_count :: "plugin_host_state \<Rightarrow> u32" where
  "get_player_count st =
     (case host_proxy st of Some p \<Rightarrow> of_nat (session_count (ctx_sessions p)) | None \<Rightarrow> 0)"

definition get_players :: "uuid_lib \<Rightarrow> plugin_host_state \<Rightarrow> player_info list" where
  "get_players ul st =
     (case host_proxy st of
        Some p \<Rightarrow> map (to_player_info ul) (list_sessions (ctx_sessions p)) | None \<Rightarrow> [])"

definition get_player_by_name :: "uuid_lib \<Rightarrow> plugin_host_state \<Rightarrow> string \<Rightarrow> player_info option" where
  "get_player_by_name ul st u =
     (case host_proxy st of
        Some p \<Rightarrow> map_option (to_player_info ul) (get_session u (ctx_sessions p)) | None \<Rightarrow> None)"

definition get_player_by_uuid :: "uuid_lib \<Rightarrow> plugin_host_state \<Rightarrow> string \<Rightarrow> player_info option" where
  "get_player_by_uuid ul st txt =
     (case host_proxy st of
        Some p \<Rightarrow> map_option (to_player_info ul) (session_by_uuid ul p txt) | None \<Rightarrow> None)"

definition get_servers :: "plugin_host_state \<Rightarrow> server_info list" where
  "get_servers st =
     (case host_proxy st of
        None \<Rightarrow> []
      | Some p \<Rightarrow>
          let ss = list_sessions (ctx_sessions p)
          in map (\<lambda>(name, srv). \<lparr>info_name = name, info_address = address srv,
               info_player_count = of_nat (length (filter (\<lambda>s. current_server s = name) ss))\<rparr>)
             (servers (ctx_config p)))"

definition broadcast :: "plugin_host_state \<Rightarrow> string \<Rightarrow> effect list" where
  "broadcast st message =
     (case host_proxy st of
        None \<Rightarrow> []
      | Some p \<Rightarrow>
          map (\<lambda>s. Send (action_tx s) (Message (Text message))) (list_sessions (ctx_sessions p))
          @ [ConsoleLine (Text (''[Broadcast] '' @ message))])"

definition to_player :: "uuid_lib \<Rightarrow> plugin_host_state \<Rightarrow> string \<Rightarrow> player_action \<Rightarrow> bool \<times> effect list" where
  "to_player ul st txt act =
     (case host_proxy st of
        None \<Rightarrow> (False, [])
      | Some p \<Rightarrow>
          (case session_by_uuid ul p txt of
             None \<Rightarrow> (False, []) | Some s \<Rightarrow> (True, [Send (action_tx s) act])))"

definition host_send_message :: "uuid_lib \<Rightarrow> plugin_host_state \<Rightarrow> string \<Rightarrow> string \<Rightarrow> bool \<times> effect list" where
  "host_send_message ul st player_uuid message = to_player ul st player_uuid (Message (Text message))"

definition disconnect_player :: "uuid_lib \<Rightarrow> plugin_host_state \<Rightarrow> string \<Rightarrow> string \<Rightarrow> bool \<times> effect list" where
  "disconnect_player ul st player_uuid reason = to_player ul st player_uuid (Disconnect reason)"

definition connect_player :: "uuid_lib \<Rightarrow> plugin_host_state \<Rightarrow> string \<Rightarrow> string \<Rightarrow> bool \<times> effect list" where
  "connect_player ul st player_uuid server_name =
     (case host_proxy st of
        None \<Rightarrow> (False, [])
      | Some p \<Rightarrow>
          if map_of (servers (ctx_config p)) server_name = None then (False, [])
          else to_player ul st player_uuid (Connect server_name))"

definition send_plugin_message ::
  "uuid_lib \<Rightarrow> plugin_host_state \<Rightarrow> string \<Rightarrow> string \<Rightarrow> bytes \<Rightarrow> bool \<times> effect list" where
  "send_plugin_message ul st player_uuid chan dat = to_player ul st player_uuid (PluginMessage chan dat)"

section \<open>Registration by plugins\<close>

definition with_manager :: "(plugin_manager \<Rightarrow> plugin_manager) \<Rightarrow> plugin_host_state \<Rightarrow> plugin_host_state" where
  "with_manager f st = st\<lparr>host_proxy := map_option (\<lambda>p. p\<lparr>ctx_manager := f (ctx_manager p)\<rparr>) (host_proxy st)\<rparr>"

definition host_register_event ::
  "u32 \<Rightarrow> u32 \<Rightarrow> event_type \<Rightarrow> event_priority \<Rightarrow> plugin_host_state \<Rightarrow> (string + unit) \<times> plugin_host_state" where
  "host_register_event rep hid t prio st =
     (case host_plugin st of
        None \<Rightarrow> (Inl ''Plugin reference is no longer valid'', st)
      | Some plugin \<Rightarrow>
          let st = with_manager (register_event_handler t prio hid plugin) st
          in case get_context rep st of
               Inl e \<Rightarrow> (Inl e, st)
             | Inr c \<Rightarrow>
                 (Inr (), st\<lparr>resource_table := AList.update rep
                    (c\<lparr>registered_events := registered_events c @ [(hid, t, prio)]\<rparr>) (resource_table st)\<rparr>))"

definition host_register_command ::
  "u32 \<Rightarrow> u32 \<Rightarrow> string \<Rightarrow> string \<Rightarrow> string list \<Rightarrow> string option \<Rightarrow> plugin_host_state
    \<Rightarrow> (string + unit) \<times> plugin_host_state" where
  "host_register_command rep command_id name description aliases permission st =
     (case host_plugin st of
        None \<Rightarrow> (Inl ''Plugin reference is no longer valid'', st)
      | Some plugin \<Rightarrow>
          let st = st\<lparr>host_proxy := map_option (\<lambda>p. p\<lparr>ctx_dispatcher :=
                the (register_command command_id name description aliases permission plugin
                  (Some (ctx_dispatcher p)))\<rparr>) (host_proxy st)\<rparr>
          in case get_context rep st of
               Inl e \<Rightarrow> (Inl e, st)
             | Inr c \<Rightarrow>
                 (Inr (), st\<lparr>resource_table := AList.update rep
                    (c\<lparr>registered_commands := registered_commands c @ [command_id]\<rparr>) (resource_table st)\<rparr>))"

definition get_data_folder :: "plugin_host_state \<Rightarrow> string" where
  "get_data_folder st = host_data_folder st"

definition drop_context :: "u32 \<Rightarrow> plugin_host_state \<Rightarrow> plugin_host_state" where
  "drop_context rep st = st\<lparr>resource_table := AList.delete rep (resource_table st)\<rparr>"

section \<open>Bringing up a plugin\<close>

datatype plugin_init_error =
    FileReadFailed string string
  | ComponentCompilationFailed string
  | LinkerSetupFailed string
  | InstantiationFailed string
  | InitPluginFailed string
  | GetMetadataFailed string
  | EngineCreationFailed string

text \<open>The engine, third-party code, by its operations in the order they are used.\<close>

record ('comp, 'inst) engine =
  compile :: "bytes \<Rightarrow> string + 'comp"
  instantiate_pre :: "'comp \<Rightarrow> string + 'comp"
  plugin_pre :: "'comp \<Rightarrow> string + 'comp"
  instantiate :: "'comp \<Rightarrow> plugin_host_state \<Rightarrow> string + 'inst"
  call_init :: "'inst \<Rightarrow> string + 'inst"
  call_metadata :: "'inst \<Rightarrow> string + plugin_metadata"
  start_store :: "'inst \<Rightarrow> string + 'inst"
  call_store :: "'inst \<Rightarrow> string + 'inst"

definition path_file_stem :: "string \<Rightarrow> string" where
  "path_file_stem p =
     (let n = path_file_name p
      in if n = ''..'' then []
         else case rsplit_once CHR ''.'' n of
           Some (before, after) \<Rightarrow> if before = [] then n else before
         | None \<Rightarrow> n)"

definition map_error :: "('e \<Rightarrow> 'f) \<Rightarrow> 'e + 'a \<Rightarrow> 'f + 'a" where
  "map_error f r = (case r of Inl e \<Rightarrow> Inl (f e) | Inr a \<Rightarrow> Inr a)"

definition and_on :: "'e + 'a \<Rightarrow> ('a \<Rightarrow> 'e + 'b) \<Rightarrow> 'e + 'b" where
  "and_on r f = (case r of Inl e \<Rightarrow> Inl e | Inr a \<Rightarrow> f a)"

lemma and_on_Inr: "and_on r f = Inr b \<longleftrightarrow> (\<exists>a. r = Inr a \<and> f a = Inr b)"
  by (cases r) (simp_all add: and_on_def)

lemma map_error_Inr: "map_error f r = Inr a \<longleftrightarrow> r = Inr a"
  by (cases r) (simp_all add: map_error_def)

text \<open>Setting up the runtime: the engine, then the linker with the host functions.\<close>

definition plugin_runtime_new :: "string + unit \<Rightarrow> string + unit \<Rightarrow> plugin_init_error + unit" where
  "plugin_runtime_new engine_new setup_linker =
     and_on (map_error EngineCreationFailed engine_new) (\<lambda>_. map_error LinkerSetupFailed setup_linker)"

definition init_plugin ::
  "('comp, 'inst) engine \<Rightarrow> (string \<Rightarrow> string + bytes) \<Rightarrow> nat \<Rightarrow> string \<Rightarrow> proxy_plugin_context option
    \<Rightarrow> plugin_init_error + 'inst \<times> plugin_host_state \<times> plugin_metadata" where
  "init_plugin eng read_path fresh path proxy =
     and_on (map_error (FileReadFailed path) (read_path path)) (\<lambda>wasm_bytes.
     and_on (map_error ComponentCompilationFailed (compile eng wasm_bytes)) (\<lambda>component.
     and_on (map_error InstantiationFailed (instantiate_pre eng component)) (\<lambda>component.
     and_on (map_error InstantiationFailed (plugin_pre eng component)) (\<lambda>component.
     let filename = path_file_stem path;
         st = plugin_host_state_new filename (path_join ''plugins/data'' filename) proxy
     in
     and_on (map_error InstantiationFailed (instantiate eng component st)) (\<lambda>inst.
     and_on (map_error InitPluginFailed (call_init eng inst)) (\<lambda>inst.
     and_on (map_error GetMetadataFailed (call_metadata eng inst)) (\<lambda>md.
     and_on (map_error InstantiationFailed (start_store eng inst)) (\<lambda>inst.
     and_on (map_error InstantiationFailed (call_store eng inst)) (\<lambda>inst.
     Inr (inst, st\<lparr>plugin_name := meta_name md, host_plugin := Some fresh\<rparr>, md))))))))))"

section \<open>Properties\<close>

text \<open>
  A plugin can send a player only to a server that exists: when a connect request succeeds, it
  has put exactly one connect action into the channel of a session with that UUID, and its target
  is a configured server; when it fails, nothing is sent.
\<close>
theorem connect_player_safe:
  "(case connect_player ul st txt n of
      (False, es) \<Rightarrow> es = []
    | (True, es) \<Rightarrow>
        (\<exists>p s. host_proxy st = Some p \<and> s \<in> set (list_sessions (ctx_sessions p))
          \<and> parse_str ul txt = Some (session_uuid s)
          \<and> n \<in> fst ` set (servers (ctx_config p)) \<and> es = [Send (action_tx s) (Connect n)]))"
proof -
  have "n \<in> fst ` set m" if "map_of m n \<noteq> None" for m :: "(string, backend_config) hmap"
    using that by (simp add: map_of_eq_None_iff)
  then show ?thesis
    by (auto simp: connect_player_def to_player_def session_by_uuid_def find_Some_iff in_set_conv_nth
        split: option.splits if_splits)
qed

lemma sum_indicator: "distinct ns \<Longrightarrow> (\<Sum>n \<leftarrow> ns. if a = n then 1 else 0 :: nat) = (if a \<in> set ns then 1 else 0)"
  by (induction ns) auto

lemma sum_counts:
  assumes "distinct ns"
  shows "(\<Sum>n \<leftarrow> ns. length (filter (\<lambda>s. f s = n) ss)) = length (filter (\<lambda>s. f s \<in> set ns) ss)"
proof (induction ss)
  case (Cons s ss)
  have "(\<Sum>n \<leftarrow> ns. length (filter (\<lambda>s. f s = n) (s # ss))) =
      (\<Sum>n \<leftarrow> ns. (if f s = n then 1 else 0) + length (filter (\<lambda>s. f s = n) ss))"
    by (intro arg_cong[where f = sum_list] map_cong) auto
  then show ?case using Cons sum_indicator[OF assms, of "f s"] by (simp add: sum_list_addf)
qed simp

text \<open>
  The player counts plugins see add up: with unique server names the counts of the configured
  servers sum to the number of sessions whose current server is configured.
\<close>
theorem get_servers_counts:
  assumes "host_proxy st = Some p" and "distinct (map fst (servers (ctx_config p)))"
    and "length (list_sessions (ctx_sessions p)) < 2 ^ 32"
  shows "(\<Sum>i \<leftarrow> get_servers st. unat (info_player_count i)) =
    length (filter (\<lambda>s. current_server s \<in> fst ` set (servers (ctx_config p))) (list_sessions (ctx_sessions p)))"
proof -
  let ?ss = "list_sessions (ctx_sessions p)"
  have c: "unat (of_nat (length (filter P ?ss)) :: u32) = length (filter P ?ss)" for P
    using assms(3) le_less_trans[OF length_filter_le[of P ?ss]] by (simp add: unat_of_nat)
  have "(\<Sum>i \<leftarrow> get_servers st. unat (info_player_count i)) =
      (\<Sum>n \<leftarrow> map fst (servers (ctx_config p)). length (filter (\<lambda>s. current_server s = n) ?ss))"
    using assms(1) by (simp add: get_servers_def Let_def split_beta comp_def c)
  also have "\<dots> = length (filter (\<lambda>s. current_server s \<in> set (map fst (servers (ctx_config p)))) ?ss)"
    by (rule sum_counts[OF assms(2)])
  finally show ?thesis by simp
qed

definition demo_context :: proxy_plugin_context where
  "demo_context = \<lparr>ctx_config = config_default, ctx_sessions = register steve session_manager_new,
     ctx_dispatcher = dispatcher_new, ctx_manager = plugin_manager_new ''plugins''\<rparr>"

theorem get_servers_counts_witness:
  "(\<Sum>i \<leftarrow> get_servers (plugin_host_state_new ''p'' ''f'' (Some demo_context)). unat (info_player_count i)) = 1"
proof -
  let ?st = "plugin_host_state_new ''p'' ''f'' (Some demo_context)"
  have p: "host_proxy ?st = Some demo_context" by (simp add: plugin_host_state_new_def)
  have d: "distinct (map fst (servers (ctx_config demo_context)))" by code_simp
  have one: "list_sessions (ctx_sessions demo_context) = [steve]" by code_simp
  have l: "length (list_sessions (ctx_sessions demo_context)) < 2 ^ 32" by (simp add: one)
  have "current_server steve \<in> fst ` set (servers (ctx_config demo_context))" by code_simp
  with get_servers_counts[OF p d l] show ?thesis by (simp add: one)
qed

lemma path_file_stem_relative: "\<not> starts_with ''/'' (path_file_stem p)"
proof -
  have n: "CHR ''/'' \<notin> set (path_file_name p)"
    by (auto simp: path_file_name_def rsplit_once_None_iff dest: rsplit_once_SomeD split: option.splits)
  then have "CHR ''/'' \<notin> set (path_file_stem p)"
    by (auto simp: path_file_stem_def Let_def dest!: rsplit_once_SomeD split: option.splits)
  then show ?thesis by (cases "path_file_stem p") (auto simp: starts_with_def)
qed

text \<open>
  The data folder a plugin is told is not the one its context is created with: a plugin whose
  file is not named after the name in its metadata gets a folder named after the file, while
  loading it creates its context with a folder named after the metadata.
\<close>
theorem data_folder_mismatch:
  assumes "init_plugin eng rd fresh path proxy = Inr (inst, st, md)" and "path_file_stem path \<noteq> meta_name md"
  shows "get_data_folder st \<noteq> data_folder (plugin_context_new md (plugin_data_folder md))"
proof -
  have "host_data_folder st = path_join ''plugins/data'' (path_file_stem path)"
    using assms(1) by (auto simp: init_plugin_def and_on_Inr map_error_Inr plugin_host_state_new_def Let_def)
  moreover have "\<not> starts_with ''/'' (path_file_stem path)"
    using path_file_stem_relative by blast
  ultimately show ?thesis using assms(2)
    by (cases "meta_name md") (auto simp: get_data_folder_def plugin_context_new_def plugin_data_folder_def path_join_def starts_with_def)
qed

definition demo_engine :: "(unit, unit) engine" where
  "demo_engine = \<lparr>compile = (\<lambda>_. Inr ()), instantiate_pre = Inr, plugin_pre = Inr, instantiate = (\<lambda>_ _. Inr ()), call_init = Inr,
     call_metadata = (\<lambda>_. Inr \<lparr>meta_name = ''Welcome'', meta_version = ''1.0'', meta_authors = [],
       meta_description = None, meta_dependencies = []\<rparr>), start_store = Inr, call_store = Inr\<rparr>"

theorem data_folder_mismatch_witness:
  "\<exists>st md. init_plugin demo_engine (\<lambda>_. Inr []) 0 ''plugins/welcome-1.0.wasm'' None = Inr ((), st, md)
     \<and> get_data_folder st \<noteq> data_folder (plugin_context_new md (plugin_data_folder md))"
proof -
  obtain st md where i: "init_plugin demo_engine (\<lambda>_. Inr []) 0 ''plugins/welcome-1.0.wasm'' None = Inr ((), st, md)"
      and md: "meta_name md = ''Welcome''"
    by (simp add: init_plugin_def demo_engine_def Let_def and_on_def map_error_def)
  have "path_file_stem ''plugins/welcome-1.0.wasm'' = ''welcome-1.0''" by code_simp
  with md have "path_file_stem ''plugins/welcome-1.0.wasm'' \<noteq> meta_name md" by simp
  from data_folder_mismatch[OF i this] i show ?thesis by blast
qed

end
