(* ===== verification/Plugin_Runtime.thy ===== *)
theory Plugin_Runtime
  imports Plugin_Host
begin

text \<open>
  \<^verbatim>\<open>WasmPlugin\<close> of \<^verbatim>\<open>src/src/plugin/loader/wasm/wasm_host/mod.rs\<close> and the interface of
  \<^verbatim>\<open>src/wit/\<close>: calls into a plugin, during which the plugin calls the host. The code of a plugin is
  not known; what it does during a call is a tree of host calls, each continued according to the
  host's answer (\<^verbatim>\<open>guest\<close>), and everything here holds for all trees.
\<close>

section \<open>Calls in both directions\<close>

datatype host_call =
    Log string string
  | Reply wit_sender string
  | GetPlayerCount
  | GetPlayers
  | GetPlayerByName string
  | GetPlayerByUuid string
  | GetServers
  | Broadcast string
  | SendMessage string string
  | DisconnectPlayer string string
  | ConnectPlayer string string
  | SendPluginMessage string string bytes
  | ContextRegisterEvent u32 u32 event_type event_priority
  | ContextRegisterCommand u32 u32 string string "string list" "string option"
  | ContextGetDataFolder u32
  | ContextDrop u32

datatype host_answer =
    UnitAnswer
  | CountAnswer u32
  | PlayersAnswer "player_info list"
  | PlayerAnswer "player_info option"
  | ServersAnswer "server_info list"
  | BoolAnswer bool
  | TextAnswer string

text \<open>A line of the log; its level selects only whether and how it is shown.\<close>

definition host_log :: "plugin_host_state \<Rightarrow> string \<Rightarrow> effect list" where
  "host_log st message = [ConsoleLine (Text (''[Plugin: '' @ plugin_name st @ ''] '' @ message))]"

definition yes_no :: "bool \<times> effect list \<Rightarrow> plugin_host_state \<Rightarrow> (string + host_answer) \<times> effect list \<times> plugin_host_state" where
  "yes_no r st = (Inr (BoolAnswer (fst r)), snd r, st)"

definition done_with :: "(string + unit) \<times> plugin_host_state \<Rightarrow> (string + host_answer) \<times> effect list \<times> plugin_host_state" where
  "done_with r = (case r of (Inl e, st) \<Rightarrow> (Inl e, [], st) | (Inr _, st) \<Rightarrow> (Inr UnitAnswer, [], st))"

text \<open>A host call: its answer or the error that ends the guest, the effects, the state.\<close>

fun host_invoke ::
  "uuid_lib \<Rightarrow> host_call \<Rightarrow> plugin_host_state \<Rightarrow> (string + host_answer) \<times> effect list \<times> plugin_host_state" where
  "host_invoke ul (Log level message) st = (Inr UnitAnswer, host_log st message, st)"
| "host_invoke ul (Reply ws message) st = (Inr UnitAnswer, host_reply ul st ws message, st)"
| "host_invoke ul GetPlayerCount st = (Inr (CountAnswer (get_player_count st)), [], st)"
| "host_invoke ul GetPlayers st = (Inr (PlayersAnswer (get_players ul st)), [], st)"
| "host_invoke ul (GetPlayerByName u) st = (Inr (PlayerAnswer (get_player_by_name ul st u)), [], st)"
| "host_invoke ul (GetPlayerByUuid u) st = (Inr (PlayerAnswer (get_player_by_uuid ul st u)), [], st)"
| "host_invoke ul GetServers st = (Inr (ServersAnswer (get_servers st)), [], st)"
| "host_invoke ul (Broadcast message) st = (Inr UnitAnswer, broadcast st message, st)"
| "host_invoke ul (SendMessage u message) st = yes_no (host_send_message ul st u message) st"
| "host_invoke ul (DisconnectPlayer u reason) st = yes_no (disconnect_player ul st u reason) st"
| "host_invoke ul (ConnectPlayer u n) st = yes_no (connect_player ul st u n) st"
| "host_invoke ul (SendPluginMessage u chan dat) st = yes_no (send_plugin_message ul st u chan dat) st"
| "host_invoke ul (ContextRegisterEvent rep hid t prio) st = done_with (host_register_event rep hid t prio st)"
| "host_invoke ul (ContextRegisterCommand rep cid n d al perm) st = done_with (host_register_command rep cid n d al perm st)"
| "host_invoke ul (ContextGetDataFolder rep) st = (Inr (TextAnswer (get_data_folder st)), [], st)"
| "host_invoke ul (ContextDrop rep) st = (Inr UnitAnswer, [], drop_context rep st)"

datatype 'r guest =
    Return 'r
  | Trap string
  | Invoke host_call "host_answer \<Rightarrow> 'r guest"

primrec run_guest ::
  "uuid_lib \<Rightarrow> 'r guest \<Rightarrow> plugin_host_state \<Rightarrow> (string + 'r) \<times> effect list \<times> plugin_host_state" where
  "run_guest ul (Return r) = (\<lambda>st. (Inr r, [], st))"
| "run_guest ul (Trap e) = (\<lambda>st. (Inl e, [], st))"
| "run_guest ul (Invoke c k) = (\<lambda>st.
     case host_invoke ul c st of
       (Inl e, es, st) \<Rightarrow> (Inl e, es, st)
     | (Inr a, es, st) \<Rightarrow> (case run_guest ul (k a) st of (r, es', st) \<Rightarrow> (r, es @ es', st)))"

section \<open>The calls of the proxy\<close>

definition flatten :: "(string + (string + 'a)) \<Rightarrow> string + 'a" where
  "flatten r = (case r of Inl e \<Rightarrow> Inl e | Inr r \<Rightarrow> r)"

text \<open>\<^verbatim>\<open>on_load\<close> and \<^verbatim>\<open>on_unload\<close> first give the guest a context.\<close>

definition wasm_on_load ::
  "(u32 list \<Rightarrow> string + u32) \<Rightarrow> uuid_lib \<Rightarrow> (u32 \<Rightarrow> (string + unit) guest) \<Rightarrow> plugin_context \<Rightarrow> plugin_host_state
    \<Rightarrow> (string + unit) \<times> effect list \<times> plugin_host_state" where
  "wasm_on_load alloc ul on_load_fn c st =
     (case add_context alloc c st of
        (Inl e, st) \<Rightarrow> (Inl e, [], st)
      | (Inr rep, st) \<Rightarrow> (case run_guest ul (on_load_fn rep) st of (r, es, st) \<Rightarrow> (flatten r, es, st)))"

definition wasm_on_unload ::
  "(u32 list \<Rightarrow> string + u32) \<Rightarrow> uuid_lib \<Rightarrow> (u32 \<Rightarrow> (string + unit) guest) \<Rightarrow> plugin_context \<Rightarrow> plugin_host_state
    \<Rightarrow> (string + unit) \<times> effect list \<times> plugin_host_state" where
  "wasm_on_unload alloc ul on_unload_fn c st =
     (case add_context alloc c st of
        (Inl e, st) \<Rightarrow> (Inl e, [], st)
      | (Inr rep, st) \<Rightarrow> (case run_guest ul (on_unload_fn rep) st of (r, es, st) \<Rightarrow> (flatten r, es, st)))"

definition wasm_handle_event ::
  "uuid_lib \<Rightarrow> (u32 \<Rightarrow> event \<Rightarrow> event guest) \<Rightarrow> u32 \<Rightarrow> event \<Rightarrow> plugin_host_state
    \<Rightarrow> (string + event) \<times> effect list \<times> plugin_host_state" where
  "wasm_handle_event ul handle_event_fn hid ev = run_guest ul (handle_event_fn hid ev)"

definition wasm_handle_command ::
  "uuid_lib \<Rightarrow> (u32 \<Rightarrow> wit_sender \<Rightarrow> string list \<Rightarrow> (string + i32) guest) \<Rightarrow> u32 \<Rightarrow> wit_sender \<Rightarrow> string list
    \<Rightarrow> plugin_host_state \<Rightarrow> (string + (string + i32)) \<times> effect list \<times> plugin_host_state" where
  "wasm_handle_command ul handle_command_fn cid ws args = run_guest ul (handle_command_fn cid ws args)"

definition wasm_handle_command_suggestion ::
  "uuid_lib \<Rightarrow> (u32 \<Rightarrow> wit_sender \<Rightarrow> string list \<Rightarrow> string list guest) \<Rightarrow> u32 \<Rightarrow> wit_sender \<Rightarrow> string list
    \<Rightarrow> plugin_host_state \<Rightarrow> (string + string list) \<times> effect list \<times> plugin_host_state" where
  "wasm_handle_command_suggestion ul suggestion_fn cid ws args = run_guest ul (suggestion_fn cid ws args)"

section \<open>What holds of every guest\<close>

text \<open>
  A relation between states that every host call keeps, and a condition that every effect of a host
  call meets, hold of everything a guest does.
\<close>

locale host_contract =
  fixes ul :: uuid_lib and rel :: "plugin_host_state \<Rightarrow> plugin_host_state \<Rightarrow> bool" and allowed :: "plugin_host_state \<Rightarrow> effect \<Rightarrow> bool"
  assumes rel_refl: "rel st st"
    and rel_trans: "rel st st' \<Longrightarrow> rel st' st'' \<Longrightarrow> rel st st''"
    and allowed_back: "rel st st' \<Longrightarrow> allowed st' e \<Longrightarrow> allowed st e"
    and call_rel: "host_invoke ul c st = (r, es, st') \<Longrightarrow> rel st st'"
    and call_allowed: "host_invoke ul c st = (r, es, st') \<Longrightarrow> e \<in> set es \<Longrightarrow> allowed st e"
begin

lemma guest_keeps: "run_guest ul g st = (r, es, st') \<Longrightarrow> rel st st' \<and> (\<forall>e \<in> set es. allowed st e)"
proof (induction g arbitrary: st r es st')
  case (Invoke c k)
  obtain a es1 st1 where c: "host_invoke ul c st = (a, es1, st1)" by (metis prod_cases3)
  show ?case
  proof (cases a)
    case (Inl e)
    with Invoke.prems c call_rel[OF c] call_allowed[OF c] show ?thesis by auto
  next
    case (Inr a')
    obtain r2 es2 st2 where k: "run_guest ul (k a') st1 = (r2, es2, st2)" by (metis prod_cases3)
    from Invoke.IH[OF rangeI k] call_rel[OF c] have "rel st st2" "\<forall>e \<in> set es2. allowed st e"
      by (auto intro: rel_trans allowed_back)
    with Invoke.prems c k Inr call_allowed[OF c] show ?thesis by auto
  qed
qed (auto simp: rel_refl)

end

text \<open>The effects plugins may have: output, and actions for players who are online.\<close>

definition permitted_effect :: "plugin_host_state \<Rightarrow> effect \<Rightarrow> bool" where
  "permitted_effect st e =
     (case e of
        ConsoleLine _ \<Rightarrow> True
      | Send tx a \<Rightarrow>
          (case host_proxy st of
             None \<Rightarrow> False
           | Some p \<Rightarrow> tx \<in> action_tx ` set (list_sessions (ctx_sessions p))
               \<and> (case a of Connect n \<Rightarrow> n \<in> fst ` set (servers (ctx_config p)) | Transfer _ _ \<Rightarrow> False | _ \<Rightarrow> True)))"

lemma permitted_console [simp]: "permitted_effect st (ConsoleLine t)"
  by (simp add: permitted_effect_def)

text \<open>The changes they may make: registrations of their own, once they are loaded.\<close>

definition registers :: "nat option \<Rightarrow> proxy_plugin_context \<Rightarrow> proxy_plugin_context \<Rightarrow> bool" where
  "registers plugin p p' \<longleftrightarrow> ctx_config p' = ctx_config p \<and> ctx_sessions p' = ctx_sessions p
     \<and> (plugin = None \<longrightarrow> p' = p)
     \<and> (proxy_ctx (ctx_manager p) \<longrightarrow> proxy_ctx (ctx_manager p') \<and>
          (\<exists>rs. (ctx_dispatcher p', ctx_manager p') = apply_registrations (the plugin) rs (ctx_dispatcher p, ctx_manager p)))"

definition confined :: "plugin_host_state \<Rightarrow> plugin_host_state \<Rightarrow> bool" where
  "confined st st' \<longleftrightarrow> host_plugin st' = host_plugin st \<and> plugin_name st' = plugin_name st
     \<and> host_data_folder st' = host_data_folder st
     \<and> rel_option (registers (host_plugin st)) (host_proxy st) (host_proxy st')"

lemma registers_refl: "registers plugin p p"
  unfolding registers_def by (auto simp: apply_registrations_def intro: exI[of _ "[]"])

lemma registers_trans: "registers plugin p p' \<Longrightarrow> registers plugin p' p'' \<Longrightarrow> registers plugin p p''"
proof -
  assume a: "registers plugin p p'" and b: "registers plugin p' p''"
  have "\<exists>rs. (ctx_dispatcher p'', ctx_manager p'') = apply_registrations (the plugin) rs (ctx_dispatcher p, ctx_manager p)"
    if "proxy_ctx (ctx_manager p)"
  proof -
    from a that obtain rs where rs: "(ctx_dispatcher p', ctx_manager p') = apply_registrations (the plugin) rs (ctx_dispatcher p, ctx_manager p)"
      and c: "proxy_ctx (ctx_manager p')" unfolding registers_def by metis
    from b c obtain rs' where "(ctx_dispatcher p'', ctx_manager p'') = apply_registrations (the plugin) rs' (ctx_dispatcher p', ctx_manager p')"
      unfolding registers_def by metis
    then show ?thesis unfolding rs by (intro exI[of _ "rs @ rs'"]) (simp add: apply_registrations_def)
  qed
  with a b show ?thesis unfolding registers_def by auto
qed

lemma confined_same: "host_plugin st' = host_plugin st \<Longrightarrow> plugin_name st' = plugin_name st
    \<Longrightarrow> host_data_folder st' = host_data_folder st \<Longrightarrow> host_proxy st' = host_proxy st \<Longrightarrow> confined st st'"
  by (simp add: confined_def option.rel_refl registers_refl)

lemma registers_event:
  "registers (Some plugin) p (p\<lparr>ctx_manager := register_event_handler t prio hid plugin (ctx_manager p)\<rparr>)"
  unfolding registers_def
  by (auto simp: apply_registrations_def apply_registration_def register_event_handler_def Let_def
    intro!: exI[of _ "[RegisterEvent t prio hid]"])

lemma registers_command:
  "registers (Some plugin) p (p\<lparr>ctx_dispatcher := the (register_command cid n d al perm plugin (Some (ctx_dispatcher p)))\<rparr>)"
  unfolding registers_def
  by (auto simp: apply_registrations_def apply_registration_def register_command_def
    intro!: exI[of _ "[RegisterCommand cid n d al perm]"])

lemma confined_register_event: "host_register_event rep hid t prio st = (r, st') \<Longrightarrow> confined st st'"
  by (cases "host_proxy st")
    (auto simp: host_register_event_def with_manager_def Let_def confined_def intro: registers_event registers_refl
      split: option.splits sum.splits)

lemma confined_register_command: "host_register_command rep cid n d al perm st = (r, st') \<Longrightarrow> confined st st'"
  by (cases "host_proxy st")
    (auto simp: host_register_command_def Let_def confined_def intro: registers_command registers_refl split: option.splits sum.splits)

lemma done_with_state: "done_with x = (r, es, st') \<Longrightarrow> es = [] \<and> (\<exists>r. x = (r, st'))"
  by (cases x) (auto simp: done_with_def split: sum.splits)

lemma session_by_uuid_listed: "session_by_uuid ul p txt = Some s \<Longrightarrow> s \<in> set (list_sessions (ctx_sessions p))"
  by (auto simp: session_by_uuid_def find_Some_iff split: option.splits)

lemma to_player_permitted:
  assumes "e \<in> set (snd (to_player ul st txt a))" "\<And>n. a \<noteq> Connect n" "\<And>h p. a \<noteq> Transfer h p"
  shows "permitted_effect st e"
  using assms
  by (cases "host_proxy st"; cases a) (auto simp: to_player_def permitted_effect_def dest!: session_by_uuid_listed split: option.splits)

lemma connect_player_permitted: "e \<in> set (snd (connect_player ul st txt n)) \<Longrightarrow> permitted_effect st e"
proof -
  have "n \<in> fst ` set m" if "map_of m n \<noteq> None" for m :: "(string, backend_config) hmap"
    using that by (simp add: map_of_eq_None_iff)
  then show "e \<in> set (snd (connect_player ul st txt n)) \<Longrightarrow> permitted_effect st e"
    by (cases "host_proxy st") (auto simp: connect_player_def to_player_def permitted_effect_def dest!: session_by_uuid_listed
      split: option.splits if_splits)
qed

lemma host_reply_permitted: "e \<in> set (host_reply ul st ws m) \<Longrightarrow> permitted_effect st e"
  by (cases "host_proxy st") (auto simp: host_reply_def permitted_effect_def dest!: session_by_uuid_listed split: option.splits if_splits)

lemma broadcast_permitted: "e \<in> set (broadcast st m) \<Longrightarrow> permitted_effect st e"
  by (cases "host_proxy st") (auto simp: broadcast_def permitted_effect_def)

lemmas effects_permitted = to_player_permitted connect_player_permitted host_reply_permitted broadcast_permitted

interpretation vine_host: host_contract ul confined permitted_effect for ul
proof
  show "confined st st" for st by (rule confined_same) simp_all
  show "confined st st''" if "confined st st'" "confined st' st''" for st st' st''
    using that unfolding confined_def
    by (cases "host_proxy st"; cases "host_proxy st'"; cases "host_proxy st''") (auto intro: registers_trans)
  show "permitted_effect st e" if "confined st st'" "permitted_effect st' e" for st st' e
    using that by (cases "host_proxy st"; cases "host_proxy st'")
      (auto simp: confined_def permitted_effect_def registers_def split: effect.splits player_action.splits)
  show "confined st st'" if "host_invoke ul c st = (r, es, st')" for c st r es st'
    using that
    by (cases c) (auto simp: yes_no_def drop_context_def intro: confined_same confined_register_event confined_register_command
      dest!: done_with_state)
  show "permitted_effect st e" if "host_invoke ul c st = (r, es, st')" "e \<in> set es" for c st r es st' e
    using that
    by (cases c) (auto simp: yes_no_def host_log_def host_send_message_def disconnect_player_def
      send_plugin_message_def intro: effects_permitted dest!: done_with_state)
qed

section \<open>Properties\<close>


text \<open>The five calls of the proxy are such runs; giving out a context changes nothing either.\<close>

lemma confined_add_context: "add_context alloc c st = (r, st') \<Longrightarrow> confined st st'"
  by (auto simp: add_context_def intro: confined_same split: sum.splits)

lemma wasm_on_load_confined: "wasm_on_load alloc ul f c st = (r, es, st') \<Longrightarrow> confined st st' \<and> (\<forall>e \<in> set es. permitted_effect st e)"
  unfolding wasm_on_load_def
  using vine_host.guest_keeps vine_host.rel_trans vine_host.allowed_back confined_add_context
  by (fastforce split: prod.splits sum.splits)

lemma wasm_on_unload_confined: "wasm_on_unload alloc ul f c st = (r, es, st') \<Longrightarrow> confined st st' \<and> (\<forall>e \<in> set es. permitted_effect st e)"
  using wasm_on_load_confined unfolding wasm_on_load_def wasm_on_unload_def by blast

lemma wasm_handle_event_confined: "wasm_handle_event ul f hid ev st = (r, es, st') \<Longrightarrow> confined st st' \<and> (\<forall>e \<in> set es. permitted_effect st e)"
  unfolding wasm_handle_event_def by (rule vine_host.guest_keeps)

lemma wasm_handle_command_confined:
  "wasm_handle_command ul f cid ws args st = (r, es, st') \<Longrightarrow> confined st st' \<and> (\<forall>e \<in> set es. permitted_effect st e)"
  "wasm_handle_command_suggestion ul g cid ws args st = (r', es, st') \<Longrightarrow> confined st st' \<and> (\<forall>e \<in> set es. permitted_effect st e)"
  unfolding wasm_handle_command_def wasm_handle_command_suggestion_def by (rule vine_host.guest_keeps, assumption)+

text \<open>A guest that registers a handler and connects the first player it finds.\<close>

definition demo_uuids :: uuid_lib where
  "demo_uuids = \<lparr>parse_str = (\<lambda>s. Some (as_bytes s)), uuid_to_string = bytes_to_string\<rparr>"

definition demo_guest :: "u32 \<Rightarrow> (string + unit) guest" where
  "demo_guest rep = Invoke (ContextRegisterEvent rep 3 EvPlayerChat Low) (\<lambda>_.
     Invoke GetPlayers (\<lambda>a. case a of
       PlayersAnswer (p # _) \<Rightarrow> Invoke (ConnectPlayer (info_uuid p) ''lobby'') (\<lambda>_. Return (Inr ()))
     | _ \<Rightarrow> Trap ''nobody''))"

definition demo_plugin_context :: proxy_plugin_context where
  "demo_plugin_context = demo_context\<lparr>ctx_manager := init_proxy_context (ctx_manager demo_context)\<rparr>"

definition demo_host_state :: plugin_host_state where
  "demo_host_state = (plugin_host_state_new ''p'' ''plugins/data/p'' (Some demo_plugin_context))\<lparr>host_plugin := Some 4,
     resource_table := [(9, plugin_context_new \<lparr>meta_name = ''p'', meta_version = ''1'', meta_authors = [], meta_description = None,
       meta_dependencies = []\<rparr> ''plugins/data/p'')]\<rparr>"


end
