(* ===== verification/Protocol.thy ===== *)
theory Protocol
  imports Codec Auth Status Plugin_Manager
begin

text \<open>
  What the bridge and the client handler use of \<^verbatim>\<open>pumpkin_protocol\<close>, third-party code: packet ids,
  packet readers and serialisers as the fields of \<^verbatim>\<open>proto\<close> (their domain is what the sources
  pass; an error is its text, or \<^const>\<open>None\<close> where the sources only test for success), and a framed
  connection \<^verbatim>\<open>conn\<close>: what its decoder will return, packet by packet, what has been written to
  it, which write fails, and the encryption and compression in force. An event list that has run
  out is a peer that stays silent.
\<close>

section \<open>Packets\<close>

datatype proto_node_type =
    RootNode
  | LiteralNode (node_name: string) (node_executable: bool)
  | GreedyAskServerNode (node_name: string) (node_executable: bool)

record proto_node =
  children :: "i32 list"
  node_type :: proto_node_type

datatype connection_state = StateStatus | StateLogin | StateOther

record handshake =
  hs_protocol :: i32
  hs_address :: string
  hs_port :: u16
  hs_next :: connection_state

record encryption_response =
  enc_shared_secret :: bytes
  enc_verify_token :: bytes

record proto =
  from_protocol :: "u32 \<Rightarrow> java_version"
  ge_1_13 :: "java_version \<Rightarrow> bool"
  ge_1_20_2 :: "java_version \<Rightarrow> bool"
  login_disconnect_id :: "java_version \<Rightarrow> i32"
  login_plugin_request_id :: "java_version \<Rightarrow> i32"
  login_compression_id :: "java_version \<Rightarrow> i32"
  login_success_id :: "java_version \<Rightarrow> i32"
  chat_command_id :: "java_version \<Rightarrow> i32"
  chat_message_id :: "java_version \<Rightarrow> i32"
  custom_payload_id :: "java_version \<Rightarrow> i32"
  command_suggestion_id :: "java_version \<Rightarrow> i32"
  command_suggestions_clientbound_id :: "java_version \<Rightarrow> i32"
  commands_packet_id :: "java_version \<Rightarrow> i32"
  play_disconnect_id :: "java_version \<Rightarrow> i32"
  read_handshake :: "bytes \<Rightarrow> string + handshake"
  read_login_start :: "java_version \<Rightarrow> bytes \<Rightarrow> string + string"
  read_encryption_response :: "java_version \<Rightarrow> bytes \<Rightarrow> string + encryption_response"
  read_status_ping :: "java_version \<Rightarrow> bytes \<Rightarrow> i64 option"
  read_chat_command :: "java_version \<Rightarrow> bytes \<Rightarrow> string option"
  read_chat_message :: "java_version \<Rightarrow> bytes \<Rightarrow> string option"
  read_custom_payload :: "java_version \<Rightarrow> bytes \<Rightarrow> (string \<times> bytes) option"
  read_command_suggestion :: "java_version \<Rightarrow> bytes \<Rightarrow> (i32 \<times> string) option"
  get_component :: "java_version \<Rightarrow> bytes \<Rightarrow> text_component option \<times> bytes"
  to_pretty_console :: "text_component \<Rightarrow> string"
  ser_handshake :: "java_version \<Rightarrow> handshake \<Rightarrow> string + bytes"
  ser_login_start :: "java_version \<Rightarrow> string \<Rightarrow> uuid \<Rightarrow> string + bytes"
  ser_login_plugin_response :: "java_version \<Rightarrow> i32 \<Rightarrow> bytes option \<Rightarrow> string + bytes"
  ser_encryption_request :: "java_version \<Rightarrow> string \<Rightarrow> bytes \<Rightarrow> bytes \<Rightarrow> bool \<Rightarrow> string + bytes"
  ser_set_compression :: "java_version \<Rightarrow> i32 \<Rightarrow> string + bytes"
  ser_login_disconnect :: "java_version \<Rightarrow> string \<Rightarrow> string + bytes"
  ser_status_response :: "java_version \<Rightarrow> string \<Rightarrow> string + bytes"
  ser_ping_response :: "java_version \<Rightarrow> i64 \<Rightarrow> string + bytes"
  ser_system_chat :: "java_version \<Rightarrow> text_component \<Rightarrow> bytes option"
  ser_play_disconnect :: "java_version \<Rightarrow> text_component \<Rightarrow> bytes option"
  ser_config_disconnect :: "java_version \<Rightarrow> string \<Rightarrow> bytes option"
  ser_transfer :: "java_version \<Rightarrow> string \<Rightarrow> i32 \<Rightarrow> bytes option"
  ser_start_configuration :: "java_version \<Rightarrow> bytes option"
  ser_custom_payload :: "java_version \<Rightarrow> string \<Rightarrow> bytes \<Rightarrow> bytes option"
  ser_command_suggestions :: "java_version \<Rightarrow> i32 \<Rightarrow> i32 \<Rightarrow> i32 \<Rightarrow> suggestion list \<Rightarrow> bytes option"
  write_node :: "java_version \<Rightarrow> proto_node \<Rightarrow> bytes option"

section \<open>Connections\<close>

datatype decode_event = Packet i32 bytes | DecodeFailure string

record conn =
  conn_in :: "decode_event list"
  conn_out :: "bytes list"
  conn_fails :: "nat \<Rightarrow> string option"
  conn_encryption :: "bytes option"
  conn_compression :: "(u64 \<times> u32) option"

text \<open>
  \<^verbatim>\<open>write_packet\<close> followed by \<^verbatim>\<open>flush\<close>, which the sources always call together: the error, if
  the write or the flush of the packet with this number fails.
\<close>

definition write_packet :: "bytes \<Rightarrow> conn \<Rightarrow> string option \<times> conn" where
  "write_packet b c =
     (case conn_fails c (length (conn_out c)) of
        Some e \<Rightarrow> (Some e, c)
      | None \<Rightarrow> (None, c\<lparr>conn_out := conn_out c @ [b]\<rparr>))"

text \<open>\<^verbatim>\<open>if let Ok(bytes) = packet.serialize_packet(..) { let _ = write; let _ = flush; }\<close>\<close>

definition try_write :: "bytes option \<Rightarrow> conn \<Rightarrow> conn" where
  "try_write b c = (case b of None \<Rightarrow> c | Some b \<Rightarrow> snd (write_packet b c))"

text \<open>A raw packet put together again: its id as a VarInt, then its payload.\<close>

definition encode_varint :: "codec \<Rightarrow> i32 \<Rightarrow> bytes" where
  "encode_varint c v = (case write_varint c v of Inr b \<Rightarrow> b | Inl _ \<Rightarrow> [])"

definition full_packet :: "codec \<Rightarrow> i32 \<Rightarrow> bytes \<Rightarrow> bytes" where
  "full_packet c i payload = encode_varint c i @ payload"

lemma write_packet_None: "write_packet b c = (None, c') \<Longrightarrow> c' = c\<lparr>conn_out := conn_out c @ [b]\<rparr>"
  by (auto simp: write_packet_def split: option.splits)

lemma write_packet_Some: "write_packet b c = (Some e, c') \<Longrightarrow> c' = c"
  by (auto simp: write_packet_def split: option.splits)

lemma conn_in_write_packet [simp]:
  "conn_in (snd (write_packet b c)) = conn_in c" "conn_in (try_write bo c) = conn_in c"
  by (simp_all add: write_packet_def try_write_def split: option.splits)

lemma conn_fails_write_packet [simp]:
  "conn_fails (snd (write_packet b c)) = conn_fails c" "conn_fails (try_write bo c) = conn_fails c"
  by (simp_all add: write_packet_def try_write_def split: option.splits)

lemma conn_encryption_write_packet [simp]:
  "conn_encryption (snd (write_packet b c)) = conn_encryption c" "conn_encryption (try_write bo c) = conn_encryption c"
  by (simp_all add: write_packet_def try_write_def split: option.splits)

section \<open>Kick messages\<close>

text \<open>
  The JSON text of a kick, which \<^verbatim>\<open>ClientHandler::kick\<close> and
  \<^verbatim>\<open>BackendBridge::disconnect_client\<close> format in the same way.
\<close>

definition kick_json :: "string \<Rightarrow> string" where
  "kick_json reason =
     ''{'' @ [CHR 0x22] @ ''text'' @ [CHR 0x22] @ '':'' @ [CHR 0x22] @ ''[Vine Proxy] ''
     @ replace_char CHR 0x22 [CHR 0x5C, CHR 0x22] reason @ [CHR 0x22] @ '','' @ [CHR 0x22] @ ''color'' @ [CHR 0x22]
     @ '':'' @ [CHR 0x22] @ ''red'' @ [CHR 0x22] @ ''}''"

section \<open>Lossy decoding\<close>

text \<open>
  \<^verbatim>\<open>String::from_utf8_lossy\<close>: every maximal prefix of a character that is not completed becomes one
  replacement character.
\<close>

definition lead_len :: "char \<Rightarrow> nat" where
  "lead_len c = (if code c < 128 then 1 else if code c < 194 then 0 else if code c < 224 then 2
     else if code c < 240 then 3 else if code c < 245 then 4 else 0)"

definition second_ok :: "char \<Rightarrow> char \<Rightarrow> bool" where
  "second_ok a b \<longleftrightarrow> is_cont b \<and> (code a = 224 \<longrightarrow> 160 \<le> code b) \<and> (code a = 237 \<longrightarrow> code b \<le> 159)
     \<and> (code a = 240 \<longrightarrow> 144 \<le> code b) \<and> (code a = 244 \<longrightarrow> code b \<le> 143)"

definition valid_prefix :: "char \<Rightarrow> string \<Rightarrow> nat" where
  "valid_prefix c cs =
     (case take (lead_len c - 1) cs of
        [] \<Rightarrow> 1
      | b # bs \<Rightarrow> if second_ok c b then 2 + length (takeWhile is_cont bs) else 1)"

function from_utf8_lossy :: "string \<Rightarrow> string" where
  "from_utf8_lossy [] = []"
| "from_utf8_lossy (c # cs) =
     (if lead_len c = valid_prefix c cs
      then c # take (lead_len c - 1) cs @ from_utf8_lossy (drop (lead_len c - 1) cs)
      else [CHR 0xEF, CHR 0xBF, CHR 0xBD] @ from_utf8_lossy (drop (valid_prefix c cs - 1) cs))"
  by pat_completeness auto
termination by (relation "measure length") auto

lemma from_utf8_lossy_char:
  assumes "is_utf8_char g"
  shows "from_utf8_lossy (g @ s) = g @ from_utf8_lossy s"
proof -
  obtain c cs where g: "g = c # cs" using assms by (cases g) (auto simp: is_utf8_char_def)
  have len: "lead_len c = Suc (length cs)"
    using assms unfolding g is_utf8_char_def lead_len_def by (simp split: list.splits)
  then have "take (lead_len c - 1) (cs @ s) = cs" by simp
  then have vp: "valid_prefix c (cs @ s) = Suc (length cs)"
    unfolding valid_prefix_def using assms
    by (cases cs) (auto simp: g is_utf8_char_def second_ok_def split: list.splits)
  from len vp show ?thesis unfolding g by simp
qed

text \<open>A text that is valid UTF-8 is decoded unchanged.\<close>

lemma from_utf8_lossy_concat: "list_all is_utf8_char gs \<Longrightarrow> from_utf8_lossy (concat gs) = concat gs"
  by (induction gs) (auto simp: from_utf8_lossy_char)

lemma from_utf8_lossy_valid: "utf8_valid s \<Longrightarrow> from_utf8_lossy s = s"
  using from_utf8_lossy_concat[of "utf8_chars s"] by (simp add: utf8_valid_def)

section \<open>A small instance\<close>

text \<open>
  A protocol over the Minecraft encoding with one version, used by the witnesses: a packet is its
  id byte followed by its texts.
\<close>

definition demo_text :: "u8 \<Rightarrow> string \<Rightarrow> bytes" where
  "demo_text i s = i # as_bytes s"

definition demo_proto :: proto where
  "demo_proto =
     \<lparr>from_protocol = (\<lambda>p. \<lparr>is_unknown = False, protocol_number = p\<rparr>),
      ge_1_13 = (\<lambda>_. True), ge_1_20_2 = (\<lambda>_. True),
      login_disconnect_id = (\<lambda>_. 0), login_plugin_request_id = (\<lambda>_. 4), login_compression_id = (\<lambda>_. 3),
      login_success_id = (\<lambda>_. 2), chat_command_id = (\<lambda>_. 5), chat_message_id = (\<lambda>_. 6),
      custom_payload_id = (\<lambda>_. 7), command_suggestion_id = (\<lambda>_. 8),
      command_suggestions_clientbound_id = (\<lambda>_. 9), commands_packet_id = (\<lambda>_. 10), play_disconnect_id = (\<lambda>_. 11),
      read_handshake = (\<lambda>p. case p of [] \<Rightarrow> Inl ''empty'' | s # bs \<Rightarrow>
        Inr \<lparr>hs_protocol = 1, hs_address = bytes_to_string bs, hs_port = 25565,
          hs_next = (if s = 1 then StateStatus else if s = 2 then StateLogin else StateOther)\<rparr>),
      read_login_start = (\<lambda>_ p. Inr (bytes_to_string p)),
      read_encryption_response = (\<lambda>_ p. Inr \<lparr>enc_shared_secret = take 16 p, enc_verify_token = drop 16 p\<rparr>),
      read_status_ping = (\<lambda>_ p. case p of [b] \<Rightarrow> Some (ucast b) | _ \<Rightarrow> None),
      read_chat_command = (\<lambda>_ p. Some (bytes_to_string p)),
      read_chat_message = (\<lambda>_ p. Some (bytes_to_string p)),
      read_custom_payload = (\<lambda>_ p. Some (''demo:channel'', p)),
      read_command_suggestion = (\<lambda>_ p. case p of [] \<Rightarrow> None | i # bs \<Rightarrow> Some (ucast i, bytes_to_string bs)),
      get_component = (\<lambda>_ p. case mc_get_string p of Inr (s, r) \<Rightarrow> (Some (Text s), r) | Inl _ \<Rightarrow> (None, p)),
      to_pretty_console = text_of,
      ser_handshake = (\<lambda>_ h. Inr (demo_text 0 (hs_address h))),
      ser_login_start = (\<lambda>_ n u. Inr (demo_text 0 n @ u)),
      ser_login_plugin_response = (\<lambda>_ i d. Inr (2 # ucast i # (case d of None \<Rightarrow> [0] | Some b \<Rightarrow> 1 # b))),
      ser_encryption_request = (\<lambda>_ s k t _. Inr (1 # k @ t)),
      ser_set_compression = (\<lambda>_ t. Inr [3, ucast t]),
      ser_login_disconnect = (\<lambda>_ s. Inr (demo_text 0 s)),
      ser_status_response = (\<lambda>_ j. Inr (demo_text 0 j)),
      ser_ping_response = (\<lambda>_ t. Inr [1, ucast t]),
      ser_system_chat = (\<lambda>_ t. Some (demo_text 12 (text_of t))),
      ser_play_disconnect = (\<lambda>_ t. Some (demo_text 11 (text_of t))),
      ser_config_disconnect = (\<lambda>_ s. Some (demo_text 2 s)),
      ser_transfer = (\<lambda>_ h p. Some (demo_text 13 h @ [ucast p])),
      ser_start_configuration = (\<lambda>_. Some [14]),
      ser_custom_payload = (\<lambda>_ c d. Some (demo_text 7 c @ d)),
      ser_command_suggestions = (\<lambda>_ i st l ms. Some (demo_text 9 (concat (map suggestion_text ms)))),
      write_node = (\<lambda>_ n. if 2147483648 \<le> int (length (children n)) then None else Some ([case node_type n of RootNode \<Rightarrow> 0 | LiteralNode _ e \<Rightarrow> if e then 5 else 1
          | GreedyAskServerNode _ e \<Rightarrow> if e then 22 else 18]
        @ varint_nat (length (children n)) @ concat (map (\<lambda>c. varint_nat (unat c)) (children n))
        @ (case node_type n of RootNode \<Rightarrow> [] | LiteralNode s _ \<Rightarrow> varint_nat (length s) @ as_bytes s
          | GreedyAskServerNode s _ \<Rightarrow> varint_nat (length s) @ as_bytes s)))\<rparr>"

definition demo_version :: java_version where
  "demo_version = \<lparr>is_unknown = False, protocol_number = 770\<rparr>"

definition demo_conn :: "decode_event list \<Rightarrow> conn" where
  "demo_conn es = \<lparr>conn_in = es, conn_out = [], conn_fails = (\<lambda>_. None), conn_encryption = None, conn_compression = None\<rparr>"

end
