(* ===== verification/Backend_Login.thy ===== *)
theory Backend_Login
  imports Protocol Forwarding
begin

text \<open>
  \<^verbatim>\<open>src/src/backend/bridge.rs\<close>, first part: connecting to a backend with retries and logging the
  player in there. The network is a parameter: \<^verbatim>\<open>env_dial a k\<close> is the outcome of the proxy's
  \<^verbatim>\<open>k\<close>-th connection attempt, made to address \<^verbatim>\<open>a\<close>, and \<^verbatim>\<open>env_unix_time n\<close> the wall clock when
  the \<^verbatim>\<open>n\<close>-th packet of a connection is about to be written. Pauses between attempts are not
  modelled.
\<close>

section \<open>Model\<close>

datatype bridge_error =
    ConnectFailed string string
  | IoError string
  | DecodeError string
  | EncodeError string
  | LoginTimeout string
  | LoginDisconnected string
  | VelocityError string
  | VineError string

definition show_bridge_error :: "bridge_error \<Rightarrow> string" where
  "show_bridge_error err =
     (case err of
        ConnectFailed n e \<Rightarrow> ''Failed to connect to backend server '' @ [CHR 0x27] @ n @ [CHR 0x27] @ '': '' @ e
      | IoError e \<Rightarrow> ''Backend communication error: '' @ e
      | DecodeError e \<Rightarrow> ''Packet decode error: '' @ e
      | EncodeError e \<Rightarrow> ''Packet encode error: '' @ e
      | LoginTimeout n \<Rightarrow> ''Backend server '' @ [CHR 0x27] @ n @ [CHR 0x27] @ '' login timed out''
      | LoginDisconnected r \<Rightarrow> ''Backend disconnected player during login: '' @ r
      | VelocityError e \<Rightarrow> ''Velocity forwarding error: '' @ e
      | VineError e \<Rightarrow> ''Vine forwarding error: '' @ e)"

record backend_bridge =
  br_server_name :: string
  br_config :: backend_config
  br_fallback_server :: "(string \<times> backend_config) option"
  br_client_ip :: ip_addr
  br_client_version :: java_version
  br_virtual_host :: string
  br_player :: authenticated_player
  br_max_packets_per_sec :: u32
  br_network_config :: network_config
  br_compression_level :: i32
  br_command_dispatcher :: command_dispatcher
  br_proxy_config :: config
  br_plugin_manager :: plugin_manager

datatype dial_outcome = Dialed conn | DialError string | DialTimeout

record net_env =
  env_proto :: proto
  env_codec :: codec
  env_fwd :: fwd_ext
  env_dial :: "string \<Rightarrow> nat \<Rightarrow> dial_outcome"
  env_unix_time :: "nat \<Rightarrow> u64"

subsection \<open>Connecting\<close>

fun connect_attempts ::
  "('e net_env_scheme) \<Rightarrow> string \<Rightarrow> u64 \<Rightarrow> nat \<Rightarrow> nat \<Rightarrow> string option \<Rightarrow> (string option + conn) \<times> nat" where
  "connect_attempts env addr secs 0 k last_err = (Inl last_err, k)"
| "connect_attempts env addr secs (Suc n) k last_err =
     (case env_dial env addr k of
        Dialed c \<Rightarrow> (Inr c, Suc k)
      | DialError e \<Rightarrow> connect_attempts env addr secs n (Suc k) (Some e)
      | DialTimeout \<Rightarrow>
          connect_attempts env addr secs n (Suc k)
            (Some (''Connection timed out after '' @ show_nat (unat secs) @ ''s'')))"

definition connect_to_backend ::
  "('e net_env_scheme) \<Rightarrow> string \<Rightarrow> string \<Rightarrow> u64 \<Rightarrow> u32 \<Rightarrow> nat \<Rightarrow> (bridge_error + conn) \<times> nat" where
  "connect_to_backend env name addr secs retries k =
     (case connect_attempts env addr secs (unat (max retries 1)) k None of
        (Inr c, k) \<Rightarrow> (Inr c, k)
      | (Inl e, k) \<Rightarrow>
          (Inl (ConnectFailed name (case e of Some e \<Rightarrow> e | None \<Rightarrow> ''Failed to connect'')), k))"

subsection \<open>Logging in\<close>

text \<open>Serialise, write and flush, each failure an \<^const>\<open>EncodeError\<close>.\<close>

definition send_packet :: "string + bytes \<Rightarrow> conn \<Rightarrow> bridge_error + conn" where
  "send_packet r c =
     (case r of
        Inl e \<Rightarrow> Inl (EncodeError e)
      | Inr b \<Rightarrow> (case write_packet b c of (Some e, _) \<Rightarrow> Inl (EncodeError e) | (None, c) \<Rightarrow> Inr c))"

definition decoding :: "string + 'a \<Rightarrow> bridge_error + 'a" where
  "decoding r = (case r of Inl e \<Rightarrow> Inl (DecodeError e) | Inr a \<Rightarrow> Inr a)"

definition login_challenge :: "bytes \<Rightarrow> bytes" where
  "login_challenge cur =
     (if 17 \<le> length cur then take 16 (drop 1 cur)
      else if 16 \<le> length cur then take 16 cur
      else replicate 16 0)"

definition plugin_response_data ::
  "('e net_env_scheme) \<Rightarrow> backend_bridge \<Rightarrow> backend_config \<Rightarrow> string \<Rightarrow> bytes \<Rightarrow> u64 \<Rightarrow> bridge_error + bytes option" where
  "plugin_response_data env br cfg channel cur now =
     (if channel = VINE_PLAYER_INFO_CHANNEL then
        (case secret cfg of
           None \<Rightarrow> Inl (VineError ''Secret missing'')
         | Some s \<Rightarrow>
             (case build_vine_payload (env_codec env) (env_fwd env) now s (br_client_ip br) (br_player br)
                     (login_challenge cur) of
                Inl e \<Rightarrow> Inl (VineError (show_forwarding_error e))
              | Inr d \<Rightarrow> Inr (Some d)))
      else if channel = VELOCITY_PLAYER_INFO_CHANNEL then
        (case secret cfg of
           None \<Rightarrow> Inl (VelocityError ''Secret missing'')
         | Some s \<Rightarrow>
             (case build_velocity_payload (env_codec env) (env_fwd env) s (br_client_ip br) (br_player br) of
                Inl e \<Rightarrow> Inl (VelocityError (show_forwarding_error e))
              | Inr d \<Rightarrow> Inr (Some d)))
      else Inr None)"

definition answer_plugin_request ::
  "('e net_env_scheme) \<Rightarrow> backend_bridge \<Rightarrow> backend_config \<Rightarrow> bytes \<Rightarrow> conn \<Rightarrow> bridge_error + conn" where
  "answer_plugin_request env br cfg payload c =
     bind_res (decoding (get_var_int (env_codec env) payload)) (\<lambda>(message_id, cur).
     bind_res (decoding (get_string (env_codec env) cur)) (\<lambda>(channel, cur).
     bind_res (plugin_response_data env br cfg channel cur (env_unix_time env (length (conn_out c)))) (\<lambda>d.
     send_packet (ser_login_plugin_response (env_proto env) (br_client_version br) message_id d) c)))"

fun login_loop ::
  "('e net_env_scheme) \<Rightarrow> backend_bridge \<Rightarrow> string \<Rightarrow> backend_config \<Rightarrow> decode_event list \<Rightarrow> conn
    \<Rightarrow> bridge_error + conn \<times> bytes" where
  "login_loop env br name cfg [] c = Inl (LoginTimeout name)"
| "login_loop env br name cfg (DecodeFailure e # es) c = Inl (DecodeError e)"
| "login_loop env br name cfg (Packet i payload # es) c =
     (let v = br_client_version br; pr = env_proto env; c = c\<lparr>conn_in := es\<rparr>
      in if i = login_disconnect_id pr v then
           Inl (LoginDisconnected (case get_string (env_codec env) payload of
             Inr (s, _) \<Rightarrow> s | Inl _ \<Rightarrow> ''Disconnected by backend during login''))
         else if i = login_plugin_request_id pr v then
           bind_res (answer_plugin_request env br cfg payload c) (\<lambda>c. login_loop env br name cfg es c)
         else if i = login_compression_id pr v then
           bind_res (decoding (get_var_int (env_codec env) payload)) (\<lambda>(threshold, _).
             login_loop env br name cfg es
               (if 0 \<le> sint threshold
                then c\<lparr>conn_compression := Some (of_nat (unat threshold), br_compression_level br)\<rparr> else c))
         else if i = login_success_id pr v then Inr (c, full_packet (env_codec env) i payload)
         else login_loop env br name cfg es c)"

definition backend_host :: "('e net_env_scheme) \<Rightarrow> backend_bridge \<Rightarrow> backend_config \<Rightarrow> string" where
  "backend_host env br cfg =
     (case forwarding cfg of
        BungeeCord \<Rightarrow> build_bungeecord_host (env_fwd env) (br_virtual_host br) (br_client_ip br) (br_player br)
      | Velocity \<Rightarrow> br_virtual_host br
      | Vine \<Rightarrow> br_virtual_host br
      | NoForwarding \<Rightarrow> br_virtual_host br)"

definition login_handshake :: "('e net_env_scheme) \<Rightarrow> backend_bridge \<Rightarrow> backend_config \<Rightarrow> string + bytes" where
  "login_handshake env br cfg =
     ser_handshake (env_proto env) (br_client_version br)
       \<lparr>hs_protocol = protocol_number (br_client_version br), hs_address = backend_host env br cfg,
        hs_port = 25565, hs_next = StateLogin\<rparr>"

definition login_start :: "('e net_env_scheme) \<Rightarrow> backend_bridge \<Rightarrow> string + bytes" where
  "login_start env br =
     ser_login_start (env_proto env) (br_client_version br) (player_name (br_player br)) (player_id (br_player br))"

definition login_backend ::
  "('e net_env_scheme) \<Rightarrow> backend_bridge \<Rightarrow> string \<Rightarrow> backend_config \<Rightarrow> nat
    \<Rightarrow> (bridge_error + conn \<times> bytes) \<times> nat" where
  "login_backend env br name cfg k =
     (case connect_to_backend env name (address cfg)
             (backend_connect_timeout_secs (br_network_config br))
             (backend_connect_retry_attempts (br_network_config br)) k of
        (Inl e, k) \<Rightarrow> (Inl e, k)
      | (Inr c, k) \<Rightarrow>
          (bind_res (send_packet (login_handshake env br cfg) c) (\<lambda>c.
           bind_res (send_packet (login_start env br) c) (\<lambda>c.
           login_loop env br name cfg (conn_in c) c)), k))"

section \<open>Connection attempts\<close>

lemma connect_attempts_Inr:
  "connect_attempts env a secs n k le = (Inr c, k') \<longleftrightarrow>
     k < k' \<and> k' \<le> k + n \<and> env_dial env a (k' - 1) = Dialed c
     \<and> (\<forall>j \<in> {k..<k' - 1}. \<forall>d. env_dial env a j \<noteq> Dialed d)"
proof (induction n arbitrary: k le)
  case 0
  then show ?case by auto
next
  case (Suc n)
  show ?case
  proof (cases "\<exists>d. env_dial env a k = Dialed d")
    case True
    then obtain d where d: "env_dial env a k = Dialed d" by blast
    have "k' - 1 = k" if "\<forall>j \<in> {k..<k' - 1}. \<forall>d. env_dial env a j \<noteq> Dialed d" "k < k'"
      using that d by (metis Suc_diff_1 atLeastLessThan_iff le_eq_less_or_eq less_Suc_eq_le less_imp_Suc_add zero_less_Suc)
    with d show ?thesis by auto
  next
    case False
    then have "connect_attempts env a secs (Suc n) k le = (Inr c, k') \<longleftrightarrow>
        Suc k < k' \<and> k' \<le> Suc k + n \<and> env_dial env a (k' - 1) = Dialed c
        \<and> (\<forall>j \<in> {Suc k..<k' - 1}. \<forall>d. env_dial env a j \<noteq> Dialed d)"
      by (auto simp: Suc.IH split: dial_outcome.splits)
    also have "\<dots> \<longleftrightarrow> k < k' \<and> k' \<le> k + Suc n \<and> env_dial env a (k' - 1) = Dialed c
        \<and> (\<forall>j \<in> {k..<k' - 1}. \<forall>d. env_dial env a j \<noteq> Dialed d)"
    proof -
      have "Suc k < k'" if "k < k'" "env_dial env a (k' - 1) = Dialed c"
        using that False by (cases "k' = Suc k") auto
      moreover have "(\<forall>j \<in> {k..<k' - 1}. \<forall>d. env_dial env a j \<noteq> Dialed d) \<longleftrightarrow>
          (\<forall>j \<in> {Suc k..<k' - 1}. \<forall>d. env_dial env a j \<noteq> Dialed d)"
        using False by (metis atLeastLessThan_iff le_eq_less_or_eq Suc_leI Suc_leD)
      ultimately show ?thesis by auto
    qed
    finally show ?thesis .
  qed
qed

text \<open>The text a failed attempt leaves behind.\<close>

definition dial_text :: "u64 \<Rightarrow> dial_outcome \<Rightarrow> string" where
  "dial_text secs o1 =
     (case o1 of DialError e \<Rightarrow> e | _ \<Rightarrow> ''Connection timed out after '' @ show_nat (unat secs) @ ''s'')"

lemma connect_attempts_Inl:
  "connect_attempts env a secs n k le = (Inl e, k') \<longleftrightarrow>
     k' = k + n \<and> (\<forall>j \<in> {k..<k + n}. \<forall>d. env_dial env a j \<noteq> Dialed d)
     \<and> e = (if n = 0 then le else Some (dial_text secs (env_dial env a (k + n - 1))))"
proof (induction n arbitrary: k le)
  case 0
  then show ?case by auto
next
  case (Suc n)
  have split: "{k..<k + Suc n} = insert k {Suc k..<Suc k + n}" by auto
  show ?case
  proof (cases "env_dial env a k")
    case (Dialed c)
    then show ?thesis by (auto simp: split)
  next
    case (DialError m)
    then show ?thesis unfolding split by (auto simp: Suc.IH dial_text_def)
  next
    case DialTimeout
    then show ?thesis unfolding split by (auto simp: Suc.IH dial_text_def)
  qed
qed

lemma unat_max_1: "unat (max r (1 :: u32)) = max (unat r) 1"
  by (simp add: max_def word_le_nat_alt)

text \<open>
  Connecting to a backend makes at most \<^verbatim>\<open>max(retries, 1)\<close> attempts and stops at the first one that
  succeeds; it fails only when all of them failed, and then reports what the last one said.
\<close>
theorem connect_to_backend_retries:
  "case connect_to_backend env name a secs retries k of
     (Inr c, k') \<Rightarrow> k < k' \<and> k' \<le> k + max (unat retries) 1 \<and> env_dial env a (k' - 1) = Dialed c
       \<and> (\<forall>j \<in> {k..<k' - 1}. \<forall>d. env_dial env a j \<noteq> Dialed d)
   | (Inl e, k') \<Rightarrow> k' = k + max (unat retries) 1
       \<and> (\<forall>j \<in> {k..<k'}. \<forall>d. env_dial env a j \<noteq> Dialed d)
       \<and> e = ConnectFailed name (dial_text secs (env_dial env a (k' - 1)))"
proof (cases "connect_attempts env a secs (unat (max retries 1)) k None")
  case (Pair r k')
  show ?thesis
  proof (cases r)
    case (Inl e)
    from Pair[unfolded Inl connect_attempts_Inl unat_max_1] Pair Inl show ?thesis
      by (simp add: connect_to_backend_def split: if_splits)
  next
    case (Inr c)
    from Pair[unfolded Inr connect_attempts_Inr unat_max_1] Pair Inr show ?thesis
      by (simp add: connect_to_backend_def)
  qed
qed

section \<open>The login transcript\<close>

text \<open>
  One answer the backend gets to one plugin request: the response to its message id on its
  channel, written as packet number \<^verbatim>\<open>n\<close> of the connection.
\<close>

definition answers :: "('e net_env_scheme) \<Rightarrow> backend_bridge \<Rightarrow> backend_config \<Rightarrow> nat \<Rightarrow> bytes \<Rightarrow> bytes \<Rightarrow> bool" where
  "answers env br cfg n request reply \<longleftrightarrow>
     (\<exists>message_id cur channel cur' d.
        get_var_int (env_codec env) request = Inr (message_id, cur)
        \<and> get_string (env_codec env) cur = Inr (channel, cur')
        \<and> plugin_response_data env br cfg channel cur' (env_unix_time env n) = Inr d
        \<and> ser_login_plugin_response (env_proto env) (br_client_version br) message_id d = Inr reply)"

fun answered ::
  "('e net_env_scheme) \<Rightarrow> backend_bridge \<Rightarrow> backend_config \<Rightarrow> nat \<Rightarrow> bytes list \<Rightarrow> bytes list \<Rightarrow> bool" where
  "answered env br cfg n [] [] = True"
| "answered env br cfg n (p # ps) (b # bs) = (answers env br cfg n p b \<and> answered env br cfg (Suc n) ps bs)"
| "answered env br cfg n _ _ = False"

definition plugin_requests :: "('e net_env_scheme) \<Rightarrow> java_version \<Rightarrow> decode_event list \<Rightarrow> bytes list" where
  "plugin_requests env v es =
     concat (map (\<lambda>e. case e of Packet i p \<Rightarrow> if i = login_plugin_request_id (env_proto env) v then [p] else []
       | DecodeFailure _ \<Rightarrow> []) es)"

lemma plugin_requests_simps [simp]:
  "plugin_requests env v [] = []"
  "plugin_requests env v (Packet i p # es) =
     (if i = login_plugin_request_id (env_proto env) v then p # plugin_requests env v es else plugin_requests env v es)"
  by (simp_all add: plugin_requests_def)

lemma send_packet_Inr: "send_packet r c = Inr c' \<Longrightarrow> \<exists>b. r = Inr b \<and> c' = c\<lparr>conn_out := conn_out c @ [b]\<rparr>"
  by (auto simp: send_packet_def write_packet_def split: sum.splits option.splits)

lemma decoding_Inr [simp]: "decoding r = Inr a \<longleftrightarrow> r = Inr a"
  by (auto simp: decoding_def split: sum.splits)

lemma answer_plugin_request_Inr:
  "answer_plugin_request env br cfg p c = Inr c' \<Longrightarrow>
     \<exists>b. answers env br cfg (length (conn_out c)) p b \<and> c' = c\<lparr>conn_out := conn_out c @ [b]\<rparr>"
  by (auto simp: answer_plugin_request_def answers_def bind_res_Inr_iff dest!: send_packet_Inr)

lemma login_loop_transcript:
  "login_loop env br name cfg es c = Inr (c', sb) \<Longrightarrow>
     \<exists>pre payload replies. es = pre @ Packet (login_success_id (env_proto env) (br_client_version br)) payload # conn_in c'
       \<and> sb = full_packet (env_codec env) (login_success_id (env_proto env) (br_client_version br)) payload
       \<and> conn_out c' = conn_out c @ replies
       \<and> answered env br cfg (length (conn_out c)) (plugin_requests env (br_client_version br) pre) replies"
proof (induction es arbitrary: c)
  case Nil
  then show ?case by simp
next
  case (Cons e es)
  show ?case
  proof (cases e)
    case (DecodeFailure m)
    with Cons.prems show ?thesis by simp
  next
    case (Packet i payload)
    let ?pr = "env_proto env" and ?v = "br_client_version br"
    let ?sid = "login_success_id ?pr ?v"
    have next_packet: ?thesis
      if run: "login_loop env br name cfg es c1 = Inr (c', sb)" and req: "i \<noteq> login_plugin_request_id ?pr ?v"
        and out: "conn_out c1 = conn_out c" for c1
    proof -
      obtain pre p replies where "es = pre @ Packet ?sid p # conn_in c'" "sb = full_packet (env_codec env) ?sid p"
        "conn_out c' = conn_out c1 @ replies" "answered env br cfg (length (conn_out c1)) (plugin_requests env ?v pre) replies"
        using Cons.IH[OF run] by blast
      then show ?thesis using Packet req out by (intro exI[of _ "Packet i payload # pre"]) auto
    qed
    consider "i = login_plugin_request_id ?pr ?v" "i \<noteq> login_disconnect_id ?pr ?v"
      | "i \<noteq> login_plugin_request_id ?pr ?v" "i \<noteq> login_disconnect_id ?pr ?v"
      using Cons.prems Packet by (cases "i = login_disconnect_id ?pr ?v") (auto simp: Let_def)
    then show ?thesis
    proof cases
      case 1
      then obtain c1 where ans: "answer_plugin_request env br cfg payload (c\<lparr>conn_in := es\<rparr>) = Inr c1"
        and run: "login_loop env br name cfg es c1 = Inr (c', sb)"
        using Cons.prems Packet by (auto simp: Let_def bind_res_Inr_iff)
      obtain b where b: "answers env br cfg (length (conn_out c)) payload b" "conn_out c1 = conn_out c @ [b]"
        using answer_plugin_request_Inr[OF ans] by auto
      obtain pre p replies where "es = pre @ Packet ?sid p # conn_in c'" "sb = full_packet (env_codec env) ?sid p"
        "conn_out c' = conn_out c1 @ replies" "answered env br cfg (length (conn_out c1)) (plugin_requests env ?v pre) replies"
        using Cons.IH[OF run] by blast
      then show ?thesis using Packet 1 b
        by (intro exI[of _ "Packet i payload # pre"] exI[of _ p] exI[of _ "b # replies"]) auto
    next
      case 2
      show ?thesis
      proof (cases "i = login_compression_id ?pr ?v \<or> i \<noteq> ?sid")
        case True
        with 2 Cons.prems Packet have "\<exists>c1. login_loop env br name cfg es c1 = Inr (c', sb) \<and> conn_out c1 = conn_out c"
          by (fastforce simp: Let_def bind_res_Inr_iff split: if_splits)
        with 2 show ?thesis by (blast intro: next_packet)
      next
        case False
        with 2 Cons.prems Packet have "c' = c\<lparr>conn_in := es\<rparr>" "sb = full_packet (env_codec env) ?sid payload" "i = ?sid"
          by (auto simp: Let_def)
        with Packet show ?thesis
          by (intro exI[of _ "[] :: decode_event list"] exI[of _ payload] exI[of _ "[] :: bytes list"]) simp
      qed
    qed
  qed
qed

definition demo_dial :: "decode_event list \<Rightarrow> string \<Rightarrow> nat \<Rightarrow> dial_outcome" where
  "demo_dial es a k = (if k = 0 then DialError ''refused'' else Dialed (demo_conn es))"

definition demo_net :: "decode_event list \<Rightarrow> net_env" where
  "demo_net es = \<lparr>env_proto = demo_proto, env_codec = mc_codec, env_fwd = demo_ext, env_dial = demo_dial es,
     env_unix_time = (\<lambda>_. 1700000000)\<rparr>"

definition demo_backend :: backend_config where
  "demo_backend = \<lparr>address = ''127.0.0.1:25566'', forwarding = NoForwarding, secret = None, icon_path = None,
     motd_line1 = None, motd_line2 = None\<rparr>"

definition demo_bridge :: backend_bridge where
  "demo_bridge = \<lparr>br_server_name = ''lobby'', br_config = demo_backend, br_fallback_server = Some (''hub'', demo_backend),
     br_client_ip = V4 10 0 0 1, br_client_version = demo_version, br_virtual_host = ''play'', br_player = demo_player,
     br_max_packets_per_sec = 500, br_network_config = network_config_default, br_compression_level = 6,
     br_command_dispatcher = dispatcher_new, br_proxy_config = config_default,
     br_plugin_manager = plugin_manager_new ''plugins''\<rparr>"

lemma demo_net_simps [simp]:
  "env_proto (demo_net es) = demo_proto" "env_codec (demo_net es) = mc_codec" "env_dial (demo_net es) = demo_dial es"
  "br_client_version demo_bridge = demo_version" "br_network_config demo_bridge = network_config_default"
  "br_compression_level demo_bridge = 6" "br_virtual_host demo_bridge = ''play''" "br_player demo_bridge = demo_player"
  by (simp_all add: demo_net_def demo_bridge_def)

text \<open>
  C17: a successful login has a fixed transcript. The backend receives the handshake (carrying the host
  the forwarding mode asks for), the login start, and then exactly one answer per plugin request,
  in order: player information signed with the backend's secret on the two known channels, no
  data on any other. The client is handed the backend's success packet unchanged, and no packet
  after it is consumed.
\<close>
theorem login_backend_transcript:
  assumes "login_backend env br name cfg k = (Inr (c', success), k')"
  shows "\<exists>c pre payload hs ls replies.
    env_dial env (address cfg) (k' - 1) = Dialed c
    \<and> conn_in c = pre @ Packet (login_success_id (env_proto env) (br_client_version br)) payload # conn_in c'
    \<and> success = full_packet (env_codec env) (login_success_id (env_proto env) (br_client_version br)) payload
    \<and> login_handshake env br cfg = Inr hs \<and> login_start env br = Inr ls
    \<and> conn_out c' = conn_out c @ [hs, ls] @ replies
    \<and> answered env br cfg (length (conn_out c) + 2) (plugin_requests env (br_client_version br) pre) replies"
proof -
  obtain c c1 c2 where dial: "connect_to_backend env name (address cfg)
      (backend_connect_timeout_secs (br_network_config br))
      (backend_connect_retry_attempts (br_network_config br)) k = (Inr c, k')"
    and c1: "send_packet (login_handshake env br cfg) c = Inr c1"
    and c2: "send_packet (login_start env br) c1 = Inr c2"
    and run: "login_loop env br name cfg (conn_in c2) c2 = Inr (c', success)"
    using assms by (auto simp: login_backend_def bind_res_Inr_iff split: prod.splits sum.splits)
  have d: "env_dial env (address cfg) (k' - 1) = Dialed c"
    using dial by (auto simp: connect_to_backend_def connect_attempts_Inr split: prod.splits sum.splits)
  obtain hs ls where sent: "login_handshake env br cfg = Inr hs" "login_start env br = Inr ls"
    and out: "conn_out c2 = conn_out c @ [hs, ls]" "conn_in c2 = conn_in c"
    using send_packet_Inr[OF c1] send_packet_Inr[OF c2] by auto
  obtain pre payload replies where
    "conn_in c = pre @ Packet (login_success_id (env_proto env) (br_client_version br)) payload # conn_in c'"
    "success = full_packet (env_codec env) (login_success_id (env_proto env) (br_client_version br)) payload"
    "conn_out c' = conn_out c @ [hs, ls] @ replies"
    "answered env br cfg (length (conn_out c) + 2) (plugin_requests env (br_client_version br) pre) replies"
    using login_loop_transcript[OF run] unfolding out by auto
  with d sent show ?thesis by blast
qed

text \<open>
  A login that needs two attempts, in which the backend asks on an unknown channel and sets a
  compression threshold before it accepts the player.
\<close>

definition demo_login :: "decode_event list" where
  "demo_login = [Packet 4 [7, 1, 120], Packet 3 [64], Packet 2 [9, 9], Packet 20 [1]]"

lemma demo_login_result:
  "case login_backend (demo_net demo_login) demo_bridge ''lobby'' demo_backend 0 of
     (Inr (c, s), k) \<Rightarrow> k = 2 \<and> s = [2, 9, 9] \<and> conn_in c = [Packet 20 [1]]
       \<and> conn_out c = [demo_text 0 ''play'', demo_text 0 ''Alex'' @ player_id demo_player, [2, 7, 0]]
   | _ \<Rightarrow> False"
  by code_simp

theorem login_backend_transcript_witness:
  "\<exists>c' success k'. login_backend (demo_net demo_login) demo_bridge ''lobby'' demo_backend 0 = (Inr (c', success), k')
     \<and> (\<exists>(c :: conn) pre payload hs ls replies. conn_out c' = conn_out c @ [hs, ls] @ replies
       \<and> answered (demo_net demo_login) demo_bridge demo_backend (length (conn_out c) + 2)
          (plugin_requests (demo_net demo_login) demo_version pre) replies
       \<and> conn_in c = pre @ Packet 2 payload # conn_in c')"
proof -
  obtain c' s k' where r: "login_backend (demo_net demo_login) demo_bridge ''lobby'' demo_backend 0 = (Inr (c', s), k')"
    using demo_login_result by (auto split: prod.splits sum.splits)
  have i: "login_success_id demo_proto demo_version = 2" by (simp add: demo_proto_def)
  from login_backend_transcript[OF r] r show ?thesis
    unfolding demo_net_simps i by blast
qed

theorem connect_to_backend_retries_witness:
  "\<exists>c. connect_to_backend (demo_net []) ''lobby'' ''127.0.0.1:25566'' 5 3 0 = (Inr c, 2)
     \<and> env_dial (demo_net []) ''127.0.0.1:25566'' 1 = Dialed c
     \<and> \<not> (\<exists>d. env_dial (demo_net []) ''127.0.0.1:25566'' 0 = Dialed d)"
proof -
  have "case connect_to_backend (demo_net []) ''lobby'' ''127.0.0.1:25566'' 5 3 0 of
      (Inr c, k') \<Rightarrow> k' = 2 | (Inl e, k') \<Rightarrow> False" by code_simp
  then obtain c where r: "connect_to_backend (demo_net []) ''lobby'' ''127.0.0.1:25566'' 5 3 0 = (Inr c, 2)"
    by (auto split: prod.splits sum.splits)
  with connect_to_backend_retries[where env = "demo_net []" and name = "''lobby''" and a = "''127.0.0.1:25566''" and secs = 5
      and retries = 3 and k = 0] show ?thesis
    by (auto simp: numeral_2_eq_2)
qed

end
