(* ===== verification/Command_Tree.thy ===== *)
theory Command_Tree
  imports Protocol
begin

text \<open>
  \<^verbatim>\<open>src/src/backend/bridge.rs\<close>, second part: the two packets the tunnel rewrites. The command
  suggestions of a backend are decoded so that the proxy's own can be merged into them, and the
  proxy's commands are injected into the command tree a backend sends. The layout of a node and of
  a text component is \<^verbatim>\<open>pumpkin_protocol\<close>'s.
\<close>

section \<open>Model\<close>

fun decode_matches ::
  "codec \<Rightarrow> proto \<Rightarrow> java_version \<Rightarrow> nat \<Rightarrow> bytes \<Rightarrow> suggestion list option" where
  "decode_matches c pr v 0 payload = Some []"
| "decode_matches c pr v (Suc n) payload =
     (case get_string c payload of
        Inl _ \<Rightarrow> None
      | Inr (s, payload) \<Rightarrow>
          (case get_bool c payload of
             Inl _ \<Rightarrow> None
           | Inr (has_tooltip, payload) \<Rightarrow>
               (let (tip, payload) = (if has_tooltip then get_component pr v payload else (None, payload))
                in map_option (\<lambda>ms. \<lparr>suggestion_text = s, tooltip = tip\<rparr> # ms)
                     (decode_matches c pr v n payload))))"

definition decode_backend_suggestions ::
  "codec \<Rightarrow> proto \<Rightarrow> java_version \<Rightarrow> bytes \<Rightarrow> (i32 \<times> i32 \<times> i32 \<times> suggestion list) option" where
  "decode_backend_suggestions c pr v payload =
     (if ge_1_13 pr v then
        (case get_var_int c payload of
           Inl _ \<Rightarrow> None
         | Inr (i, payload) \<Rightarrow>
             (case get_var_int c payload of
                Inl _ \<Rightarrow> None
              | Inr (start, payload) \<Rightarrow>
                  (case get_var_int c payload of
                     Inl _ \<Rightarrow> None
                   | Inr (len, payload) \<Rightarrow>
                       (case get_var_int c payload of
                          Inl _ \<Rightarrow> None
                        | Inr (cnt, payload) \<Rightarrow>
                            if \<not> (0 \<le> sint cnt \<and> sint cnt \<le> 20000) then None
                            else map_option (\<lambda>ms. (i, start, len, ms))
                                   (decode_matches c pr v (unat cnt) payload)))))
      else None)"

fun get_var_ints :: "codec \<Rightarrow> nat \<Rightarrow> bytes \<Rightarrow> (i32 list \<times> bytes) option" where
  "get_var_ints c 0 cur = Some ([], cur)"
| "get_var_ints c (Suc n) cur =
     (case get_var_int c cur of
        Inl _ \<Rightarrow> None
      | Inr (v, cur) \<Rightarrow> map_option (\<lambda>(vs, cur). (v # vs, cur)) (get_var_ints c n cur))"

definition takes_args :: "string \<Rightarrow> bool" where
  "takes_args cmd \<longleftrightarrow> cmd \<in> {''server'', ''send'', ''help''}"

definition command_nodes :: "string \<Rightarrow> nat \<Rightarrow> proto_node list" where
  "command_nodes cmd next_node_idx =
     (if takes_args cmd then
        [\<lparr>children = [of_nat (next_node_idx + 1)], node_type = LiteralNode cmd (cmd \<noteq> ''send'')\<rparr>,
         \<lparr>children = [], node_type = GreedyAskServerNode ''args'' True\<rparr>]
      else [\<lparr>children = [], node_type = LiteralNode cmd True\<rparr>])"

text \<open>The nodes of one command, written one after the other; failing to write one gives up.\<close>

fun write_nodes :: "proto \<Rightarrow> java_version \<Rightarrow> proto_node list \<Rightarrow> bytes option" where
  "write_nodes pr v [] = Some []"
| "write_nodes pr v (n # ns) =
     (case write_node pr v n of
        None \<Rightarrow> None
      | Some b \<Rightarrow> map_option (\<lambda>bs. b @ bs) (write_nodes pr v ns))"

fun extra_nodes ::
  "proto \<Rightarrow> java_version \<Rightarrow> (string \<times> string) list \<Rightarrow> nat \<Rightarrow> (i32 list \<times> bytes \<times> nat) option" where
  "extra_nodes pr v [] next_node_idx = Some ([], [], next_node_idx)"
| "extra_nodes pr v ((cmd, _) # cmds) next_node_idx =
     (case write_nodes pr v (command_nodes cmd next_node_idx) of
        None \<Rightarrow> None
      | Some b \<Rightarrow>
          map_option (\<lambda>(new_root_children, buf, idx). (of_nat next_node_idx # new_root_children, b @ buf, idx))
            (extra_nodes pr v cmds (next_node_idx + length (command_nodes cmd next_node_idx))))"

definition inject_proxy_commands ::
  "codec \<Rightarrow> proto \<Rightarrow> java_version \<Rightarrow> bytes \<Rightarrow> (string \<times> string) list \<Rightarrow> bytes option" where
  "inject_proxy_commands c pr v payload permitted_commands =
     (if \<not> ge_1_13 pr v \<or> permitted_commands = [] then None
      else if payload = [] \<or> last payload \<noteq> 0 then None
      else case get_var_int c payload of
        Inl _ \<Rightarrow> None
      | Inr (node_count, cur) \<Rightarrow>
          if sint node_count \<le> 0 then None
          else (case cur of
             [] \<Rightarrow> None
           | flags # cur \<Rightarrow>
               if flags \<noteq> 0 then None
               else (case get_var_int c cur of
                  Inl _ \<Rightarrow> None
                | Inr (children_count, cur) \<Rightarrow>
                    if sint children_count < 0 then None
                    else (case get_var_ints c (unat children_count) cur of
                       None \<Rightarrow> None
                     | Some (original_children, cur) \<Rightarrow>
                         if cur = [] then None
                         else (case extra_nodes pr v permitted_commands (unat node_count) of
                            None \<Rightarrow> None
                          | Some (new_root_children, extra_nodes_buf, next_node_idx) \<Rightarrow>
                              Some (encode_varint c (of_nat next_node_idx) @ [0x00]
                                @ encode_varint c (of_nat (length original_children + length new_root_children))
                                @ concat (map (encode_varint c) original_children)
                                @ concat (map (encode_varint c) new_root_children)
                                @ butlast cur @ extra_nodes_buf @ [0x00]))))))"

section \<open>What a client reads\<close>

text \<open>
  The reader of a client for the command tree packet: the number of nodes, the nodes, and the
  index of the root, which is 0. \<^verbatim>\<open>rn\<close> reads one node; \<^verbatim>\<open>node_reader_ok\<close> is what the format
  promises of it: a root is a zero flag byte, a count and the children; a node read does not depend
  on the bytes after it; and a node written is read back.
\<close>

definition stable :: "(bytes \<Rightarrow> ('a \<times> bytes) option) \<Rightarrow> bool" where
  "stable f \<longleftrightarrow> (\<forall>bs x r. f bs = Some (x, r) \<longrightarrow> (\<exists>p. bs = p @ r \<and> (\<forall>r'. f (p @ r') = Some (x, r'))))"

type_synonym node_reader = "bytes \<Rightarrow> (proto_node \<times> bytes) option"

fun read_nodes :: "node_reader \<Rightarrow> nat \<Rightarrow> bytes \<Rightarrow> (proto_node list \<times> bytes) option" where
  "read_nodes rn 0 bs = Some ([], bs)"
| "read_nodes rn (Suc n) bs =
     (case rn bs of
        None \<Rightarrow> None
      | Some (nd, bs) \<Rightarrow> map_option (\<lambda>(nds, bs). (nd # nds, bs)) (read_nodes rn n bs))"

definition read_commands :: "codec \<Rightarrow> node_reader \<Rightarrow> bytes \<Rightarrow> proto_node list option" where
  "read_commands c rn bs =
     (case get_var_int c bs of
        Inl _ \<Rightarrow> None
      | Inr (n, cur) \<Rightarrow>
          if sint n < 0 then None
          else (case read_nodes rn (unat n) cur of
             None \<Rightarrow> None
           | Some (nds, r) \<Rightarrow> if r = [0] then Some nds else None))"

definition read_root :: "codec \<Rightarrow> node_reader" where
  "read_root c bs =
     (case get_var_int c bs of
        Inl _ \<Rightarrow> None
      | Inr (n, cur) \<Rightarrow>
          if sint n < 0 then None
          else map_option (\<lambda>(vs, r). (\<lparr>children = vs, node_type = RootNode\<rparr>, r)) (get_var_ints c (unat n) cur))"

definition varint_total :: "codec \<Rightarrow> bool" where
  "varint_total c \<longleftrightarrow> (\<forall>v. \<exists>b. write_varint c v = Inr b)"

definition node_reader_ok :: "codec \<Rightarrow> proto \<Rightarrow> java_version \<Rightarrow> node_reader \<Rightarrow> bool" where
  "node_reader_ok c pr v rn \<longleftrightarrow>
     (\<forall>bs. rn (0 # bs) = read_root c bs)
     \<and> stable rn
     \<and> (\<forall>nd b r. write_node pr v nd = Some b \<longrightarrow> rn (b @ r) = Some (nd, r))"

lemma get_var_int_encode [simp]:
  "codec_ok c \<Longrightarrow> varint_total c \<Longrightarrow> get_var_int c (encode_varint c v @ r) = Inr (v, r)"
  unfolding encode_varint_def varint_total_def
  by (metis codec_okD(1) sum.case(2))

lemma get_var_ints_encode:
  assumes "codec_ok c" "varint_total c"
  shows "get_var_ints c (length vs) (concat (map (encode_varint c) vs) @ r) = Some (vs, r)"
  by (induction vs) (simp_all add: assms)

lemma length_get_var_ints: "get_var_ints c n bs = Some (vs, r) \<Longrightarrow> length vs = n"
  by (induction n arbitrary: bs vs r) (auto split: sum.splits)

lemma length_read_nodes: "read_nodes rn n bs = Some (nds, r) \<Longrightarrow> length nds = n"
  by (induction n arbitrary: bs nds r) (auto split: option.splits)

lemma read_nodes_stable:
  assumes "node_reader_ok c pr v rn" "read_nodes rn n bs = Some (nds, r)"
  shows "\<exists>p. bs = p @ r \<and> (\<forall>r'. read_nodes rn n (p @ r') = Some (nds, r'))"
  using assms(2)
proof (induction n arbitrary: bs nds)
  case 0
  then show ?case by simp
next
  case (Suc n)
  then obtain nd bs1 nds1 where 1: "rn bs = Some (nd, bs1)" "read_nodes rn n bs1 = Some (nds1, r)" "nds = nd # nds1"
    by (auto split: option.splits)
  obtain p where p: "bs1 = p @ r" "\<forall>r'. read_nodes rn n (p @ r') = Some (nds1, r')" using Suc.IH[OF 1(2)] by blast
  obtain q where q: "bs = q @ bs1" "\<forall>r'. rn (q @ r') = Some (nd, r')"
    using assms(1) 1(1) unfolding node_reader_ok_def stable_def by blast
  from 1 p q show ?case by (intro exI[of _ "q @ p"]) simp
qed

lemma read_nodes_add:
  "read_nodes rn m bs = Some (xs, bs') \<Longrightarrow> read_nodes rn n bs' = Some (ys, r) \<Longrightarrow>
    read_nodes rn (m + n) bs = Some (xs @ ys, r)"
  by (induction m arbitrary: bs xs) (auto split: option.splits)

lemma read_written_nodes:
  assumes "node_reader_ok c pr v rn" "write_nodes pr v nds = Some b"
  shows "read_nodes rn (length nds) (b @ r) = Some (nds, r)"
  using assms(2)
proof (induction nds arbitrary: b)
  case Nil
  then show ?case by simp
next
  case (Cons nd nds)
  then obtain b1 b2 where "write_node pr v nd = Some b1" "write_nodes pr v nds = Some b2" "b = b1 @ b2"
    by (auto split: option.splits)
  moreover from this have "rn (b1 @ b2 @ r) = Some (nd, b2 @ r)" using assms(1) unfolding node_reader_ok_def by blast
  ultimately show ?case using Cons.IH by simp
qed

section \<open>Injection\<close>

text \<open>The nodes the proxy adds, when the first one gets index \<^verbatim>\<open>k\<close>, and the indices of its literals.\<close>

fun proxy_nodes :: "string list \<Rightarrow> nat \<Rightarrow> proto_node list" where
  "proxy_nodes [] k = []"
| "proxy_nodes (n # ns) k = command_nodes n k @ proxy_nodes ns (k + length (command_nodes n k))"

fun proxy_roots :: "string list \<Rightarrow> nat \<Rightarrow> nat list" where
  "proxy_roots [] k = []"
| "proxy_roots (n # ns) k = k # proxy_roots ns (k + length (command_nodes n k))"

lemma write_nodes_append:
  "write_nodes pr v (xs @ ys) =
     (case write_nodes pr v xs of None \<Rightarrow> None | Some b \<Rightarrow> map_option ((@) b) (write_nodes pr v ys))"
  by (cases "write_nodes pr v ys"; induction xs) (auto split: option.splits)

lemma extra_nodes_Some:
  "extra_nodes pr v cmds k = Some (ch, buf, idx) \<Longrightarrow>
     ch = map of_nat (proxy_roots (map fst cmds) k) \<and> idx = k + length (proxy_nodes (map fst cmds) k)
     \<and> write_nodes pr v (proxy_nodes (map fst cmds) k) = Some buf"
  by (induction pr v cmds k arbitrary: ch buf idx rule: extra_nodes.induct)
    (auto simp: write_nodes_append split: option.splits)

lemma length_command_nodes: "length (command_nodes n k) = (if takes_args n then 2 else 1)"
  by (simp add: command_nodes_def)

lemma length_proxy_nodes: "length (proxy_nodes ns k) \<le> 2 * length ns"
  by (induction ns arbitrary: k) (auto simp: length_command_nodes add.commute intro: le_SucI order_trans)

lemma length_proxy_roots [simp]: "length (proxy_roots ns k) = length ns"
  by (induction ns arbitrary: k) auto

text \<open>Every index the proxy gives its commands is that of the command's literal.\<close>

lemma proxy_roots_nodes:
  "j < length ns \<Longrightarrow> k \<le> proxy_roots ns k ! j \<and> proxy_roots ns k ! j < k + length (proxy_nodes ns k)
     \<and> node_type (proxy_nodes ns k ! (proxy_roots ns k ! j - k)) = LiteralNode (ns ! j) (ns ! j \<noteq> ''send'')"
proof (induction ns arbitrary: j k)
  case Nil
  then show ?case by simp
next
  case (Cons n ns)
  show ?case
  proof (cases j)
    case 0
    then show ?thesis by (auto simp: command_nodes_def takes_args_def)
  next
    case (Suc i)
    let ?l = "length (command_nodes n k)"
    have ih: "k + ?l \<le> proxy_roots ns (k + ?l) ! i" "proxy_roots ns (k + ?l) ! i < k + ?l + length (proxy_nodes ns (k + ?l))"
      "node_type (proxy_nodes ns (k + ?l) ! (proxy_roots ns (k + ?l) ! i - (k + ?l))) = LiteralNode (ns ! i) (ns ! i \<noteq> ''send'')"
      using Cons.IH[of i "k + ?l"] Cons.prems Suc by auto
    then show ?thesis using Suc by (auto simp: nth_append)
  qed
qed

lemma read_commands_SomeD:
  assumes "read_commands c rn bs = Some nds"
  obtains n cur where "get_var_int c bs = Inr (n, cur)" "0 \<le> sint n" "read_nodes rn (unat n) cur = Some (nds, [0])"
    "length nds = unat n"
  using assms length_read_nodes[of rn]
  by (auto simp: read_commands_def not_less split: sum.splits option.splits if_splits)

lemma sint_of_nat_small: "n < 2 ^ 31 \<Longrightarrow> sint (of_nat n :: i32) = int n \<and> unat (of_nat n :: i32) = n"
proof -
  assume n: "n < 2 ^ 31"
  have u: "unat (of_nat n :: i32) = n" using n by (simp add: unat_of_nat take_bit_nat_eq_self)
  have "uint (of_nat n :: i32) < 2 ^ 31" using n u by (simp add: uint_nat)
  then have "sint (of_nat n :: i32) = uint (of_nat n :: i32)"
    using order_trans[OF _ uint_ge_0, of "- 2147483648" "of_nat n :: i32"]
    by (simp add: sint_uint signed_take_bit_int_eq_self_iff)
  with u show ?thesis by (simp add: uint_nat)
qed

lemma sint_of_nat_nonneg: "n < 2 ^ 31 \<Longrightarrow> 0 \<le> sint (of_nat n :: i32) \<and> unat (of_nat n :: i32) = n"
  using sint_of_nat_small[of n] by simp

text \<open>
  C18: the proxy's commands are added to a backend's command tree without disturbing it: if a client
  reads the backend's packet as a root and further nodes, it reads the rewritten packet as the
  same nodes, in the same places, followed by the proxy's, under a root with the old children and
  then one new child per permitted command; each new child designates the literal node of its
  command.
\<close>
theorem inject_proxy_commands_tree:
  assumes wire: "codec_ok c" "varint_total c" "node_reader_ok c pr v rn"
    and tree: "read_commands c rn payload = Some (rt # nodes)"
    and inject: "inject_proxy_commands c pr v payload cmds = Some payload'"
    and small: "length nodes + length (children rt) + 2 * length cmds + 1 < 2 ^ 31"
  shows "read_commands c rn payload' =
      Some (rt\<lparr>children := children rt @ map of_nat (proxy_roots (map fst cmds) (length nodes + 1))\<rparr>
        # nodes @ proxy_nodes (map fst cmds) (length nodes + 1))
    \<and> (\<forall>j < length cmds. let i = proxy_roots (map fst cmds) (length nodes + 1) ! j in
        length nodes < i \<and> node_type ((rt # nodes @ proxy_nodes (map fst cmds) (length nodes + 1)) ! i)
          = LiteralNode (fst (cmds ! j)) (fst (cmds ! j) \<noteq> ''send''))"
proof -
  let ?k = "length nodes + 1" and ?ns = "map fst cmds"
  obtain n cur0 where n: "get_var_int c payload = Inr (n, cur0)" "read_nodes rn (unat n) cur0 = Some (rt # nodes, [0])"
    and len: "unat n = ?k"
    by (rule read_commands_SomeD[OF tree]) (metis length_Cons Suc_eq_plus1)
  obtain cur m cur1 ch cur2 buf where cur: "cur0 = 0 # cur" "get_var_int c cur = Inr (m, cur1)" "0 \<le> sint m"
    "get_var_ints c (unat m) cur1 = Some (ch, cur2)" "cur2 \<noteq> []"
    and buf: "write_nodes pr v (proxy_nodes ?ns ?k) = Some buf"
    and out: "payload' = encode_varint c (of_nat (?k + length (proxy_nodes ?ns ?k))) @ [0]
        @ encode_varint c (of_nat (length ch + length cmds)) @ concat (map (encode_varint c) ch)
        @ concat (map (encode_varint c) (map of_nat (proxy_roots ?ns ?k))) @ butlast cur2 @ buf @ [0]"
    using inject n(1) len by (auto simp: inject_proxy_commands_def not_less split: sum.splits option.splits list.splits if_splits
      dest!: extra_nodes_Some)
  have "rn cur0 = Some (\<lparr>children = ch, node_type = RootNode\<rparr>, cur2)"
    using cur wire(3) by (simp add: node_reader_ok_def read_root_def)
  with n(2) len have root: "rt = \<lparr>children = ch, node_type = RootNode\<rparr>"
    and rest: "read_nodes rn (length nodes) cur2 = Some (nodes, [0])"
    by (auto split: option.splits)
  obtain p where p: "cur2 = p @ [0]" "\<forall>r. read_nodes rn (length nodes) (p @ r) = Some (nodes, r)"
    using read_nodes_stable[OF wire(3) rest] by blast
  let ?ch = "ch @ map of_nat (proxy_roots ?ns ?k)" and ?all = "length nodes + length (proxy_nodes ?ns ?k)"
  have "rn (0 # encode_varint c (of_nat (length ch + length cmds)) @ concat (map (encode_varint c) ?ch) @ p @ buf @ [0])
      = Some (\<lparr>children = ?ch, node_type = RootNode\<rparr>, p @ buf @ [0])"
  proof -
    have "length ch + length cmds < 2 ^ 31" using small root by simp
    then show ?thesis using wire get_var_ints_encode[OF wire(1,2), of ?ch "p @ buf @ [0]"]
        sint_of_nat_nonneg[of "length ch + length cmds"]
      by (simp add: node_reader_ok_def read_root_def not_less del: of_nat_add)
  qed
  moreover have "read_nodes rn ?all (p @ buf @ [0]) = Some (nodes @ proxy_nodes ?ns ?k, [0])"
    using p(2) read_written_nodes[OF wire(3) buf, of "[0]"] by (intro read_nodes_add) auto
  moreover have "Suc ?all < 2 ^ 31" using small length_proxy_nodes[of ?ns ?k] by simp
  ultimately have "read_commands c rn payload' = Some (\<lparr>children = ?ch, node_type = RootNode\<rparr> # nodes @ proxy_nodes ?ns ?k)"
    using out p(1) wire sint_of_nat_nonneg[of "Suc ?all"] by (simp add: read_commands_def del: of_nat_add of_nat_Suc)
  moreover have "length nodes < i \<and> node_type ((rt # nodes @ proxy_nodes ?ns ?k) ! i) = LiteralNode (fst (cmds ! j)) (fst (cmds ! j) \<noteq> ''send'')"
    if "j < length cmds" "i = proxy_roots ?ns ?k ! j" for i j
    using proxy_roots_nodes[of j ?ns ?k] that by (auto simp: nth_append nth_Cons split: nat.splits)
  ultimately show ?thesis using root by (simp add: Let_def)
qed

section \<open>A node format\<close>

text \<open>Readers that do not look past what they consume compose.\<close>

lemma stableD: "stable f \<Longrightarrow> f bs = Some (x, r) \<Longrightarrow> \<exists>p. bs = p @ r \<and> (\<forall>r'. f (p @ r') = Some (x, r'))"
  unfolding stable_def by blast

lemma stable_return [intro]: "stable (\<lambda>bs. Some (x, bs))"
  unfolding stable_def by auto

lemma stable_fail [intro]: "stable (\<lambda>bs. None)"
  unfolding stable_def by auto

lemma stable_bind [intro]:
  assumes "stable f" "\<And>x. stable (g x)"
  shows "stable (\<lambda>bs. case f bs of None \<Rightarrow> None | Some (x, r) \<Rightarrow> g x r)"
  unfolding stable_def
proof (intro allI impI)
  fix bs y r
  assume "(case f bs of None \<Rightarrow> None | Some (x, r) \<Rightarrow> g x r) = Some (y, r)"
  then obtain x r1 where 1: "f bs = Some (x, r1)" "g x r1 = Some (y, r)" by (auto split: option.splits)
  obtain p where p: "bs = p @ r1" "\<And>r'. f (p @ r') = Some (x, r')" using stableD[OF assms(1) 1(1)] by blast
  obtain q where q: "r1 = q @ r" "\<And>r'. g x (q @ r') = Some (y, r')" using stableD[OF assms(2) 1(2)] by blast
  from p q show "\<exists>p. bs = p @ r \<and> (\<forall>r'. (case f (p @ r') of None \<Rightarrow> None | Some (x, r) \<Rightarrow> g x r) = Some (y, r'))"
    by (intro exI[of _ "p @ q"]) auto
qed

lemma stable_cong: "(\<And>bs. f bs = g bs) \<Longrightarrow> stable g \<Longrightarrow> stable f"
  unfolding stable_def by simp

lemma stable_unvarint: "stable unvarint_nat"
  unfolding stable_def
proof (intro allI impI)
  fix bs n r
  show "unvarint_nat bs = Some (n, r) \<Longrightarrow> \<exists>p. bs = p @ r \<and> (\<forall>r'. unvarint_nat (p @ r') = Some (n, r'))"
  proof (induction bs arbitrary: n)
    case Nil
    then show ?case by simp
  next
    case (Cons b bs)
    show ?case
    proof (cases "unat b < 128")
      case True
      with Cons.prems show ?thesis by (intro exI[of _ "[b]"]) auto
    next
      case False
      with Cons.prems obtain m where m: "unvarint_nat bs = Some (m, r)" "n = unat b - 128 + 128 * m" by auto
      obtain p where "bs = p @ r" "\<forall>r'. unvarint_nat (p @ r') = Some (m, r')" using Cons.IH[OF m(1)] by blast
      with False m show ?thesis by (intro exI[of _ "b # p"]) auto
    qed
  qed
qed

definition ok_of :: "'e + 'a \<Rightarrow> 'a option" where
  "ok_of r = (case r of Inl _ \<Rightarrow> None | Inr a \<Rightarrow> Some a)"

lemma stable_varint: "stable (\<lambda>bs. ok_of (mc_get_var_int bs))"
  by (rule stable_cong[OF _ stable_bind[OF stable_unvarint, of "\<lambda>n r. Some (of_nat n, r)"]])
    (auto simp: ok_of_def mc_get_var_int_def split: option.splits)

lemma get_var_int_mc [simp]: "get_var_int mc_codec = mc_get_var_int" "get_string mc_codec = mc_get_string"
  by (simp_all add: mc_codec_def)

lemma stable_varints: "stable (get_var_ints mc_codec n)"
proof (induction n)
  case 0
  show ?case by (rule stable_cong[OF _ stable_return]) simp
next
  case (Suc n)
  show ?case
  proof (rule stable_cong)
    show "get_var_ints mc_codec (Suc n) bs = (case ok_of (mc_get_var_int bs) of None \<Rightarrow> None | Some (v, r) \<Rightarrow>
        (case get_var_ints mc_codec n r of None \<Rightarrow> None | Some (vs, r) \<Rightarrow> Some (v # vs, r)))" for bs
      by (auto simp: ok_of_def split: sum.splits option.splits)
    show "stable (\<lambda>bs. case ok_of (mc_get_var_int bs) of None \<Rightarrow> None | Some (v, r) \<Rightarrow>
        (case get_var_ints mc_codec n r of None \<Rightarrow> None | Some (vs, r) \<Rightarrow> Some (v # vs, r)))"
      by (rule stable_bind[OF stable_varint], rule stable_bind[OF Suc.IH], rule stable_return)
  qed
qed

lemma stable_root: "stable (read_root mc_codec)"
proof (rule stable_cong)
  show "read_root mc_codec bs = (case ok_of (mc_get_var_int bs) of None \<Rightarrow> None | Some (n, r) \<Rightarrow>
      if sint n < 0 then None else (case get_var_ints mc_codec (unat n) r of
        None \<Rightarrow> None | Some (vs, r) \<Rightarrow> Some (\<lparr>children = vs, node_type = RootNode\<rparr>, r)))" for bs
    by (auto simp: ok_of_def read_root_def split: sum.splits option.splits)
  have "stable (\<lambda>r. if sint n < 0 then None else (case get_var_ints mc_codec (unat n) r of
        None \<Rightarrow> None | Some (vs, r) \<Rightarrow> Some (\<lparr>children = vs, node_type = RootNode\<rparr>, r)))" for n :: i32
    by (cases "sint n < 0") (simp_all add: stable_fail stable_bind[OF stable_varints stable_return])
  then show "stable (\<lambda>bs. case ok_of (mc_get_var_int bs) of None \<Rightarrow> None | Some (n, r) \<Rightarrow>
      if sint n < 0 then None else (case get_var_ints mc_codec (unat n) r of
        None \<Rightarrow> None | Some (vs, r) \<Rightarrow> Some (\<lparr>children = vs, node_type = RootNode\<rparr>, r)))"
    by (rule stable_bind[OF stable_varint])
qed

lemma stable_string: "stable (\<lambda>bs. ok_of (mc_get_string bs))"
proof (rule stable_cong)
  show "ok_of (mc_get_string bs) = (case unvarint_nat bs of None \<Rightarrow> None | Some (n, r) \<Rightarrow>
      if length r < n then None else Some (bytes_to_string (take n r), drop n r))" for bs
    by (auto simp: ok_of_def mc_get_string_def split: option.splits)
  have "stable (\<lambda>r. if length r < n then None else Some (bytes_to_string (take n r), drop n r))" for n
    unfolding stable_def
  proof (intro allI impI)
    fix bs x r
    assume "(if length bs < n then None else Some (bytes_to_string (take n bs), drop n bs)) = Some (x, r)"
    then have "n \<le> length bs" "x = bytes_to_string (take n bs)" "r = drop n bs" by (auto split: if_splits)
    then show "\<exists>p. bs = p @ r \<and> (\<forall>r'. (if length (p @ r') < n then None
        else Some (bytes_to_string (take n (p @ r')), drop n (p @ r'))) = Some (x, r'))"
      by (intro exI[of _ "take n bs"]) simp
  qed
  then show "stable (\<lambda>bs. case unvarint_nat bs of None \<Rightarrow> None | Some (n, r) \<Rightarrow>
      if length r < n then None else Some (bytes_to_string (take n r), drop n r))"
    by (rule stable_bind[OF stable_unvarint])
qed

text \<open>The reader of the small instance's nodes.\<close>

definition demo_read_node :: node_reader where
  "demo_read_node bs =
     (case bs of
        [] \<Rightarrow> None
      | f # cur \<Rightarrow>
          if f = 0 then read_root mc_codec cur
          else if f \<in> {1, 5, 18, 22} then
            (case read_root mc_codec cur of
               None \<Rightarrow> None
             | Some (nd, cur) \<Rightarrow>
                 (case ok_of (mc_get_string cur) of
                    None \<Rightarrow> None
                  | Some (s, cur) \<Rightarrow> Some (nd\<lparr>node_type :=
                      (if f = 1 \<or> f = 5 then LiteralNode s (f = 5) else GreedyAskServerNode s (f = 22))\<rparr>, cur)))
          else None)"

lemma stable_Cons: "(\<And>f. stable (g f)) \<Longrightarrow> stable (\<lambda>bs. case bs of [] \<Rightarrow> None | f # cur \<Rightarrow> g f cur)"
  unfolding stable_def
proof (intro allI impI)
  fix bs x r
  assume g: "\<And>f. \<forall>bs x r. g f bs = Some (x, r) \<longrightarrow> (\<exists>p. bs = p @ r \<and> (\<forall>r'. g f (p @ r') = Some (x, r')))"
    and "(case bs of [] \<Rightarrow> None | f # cur \<Rightarrow> g f cur) = Some (x, r)"
  then obtain f cur where cur: "bs = f # cur" "g f cur = Some (x, r)" by (auto split: list.splits)
  with g obtain p where "cur = p @ r" "\<forall>r'. g f (p @ r') = Some (x, r')" by blast
  with cur show "\<exists>p. bs = p @ r \<and> (\<forall>r'. (case p @ r' of [] \<Rightarrow> None | f # cur \<Rightarrow> g f cur) = Some (x, r'))"
    by (intro exI[of _ "f # p"]) simp
qed

lemma stable_demo_read_node: "stable demo_read_node"
proof (rule stable_cong[OF demo_read_node_def], rule stable_Cons)
  fix f :: u8
  show "stable (\<lambda>cur. if f = 0 then read_root mc_codec cur else if f \<in> {1, 5, 18, 22} then
      (case read_root mc_codec cur of None \<Rightarrow> None | Some (nd, cur) \<Rightarrow> (case ok_of (mc_get_string cur) of None \<Rightarrow> None
        | Some (s, cur) \<Rightarrow> Some (nd\<lparr>node_type :=
            (if f = 1 \<or> f = 5 then LiteralNode s (f = 5) else GreedyAskServerNode s (f = 22))\<rparr>, cur)))
      else None)"
    by (cases "f = 0"; cases "f \<in> {1, 5, 18, 22}")
      (simp_all add: stable_root stable_fail stable_bind[OF stable_root stable_bind[OF stable_string stable_return]])
qed

lemma varint_total_mc: "varint_total mc_codec"
  by (simp add: varint_total_def mc_codec_def mc_write_varint_def)

lemma encode_varint_mc: "encode_varint mc_codec v = varint_nat (unat v)"
  by (simp add: encode_varint_def mc_codec_def mc_write_varint_def)

lemma read_root_mc:
  assumes "length vs < 2 ^ 31"
  shows "read_root mc_codec (varint_nat (length vs) @ concat (map (\<lambda>c. varint_nat (unat c)) vs) @ r)
    = Some (\<lparr>children = vs, node_type = RootNode\<rparr>, r)"
proof -
  have "mc_get_var_int (varint_nat (length vs) @ cur) = Inr (of_nat (length vs), cur)" for cur
    by (simp add: mc_get_var_int_def unvarint_varint)
  moreover have "get_var_ints mc_codec (length vs) (concat (map (\<lambda>c. varint_nat (unat c)) vs) @ r) = Some (vs, r)"
    using get_var_ints_encode[OF codec_ok_mc varint_total_mc, of vs r] by (simp add: encode_varint_mc[abs_def])
  ultimately show ?thesis using sint_of_nat_nonneg[OF assms] by (simp add: read_root_def)
qed

lemma demo_node_reader_ok: "node_reader_ok mc_codec demo_proto v demo_read_node"
proof -
  have str: "mc_get_string (varint_nat (length s) @ as_bytes s @ r) = Inr (s, r)" for s r
    by (simp add: mc_get_string_def unvarint_varint)
  have "demo_read_node (b @ r) = Some (nd, r)" if "write_node demo_proto v nd = Some b" for nd b r
  proof (cases "node_type nd")
    case RootNode
    with that show ?thesis using read_root_mc[of "children nd"]
      by (auto simp: demo_proto_def demo_read_node_def split: if_splits)
  next
    case (LiteralNode s e)
    with that show ?thesis using read_root_mc[of "children nd"]
      by (auto simp: demo_proto_def demo_read_node_def ok_of_def str split: if_splits)
  next
    case (GreedyAskServerNode s e)
    with that show ?thesis using read_root_mc[of "children nd"]
      by (auto simp: demo_proto_def demo_read_node_def ok_of_def str split: if_splits)
  qed
  then show ?thesis by (simp add: node_reader_ok_def stable_demo_read_node) (simp add: demo_read_node_def)
qed

text \<open>A backend that offers \<^verbatim>\<open>/say\<close>, and the proxy's \<^verbatim>\<open>/server\<close> and \<^verbatim>\<open>/list\<close>.\<close>

definition demo_tree :: bytes where
  "demo_tree = [2, 0, 1, 1, 5, 0, 3, 115, 97, 121, 0]"

theorem inject_proxy_commands_tree_witness:
  "\<exists>payload'. inject_proxy_commands mc_codec demo_proto demo_version demo_tree [(''server'', ''d''), (''list'', ''d'')] = Some payload'
    \<and> read_commands mc_codec demo_read_node payload' =
       Some [\<lparr>children = [1, 2, 4], node_type = RootNode\<rparr>, \<lparr>children = [], node_type = LiteralNode ''say'' True\<rparr>,
         \<lparr>children = [3], node_type = LiteralNode ''server'' True\<rparr>, \<lparr>children = [], node_type = GreedyAskServerNode ''args'' True\<rparr>,
         \<lparr>children = [], node_type = LiteralNode ''list'' True\<rparr>]"
proof -
  have "inject_proxy_commands mc_codec demo_proto demo_version demo_tree [(''server'', ''d''), (''list'', ''d'')] \<noteq> None"
    by code_simp
  then obtain p where p: "inject_proxy_commands mc_codec demo_proto demo_version demo_tree [(''server'', ''d''), (''list'', ''d'')] = Some p"
    by blast
  have "read_commands mc_codec demo_read_node demo_tree =
      Some [\<lparr>children = [1], node_type = RootNode\<rparr>, \<lparr>children = [], node_type = LiteralNode ''say'' True\<rparr>]"
    by code_simp
  from inject_proxy_commands_tree[OF codec_ok_mc varint_total_mc demo_node_reader_ok this p] p show ?thesis
    by (simp add: command_nodes_def takes_args_def)
qed

section \<open>Backend suggestions\<close>

text \<open>
  The format of a suggestions packet, with \<^verbatim>\<open>wc\<close> writing a text component: id, start and length of
  the range, the number of matches, and each match with an optional tooltip.
\<close>

definition written :: "('a \<Rightarrow> string + bytes) \<Rightarrow> 'a \<Rightarrow> bytes" where
  "written w x = (case w x of Inr b \<Rightarrow> b | Inl _ \<Rightarrow> [])"

definition encode_match :: "codec \<Rightarrow> (text_component \<Rightarrow> bytes) \<Rightarrow> suggestion \<Rightarrow> bytes" where
  "encode_match c wc m =
     written (write_string c) (suggestion_text m)
     @ (case tooltip m of None \<Rightarrow> written (write_bool c) False | Some t \<Rightarrow> written (write_bool c) True @ wc t)"

definition encode_suggestions ::
  "codec \<Rightarrow> (text_component \<Rightarrow> bytes) \<Rightarrow> i32 \<Rightarrow> i32 \<Rightarrow> i32 \<Rightarrow> suggestion list \<Rightarrow> bytes" where
  "encode_suggestions c wc i start len ms =
     encode_varint c i @ encode_varint c start @ encode_varint c len @ encode_varint c (of_nat (length ms))
     @ concat (map (encode_match c wc) ms)"

definition writers_total :: "codec \<Rightarrow> bool" where
  "writers_total c \<longleftrightarrow> varint_total c \<and> (\<forall>s. \<exists>b. write_string c s = Inr b) \<and> (\<forall>x. \<exists>b. write_bool c x = Inr b)"

lemma get_written:
  assumes "codec_ok c" "writers_total c"
  shows "get_string c (written (write_string c) s @ r) = Inr (s, r)" "get_bool c (written (write_bool c) x @ r) = Inr (x, r)"
  using assms unfolding written_def writers_total_def by (metis codec_okD(2) sum.case(2), metis codec_okD(3) sum.case(2))

lemma decode_matches_encode:
  assumes "codec_ok c" "writers_total c" "\<And>t r. get_component pr v (wc t @ r) = (Some t, r)"
  shows "decode_matches c pr v (length ms) (concat (map (encode_match c wc) ms) @ r) = Some ms"
  by (induction ms)
    (auto simp: encode_match_def get_written[OF assms(1,2)] assms(3) Let_def split: option.splits)


lemma writers_total_mc: "writers_total mc_codec"
  using varint_total_mc by (simp add: writers_total_def mc_codec_def mc_write_string_def mc_write_bool_def)


end
