(* ===== verification/Tunnel.thy ===== *)
theory Tunnel
  imports Backend_Login Command_Tree Rate_Limiter "HOL-Library.Sublist" "HOL-Library.Multiset"
begin

text \<open>
  \<^verbatim>\<open>src/src/backend/bridge.rs\<close>, third part: \<^verbatim>\<open>bridge_tunnel\<close>, four loops run concurrently by
  \<^verbatim>\<open>tokio::select!\<close> until one of them ends. A step is one iteration of one loop, and a schedule
  is the list of steps in the order in which they happen, with what happens around the tunnel
  between them: a spawned timer of a suggestion request runs, somebody else sends an action to the
  player, the shared registry changes. Statements are about every schedule. A loop that is ready
  without input does nothing. The tunnel's channel to the client writer never refuses a packet,
  since the writer owns its receiving end until the tunnel ends.
\<close>

section \<open>Model\<close>

datatype tunnel_exit =
    ClientDisconnected
  | ExitConnect string
  | ExitTransfer string u16
  | BackendDisconnected "string option"

record pending_suggestion =
  clean_cmd :: string
  pending_offset :: nat
  proxy_matches :: "(string \<times> string option) list"

record 'w tunnel_env = net_env +
  env_wasm :: "'w wasm_host"
  env_raw :: raw_ops
  env_uuid_text :: "uuid \<Rightarrow> string"

record 'w bridge_state =
  st_client :: conn
  st_backend :: conn
  st_server :: string
  st_tx :: channel
  st_sessions :: session_manager
  st_online :: u64
  st_world :: 'w
  st_actions :: "player_action list"
  st_sent :: "effect list"
  st_pending :: "(i32, pending_suggestion) hmap"
  st_queue :: "bytes list"
  st_limiter :: packet_rate_limiter
  st_clock :: instant
  st_dials :: nat

definition tunnel_source :: "backend_bridge \<Rightarrow> 'w bridge_state \<Rightarrow> proxy_command_source" where
  "tunnel_source br st =
     \<lparr>sender = Player (player_name (br_player br)) (st_tx st), source_config = br_proxy_config br,
      source_sessions = st_sessions st\<rparr>"

definition first_word :: "string \<Rightarrow> string" where
  "first_word s = (case split_whitespace s of w # _ \<Rightarrow> w | [] \<Rightarrow> s)"

text \<open>Effects on the player's own channel are queued there; the others leave the tunnel.\<close>

definition own_action :: "channel \<Rightarrow> effect \<Rightarrow> player_action option" where
  "own_action tx e = (case e of Send ch a \<Rightarrow> if ch = tx then Some a else None | ConsoleLine _ \<Rightarrow> None)"

definition deliver :: "effect list \<Rightarrow> 'w bridge_state \<Rightarrow> 'w bridge_state" where
  "deliver es st =
     st\<lparr>st_actions := st_actions st @ List.map_filter (own_action (st_tx st)) es,
        st_sent := st_sent st @ filter (\<lambda>e. own_action (st_tx st) e = None) es\<rparr>"

definition enqueue :: "bytes option \<Rightarrow> 'w bridge_state \<Rightarrow> 'w bridge_state" where
  "enqueue b st = (case b of None \<Rightarrow> st | Some b \<Rightarrow> st\<lparr>st_queue := st_queue st @ [b]\<rparr>)"

subsection \<open>From the client\<close>

text \<open>Each interceptor says whether it has consumed the packet (the loop continues) or not.\<close>

definition on_chat_command ::
  "'w tunnel_env \<Rightarrow> backend_bridge \<Rightarrow> bytes \<Rightarrow> 'w bridge_state \<Rightarrow> bool \<times> 'w bridge_state" where
  "on_chat_command env br payload st =
     (case read_chat_command (env_proto env) (br_client_version br) payload of
        None \<Rightarrow> (False, st)
      | Some cmd_text \<Rightarrow>
          (case fire_player_command (env_wasm env) (br_plugin_manager br)
                  \<lparr>command_uuid = env_uuid_text env (player_id (br_player br)),
                   command_username = player_name (br_player br), command_text = cmd_text, command_cancelled = False\<rparr>
                  (st_world st) of
             (ev, w) \<Rightarrow>
               let st = st\<lparr>st_world := w\<rparr>
               in if command_cancelled ev then (True, st)
                  else if has_command (env_raw env) (br_command_dispatcher br) (first_word (command_text ev))
                  then (True, deliver (handle_command (env_raw env) (br_command_dispatcher br) (tunnel_source br st)
                          (command_text ev)) st)
                  else (False, st)))"

definition on_chat_message ::
  "'w tunnel_env \<Rightarrow> backend_bridge \<Rightarrow> bytes \<Rightarrow> 'w bridge_state \<Rightarrow> bool \<times> 'w bridge_state" where
  "on_chat_message env br payload st =
     (case read_chat_message (env_proto env) (br_client_version br) payload of
        None \<Rightarrow> (False, st)
      | Some msg \<Rightarrow>
          (case fire_player_chat (env_wasm env) (br_plugin_manager br)
                  \<lparr>chat_uuid = env_uuid_text env (player_id (br_player br)),
                   chat_username = player_name (br_player br), chat_message = msg, chat_cancelled = False\<rparr>
                  (st_world st) of
             (ev, w) \<Rightarrow> (chat_cancelled ev, st\<lparr>st_world := w\<rparr>)))"

definition on_custom_payload ::
  "'w tunnel_env \<Rightarrow> backend_bridge \<Rightarrow> bytes \<Rightarrow> 'w bridge_state \<Rightarrow> bool \<times> 'w bridge_state" where
  "on_custom_payload env br payload st =
     (case read_custom_payload (env_proto env) (br_client_version br) payload of
        None \<Rightarrow> (False, st)
      | Some (ch, dat) \<Rightarrow>
          (case fire_plugin_message (env_wasm env) (br_plugin_manager br)
                  \<lparr>message_channel = ch, message_data = dat,
                   message_player_uuid = Some (env_uuid_text env (player_id (br_player br))),
                   message_server_name = Some (st_server st), message_cancelled = False\<rparr>
                  (st_world st) of
             (ev, w) \<Rightarrow> (message_cancelled ev, st\<lparr>st_world := w\<rparr>)))"

definition on_command_suggestion ::
  "'w tunnel_env \<Rightarrow> backend_bridge \<Rightarrow> bytes \<Rightarrow> 'w bridge_state \<Rightarrow> bool \<times> 'w bridge_state" where
  "on_command_suggestion env br payload st =
     (case read_command_suggestion (env_proto env) (br_client_version br) payload of
        None \<Rightarrow> (False, st)
      | Some (req_id, raw_cmd) \<Rightarrow>
          let clean = strip_slash raw_cmd;
              src = tunnel_source br st;
              offset = (if starts_with ''/'' raw_cmd then 1 else 0)
          in if CHR '' '' \<in> set clean \<and> has_command (env_raw env) (br_command_dispatcher br) (first_word clean) then
               (let s = suggest_command (env_raw env) (br_command_dispatcher br) clean src
                in (True, enqueue (ser_command_suggestions (env_proto env) (br_client_version br) req_id
                      (of_nat (range_start s + offset)) (of_nat (range_end s - range_start s)) (suggestion_list s)) st))
             else if CHR '' '' \<notin> set clean then
               (let matches = map (\<lambda>(n, d). (n, Some d)) (filter (\<lambda>(n, _). starts_with (to_ascii_lowercase clean) n)
                      (get_all_permitted_commands (env_raw env) (br_command_dispatcher br) src))
                in if matches \<noteq> []
                   then (False, st\<lparr>st_pending := AList.update req_id
                          \<lparr>clean_cmd = clean, pending_offset = offset, proxy_matches = matches\<rparr> (st_pending st)\<rparr>)
                   else (False, st))
             else (False, st))"

text \<open>The interceptors are tried in turn on a packet with their id.\<close>

fun intercept :: "(i32 \<times> (bytes \<Rightarrow> 's \<Rightarrow> bool \<times> 's)) list \<Rightarrow> i32 \<Rightarrow> bytes \<Rightarrow> 's \<Rightarrow> bool \<times> 's" where
  "intercept [] i payload st = (False, st)"
| "intercept ((k, h) # hs) i payload st =
     (if i = k then (case h payload st of (True, st) \<Rightarrow> (True, st) | (False, st) \<Rightarrow> intercept hs i payload st)
      else intercept hs i payload st)"

definition client_interceptors ::
  "'w tunnel_env \<Rightarrow> backend_bridge \<Rightarrow> (i32 \<times> (bytes \<Rightarrow> 'w bridge_state \<Rightarrow> bool \<times> 'w bridge_state)) list" where
  "client_interceptors env br =
     (let pr = env_proto env; v = br_client_version br
      in [(chat_command_id pr v, on_chat_command env br), (chat_message_id pr v, on_chat_message env br),
          (custom_payload_id pr v, on_custom_payload env br), (command_suggestion_id pr v, on_command_suggestion env br)])"

definition client_to_backend ::
  "'w tunnel_env \<Rightarrow> backend_bridge \<Rightarrow> instant \<Rightarrow> 'w bridge_state \<Rightarrow> tunnel_exit option \<times> 'w bridge_state" where
  "client_to_backend env br now st =
     (case conn_in (st_client st) of
        [] \<Rightarrow> (None, st)
      | DecodeFailure e # es \<Rightarrow> (Some ClientDisconnected, st\<lparr>st_client := (st_client st)\<lparr>conn_in := es\<rparr>\<rparr>)
      | Packet i payload # es \<Rightarrow>
          let st = st\<lparr>st_client := (st_client st)\<lparr>conn_in := es\<rparr>, st_clock := now\<rparr>;
              (ok, l) = record_packet now (st_limiter st);
              st = st\<lparr>st_limiter := l\<rparr>
          in if \<not> ok then (Some ClientDisconnected, st)
             else (case intercept (client_interceptors env br) i payload st of
                (True, st) \<Rightarrow> (None, st)
              | (False, st) \<Rightarrow>
                  (case write_packet (full_packet (env_codec env) i payload) (st_backend st) of
                     (Some e, c) \<Rightarrow> (Some (BackendDisconnected None), st\<lparr>st_backend := c\<rparr>)
                   | (None, c) \<Rightarrow> (None, st\<lparr>st_backend := c\<rparr>))))"

subsection \<open>From the backend\<close>

definition as_suggestion :: "string \<times> string option \<Rightarrow> suggestion" where
  "as_suggestion m = \<lparr>suggestion_text = fst m, tooltip = map_option Text (snd m)\<rparr>"

fun add_missing :: "(string \<times> string option) list \<Rightarrow> suggestion list \<Rightarrow> suggestion list" where
  "add_missing [] ms = ms"
| "add_missing (m # pm) ms =
     add_missing pm
       (if list_ex (\<lambda>bm. eq_ignore_ascii_case (suggestion_text bm) (fst m)) ms then ms else ms @ [as_suggestion m])"

definition merge_matches :: "(string \<times> string option) list \<Rightarrow> suggestion list \<Rightarrow> suggestion list" where
  "merge_matches pm ms = sort_key suggestion_text (add_missing pm ms)"

definition on_backend_suggestions ::
  "'w tunnel_env \<Rightarrow> backend_bridge \<Rightarrow> bytes \<Rightarrow> 'w bridge_state \<Rightarrow> bool \<times> 'w bridge_state" where
  "on_backend_suggestions env br payload st =
     (case decode_backend_suggestions (env_codec env) (env_proto env) (br_client_version br) payload of
        None \<Rightarrow> (False, st)
      | Some (i, start, len, ms) \<Rightarrow>
          (case map_of (st_pending st) i of
             None \<Rightarrow> (False, st)
           | Some p \<Rightarrow>
               let st = st\<lparr>st_pending := AList.delete i (st_pending st)\<rparr>
               in (case ser_command_suggestions (env_proto env) (br_client_version br) i start len
                          (merge_matches (proxy_matches p) ms) of
                     None \<Rightarrow> (False, st)
                   | Some b \<Rightarrow> (True, enqueue (Some b) st))))"

definition on_commands ::
  "'w tunnel_env \<Rightarrow> backend_bridge \<Rightarrow> bytes \<Rightarrow> 'w bridge_state \<Rightarrow> bool \<times> 'w bridge_state" where
  "on_commands env br payload st =
     (case inject_proxy_commands (env_codec env) (env_proto env) (br_client_version br) payload
             (get_all_permitted_commands (env_raw env) (br_command_dispatcher br) (tunnel_source br st)) of
        None \<Rightarrow> (False, st)
      | Some modified \<Rightarrow>
          (True, enqueue (Some (full_packet (env_codec env)
             (commands_packet_id (env_proto env) (br_client_version br)) modified)) st))"

definition backend_interceptors ::
  "'w tunnel_env \<Rightarrow> backend_bridge \<Rightarrow> (i32 \<times> (bytes \<Rightarrow> 'w bridge_state \<Rightarrow> bool \<times> 'w bridge_state)) list" where
  "backend_interceptors env br =
     (let pr = env_proto env; v = br_client_version br
      in [(command_suggestions_clientbound_id pr v, on_backend_suggestions env br),
          (commands_packet_id pr v, on_commands env br)])"

definition disconnect_reason :: "'w tunnel_env \<Rightarrow> java_version \<Rightarrow> bytes \<Rightarrow> string option" where
  "disconnect_reason env v payload =
     (case get_component (env_proto env) v payload of
        (Some t, _) \<Rightarrow> Some (to_pretty_console (env_proto env) t)
      | (None, _) \<Rightarrow>
          (let s = from_utf8_lossy (bytes_to_string payload) in if s = [] then None else Some s))"

definition backend_to_client ::
  "'w tunnel_env \<Rightarrow> backend_bridge \<Rightarrow> 'w bridge_state \<Rightarrow> tunnel_exit option \<times> 'w bridge_state" where
  "backend_to_client env br st =
     (case conn_in (st_backend st) of
        [] \<Rightarrow> (None, st)
      | DecodeFailure e # es \<Rightarrow>
          (Some (BackendDisconnected (Some e)), st\<lparr>st_backend := (st_backend st)\<lparr>conn_in := es\<rparr>\<rparr>)
      | Packet i payload # es \<Rightarrow>
          let st = st\<lparr>st_backend := (st_backend st)\<lparr>conn_in := es\<rparr>\<rparr>
          in if i = play_disconnect_id (env_proto env) (br_client_version br)
             then (Some (BackendDisconnected (disconnect_reason env (br_client_version br) payload)), st)
             else (case intercept (backend_interceptors env br) i payload st of
                (True, st) \<Rightarrow> (None, st)
              | (False, st) \<Rightarrow> (None, enqueue (Some (full_packet (env_codec env) i payload)) st)))"

subsection \<open>Actions, timers and the writer\<close>

definition action_loop ::
  "'w tunnel_env \<Rightarrow> backend_bridge \<Rightarrow> 'w bridge_state \<Rightarrow> tunnel_exit option \<times> 'w bridge_state" where
  "action_loop env br st =
     (case st_actions st of
        [] \<Rightarrow> (None, st)
      | a # rest \<Rightarrow>
          let st = st\<lparr>st_actions := rest\<rparr>; pr = env_proto env; v = br_client_version br
          in (case a of
                Connect name \<Rightarrow> (Some (ExitConnect name), st)
              | Transfer host p \<Rightarrow> (Some (ExitTransfer host p), st)
              | Message t \<Rightarrow> (None, enqueue (ser_system_chat pr v t) st)
              | Disconnect reason \<Rightarrow>
                  (Some (BackendDisconnected (Some reason)), enqueue (ser_play_disconnect pr v (Text reason)) st)
              | PluginMessage ch dat \<Rightarrow> (None, enqueue (ser_custom_payload pr v ch dat) st)))"

definition client_writer :: "'w bridge_state \<Rightarrow> tunnel_exit option \<times> 'w bridge_state" where
  "client_writer st =
     (case st_queue st of
        [] \<Rightarrow> (None, st)
      | b # rest \<Rightarrow>
          let st = st\<lparr>st_queue := rest\<rparr>
          in (case write_packet b (st_client st) of
                (Some e, c) \<Rightarrow> (Some ClientDisconnected, st\<lparr>st_client := c\<rparr>)
              | (None, c) \<Rightarrow> (None, st\<lparr>st_client := c\<rparr>)))"

definition suggestion_timer ::
  "'w tunnel_env \<Rightarrow> backend_bridge \<Rightarrow> i32 \<Rightarrow> 'w bridge_state \<Rightarrow> 'w bridge_state" where
  "suggestion_timer env br req_id st =
     (case map_of (st_pending st) req_id of
        None \<Rightarrow> st
      | Some p \<Rightarrow>
          enqueue (ser_command_suggestions (env_proto env) (br_client_version br) req_id
              (of_nat (pending_offset p)) (of_nat (length (clean_cmd p))) (map as_suggestion (proxy_matches p)))
            (st\<lparr>st_pending := AList.delete req_id (st_pending st)\<rparr>))"

subsection \<open>Schedules\<close>

datatype sched =
    ClientReady instant
  | BackendReady
  | ActionReady
  | WriterReady
  | TimerFires i32
  | External player_action
  | Registry session_manager

definition tunnel_step ::
  "'w tunnel_env \<Rightarrow> backend_bridge \<Rightarrow> sched \<Rightarrow> 'w bridge_state \<Rightarrow> tunnel_exit option \<times> 'w bridge_state" where
  "tunnel_step env br e st =
     (case e of
        ClientReady now \<Rightarrow> client_to_backend env br now st
      | BackendReady \<Rightarrow> backend_to_client env br st
      | ActionReady \<Rightarrow> action_loop env br st
      | WriterReady \<Rightarrow> client_writer st
      | TimerFires i \<Rightarrow> (None, suggestion_timer env br i st)
      | External a \<Rightarrow> (None, st\<lparr>st_actions := st_actions st @ [a]\<rparr>)
      | Registry m \<Rightarrow> (None, st\<lparr>st_sessions := m\<rparr>))"

text \<open>Steps until one ends the tunnel: how it ended, the state then, and the steps still to come.\<close>

fun run_schedule :: "('e \<Rightarrow> 's \<Rightarrow> 'x option \<times> 's) \<Rightarrow> 'e list \<Rightarrow> 's \<Rightarrow> 'x option \<times> 's \<times> 'e list" where
  "run_schedule step [] st = (None, st, [])"
| "run_schedule step (e # es) st =
     (case step e st of (Some x, st) \<Rightarrow> (Some x, st, es) | (None, st) \<Rightarrow> run_schedule step es st)"

definition bridge_tunnel ::
  "'w tunnel_env \<Rightarrow> backend_bridge \<Rightarrow> sched list \<Rightarrow> 'w bridge_state
    \<Rightarrow> tunnel_exit option \<times> 'w bridge_state \<times> sched list" where
  "bridge_tunnel env br es st =
     run_schedule (tunnel_step env br) es
       (st\<lparr>st_pending := [], st_queue := [],
          st_limiter := packet_rate_limiter_new (br_max_packets_per_sec br) (st_clock st)\<rparr>)"

section \<open>What every schedule keeps\<close>

text \<open>
  A relation between states that is reflexive and transitive and holds across every single step
  (of the kinds that occur) holds across every run, however the loops interleave.
\<close>

locale schedule_order =
  fixes step :: "'e \<Rightarrow> 's \<Rightarrow> 'x option \<times> 's"
    and ok :: "'e \<Rightarrow> bool"
    and R :: "'s \<Rightarrow> 's \<Rightarrow> bool"
  assumes R_refl: "R s s"
    and R_trans: "R s t \<Longrightarrow> R t u \<Longrightarrow> R s u"
    and R_step: "ok e \<Longrightarrow> R s (snd (step e s))"
begin

lemma R_run: "run_schedule step es s = (x, s', es') \<Longrightarrow> list_all ok es \<Longrightarrow> R s s'"
proof (induction es arbitrary: s)
  case Nil
  then show ?case using R_refl by simp
next
  case (Cons e es)
  obtain y t where y: "step e s = (y, t)" by fastforce
  with R_step[of e s] Cons.prems have "R s t" by simp
  with Cons y show ?case by (cases y) (auto intro: R_trans)
qed

end

text \<open>Where the relation holds across every kind of step.\<close>

abbreviation any :: "'e \<Rightarrow> bool" where
  "any \<equiv> \<lambda>_. True"

lemma all_any [simp]: "list_all any es"
  by (simp add: list_all_iff)

lemma run_schedule_rest:
  "run_schedule step es s = (x, s', es') \<Longrightarrow> \<exists>pre. es = pre @ es' \<and> (x \<noteq> None \<longrightarrow> pre \<noteq> [])"
proof (induction es arbitrary: s)
  case Nil
  then show ?case by simp
next
  case (Cons e es)
  obtain y t where y: "step e s = (y, t)" by fastforce
  show ?case
  proof (cases y)
    case None
    with Cons y obtain pre where "es = pre @ es'" by auto
    then show ?thesis by (intro exI[of _ "e # pre"]) simp
  next
    case (Some a)
    with Cons y show ?thesis by (intro exI[of _ "[e]"]) simp
  qed
qed

text \<open>What the interceptors leave alone: both connections and the player's place; they only add to the queue.\<close>

definition frame :: "'w bridge_state \<Rightarrow> 'w bridge_state \<Rightarrow> bool" where
  "frame st st' \<longleftrightarrow> st_client st' = st_client st \<and> st_backend st' = st_backend st \<and> st_server st' = st_server st
     \<and> st_tx st' = st_tx st \<and> st_sessions st' = st_sessions st \<and> st_online st' = st_online st
     \<and> st_dials st' = st_dials st \<and> prefix (st_queue st) (st_queue st')"

lemma frame_refl [simp]: "frame st st"
  by (simp add: frame_def)

lemma frame_trans [trans]: "frame s t \<Longrightarrow> frame t u \<Longrightarrow> frame s u"
  by (auto simp: frame_def)

lemma frame_deliver [simp]: "frame st (deliver es st)"
  by (simp add: frame_def deliver_def)

lemma frame_enqueue [simp]: "frame st (enqueue b st)"
  by (simp add: frame_def enqueue_def split: option.splits)

lemma frame_world [simp]: "frame st (st\<lparr>st_world := w\<rparr>)"
  by (simp add: frame_def)

lemma frame_pending [simp]: "frame st (st\<lparr>st_pending := p\<rparr>)"
  by (simp add: frame_def)

lemma frame_world_deliver [simp]: "frame st (deliver es (st\<lparr>st_world := w\<rparr>))"
  by (rule frame_trans[OF frame_world frame_deliver])

lemma frame_pending_enqueue [simp]: "frame st (enqueue b (st\<lparr>st_pending := p\<rparr>))"
  by (rule frame_trans[OF frame_pending frame_enqueue])

lemma frame_interceptors:
  "frame st (snd (on_chat_command env br p st))" "frame st (snd (on_chat_message env br p st))"
  "frame st (snd (on_custom_payload env br p st))" "frame st (snd (on_command_suggestion env br p st))"
  "frame st (snd (on_backend_suggestions env br p st))" "frame st (snd (on_commands env br p st))"
  by (auto simp: on_chat_command_def on_chat_message_def on_custom_payload_def on_command_suggestion_def
      on_backend_suggestions_def on_commands_def Let_def
      split: option.splits prod.splits)

lemma frame_intercept:
  assumes "\<And>k h p st. (k, h) \<in> set hs \<Longrightarrow> frame st (snd (h p st))"
  shows "frame st (snd (intercept hs i p st))"
  using assms
proof (induction hs arbitrary: st)
  case Nil
  then show ?case by simp
next
  case (Cons kh hs)
  obtain k h where kh: "kh = (k, h)" by fastforce
  have rest: "frame t (snd (intercept hs i p t))" for t using Cons.IH[of t] Cons.prems by (metis list.set_intros(2))
  have h: "frame st (snd (h p st))" by (rule Cons.prems[of k]) (simp add: kh)
  obtain x t where x: "h p st = (x, t)" by fastforce
  show ?case using rest h frame_trans[OF h rest] by (cases x) (auto simp: kh x)
qed

lemma frame_client: "frame st (snd (intercept (client_interceptors env br) i p st))"
  by (rule frame_intercept) (auto simp: client_interceptors_def Let_def frame_interceptors)

lemma frame_backend: "frame st (snd (intercept (backend_interceptors env br) i p st))"
  by (rule frame_intercept) (auto simp: backend_interceptors_def Let_def frame_interceptors)

lemma frame_timer: "frame st (suggestion_timer env br i st)"
  by (simp add: suggestion_timer_def split: option.splits)

lemma frame_action: "frame st (snd (action_loop env br st))"
  by (auto simp: action_loop_def Let_def enqueue_def frame_def split: list.splits player_action.splits option.splits)

text \<open>The states a packet from either side can lead to.\<close>

definition received :: "instant \<Rightarrow> decode_event list \<Rightarrow> 'w bridge_state \<Rightarrow> 'w bridge_state" where
  "received now es st = st\<lparr>st_client := (st_client st)\<lparr>conn_in := es\<rparr>, st_clock := now,
     st_limiter := snd (record_packet now (st_limiter st))\<rparr>"

lemma received_simps [simp]:
  "st_client (received now es st) = (st_client st)\<lparr>conn_in := es\<rparr>" "st_backend (received now es st) = st_backend st"
  "st_queue (received now es st) = st_queue st" "st_server (received now es st) = st_server st"
  "st_tx (received now es st) = st_tx st" "st_sessions (received now es st) = st_sessions st"
  "st_online (received now es st) = st_online st"
  by (simp_all add: received_def)

lemma client_packet_states:
  assumes "conn_in (st_client st) = Packet i p # es"
  shows "\<exists>st2. frame (received now es st) st2 \<and> snd (client_to_backend env br now st) \<in> {received now es st, st2,
    st2\<lparr>st_backend := snd (write_packet (full_packet (env_codec env) i p) (st_backend st2))\<rparr>}"
proof -
  obtain b st2 where i: "intercept (client_interceptors env br) i p (received now es st) = (b, st2)" by fastforce
  then have "frame (received now es st) st2" using frame_client[of "received now es st" env br i p] by simp
  moreover have "snd (client_to_backend env br now st) \<in> {received now es st, st2,
      st2\<lparr>st_backend := snd (write_packet (full_packet (env_codec env) i p) (st_backend st2))\<rparr>}"
    using i assms
    by (auto simp: client_to_backend_def Let_def received_def split: prod.splits option.splits bool.splits)
  ultimately show ?thesis by blast
qed

lemma backend_packet_states:
  assumes "conn_in (st_backend st) = Packet i p # es"
  shows "frame (st\<lparr>st_backend := (st_backend st)\<lparr>conn_in := es\<rparr>\<rparr>) (snd (backend_to_client env br st))"
proof -
  define st1 where "st1 = st\<lparr>st_backend := (st_backend st)\<lparr>conn_in := es\<rparr>\<rparr>"
  obtain b st2 where i: "intercept (backend_interceptors env br) i p st1 = (b, st2)" by fastforce
  then have "frame st1 st2" using frame_backend[of st1 env br i p] by simp
  then have "frame st1 st2" "frame st1 (enqueue q st2)" for q by (auto intro: frame_trans)
  with i assms show ?thesis by (auto simp: backend_to_client_def Let_def simp flip: st1_def split: bool.splits)
qed

lemma writer_effect:
  "st_backend (snd (client_writer st)) = st_backend st \<and> conn_in (st_client (snd (client_writer st))) = conn_in (st_client st)
   \<and> st_server (snd (client_writer st)) = st_server st \<and> st_tx (snd (client_writer st)) = st_tx st
   \<and> st_sessions (snd (client_writer st)) = st_sessions st \<and> st_online (snd (client_writer st)) = st_online st"
  by (auto simp: client_writer_def write_packet_def Let_def split: list.splits option.splits prod.splits)

subsection \<open>Towards the backend\<close>

text \<open>The packets of the client as the proxy puts them together again.\<close>

definition raw_packets :: "codec \<Rightarrow> decode_event list \<Rightarrow> bytes list" where
  "raw_packets c es = concat (map (\<lambda>e. case e of Packet i p \<Rightarrow> [full_packet c i p] | DecodeFailure _ \<Rightarrow> []) es)"

definition forwards :: "'w tunnel_env \<Rightarrow> 'w bridge_state \<Rightarrow> 'w bridge_state \<Rightarrow> bool" where
  "forwards env st st' \<longleftrightarrow> (\<exists>received sent.
     conn_in (st_client st) = received @ conn_in (st_client st')
     \<and> conn_out (st_backend st') = conn_out (st_backend st) @ sent
     \<and> subseq sent (raw_packets (env_codec env) received))"

lemma forwards_refl: "forwards env st st"
  unfolding forwards_def by (intro exI[of _ "[]"]) simp

lemma forwards_trans: "forwards env s t \<Longrightarrow> forwards env t u \<Longrightarrow> forwards env s u"
  unfolding forwards_def
proof (elim exE conjE)
  fix r1 s1 r2 s2
  assume "conn_in (st_client s) = r1 @ conn_in (st_client t)" "conn_out (st_backend t) = conn_out (st_backend s) @ s1"
    "conn_in (st_client t) = r2 @ conn_in (st_client u)" "conn_out (st_backend u) = conn_out (st_backend t) @ s2"
    "subseq s1 (raw_packets (env_codec env) r1)" "subseq s2 (raw_packets (env_codec env) r2)"
  then show "\<exists>received sent. conn_in (st_client s) = received @ conn_in (st_client u)
      \<and> conn_out (st_backend u) = conn_out (st_backend s) @ sent \<and> subseq sent (raw_packets (env_codec env) received)"
    by (intro exI[of _ "r1 @ r2"] exI[of _ "s1 @ s2"]) (simp add: raw_packets_def list_emb_append_mono)
qed

lemma forwards_quiet:
  "conn_in (st_client st') = conn_in (st_client st) \<Longrightarrow> conn_out (st_backend st') = conn_out (st_backend st) \<Longrightarrow> forwards env st st'"
  unfolding forwards_def by (intro exI[of _ "[]"]) simp

lemma forwards_frame: "frame st st' \<Longrightarrow> forwards env st st'"
  by (rule forwards_quiet) (simp_all add: frame_def)

lemma forwards_client: "forwards env st (snd (client_to_backend env br now st))"
proof (cases "conn_in (st_client st)")
  case Nil
  then show ?thesis by (simp add: client_to_backend_def forwards_refl)
next
  case (Cons e es)
  show ?thesis
  proof (cases e)
    case (DecodeFailure m)
    with Cons show ?thesis
      unfolding forwards_def by (intro exI[of _ "[e]"] exI[of _ "[]"]) (simp add: client_to_backend_def)
  next
    case (Packet i p)
    obtain st2 where f: "frame (received now es st) st2"
      and out: "snd (client_to_backend env br now st) \<in> {received now es st, st2,
        st2\<lparr>st_backend := snd (write_packet (full_packet (env_codec env) i p) (st_backend st2))\<rparr>}"
      using client_packet_states[of st i p es now env br] Cons Packet by blast
    have in1: "conn_in (st_client st) = [e] @ conn_in (st_client (received now es st))" using Cons by simp
    have r: "raw_packets (env_codec env) [e] = [full_packet (env_codec env) i p]" by (simp add: raw_packets_def Packet)
    have "forwards env st s" if "s \<in> {received now es st, st2}" for s
      unfolding forwards_def using that f in1 by (intro exI[of _ "[e]"] exI[of _ "[]"]) (auto simp: frame_def)
    moreover have "forwards env st (st2\<lparr>st_backend := snd (write_packet (full_packet (env_codec env) i p) (st_backend st2))\<rparr>)"
    proof (cases "write_packet (full_packet (env_codec env) i p) (st_backend st2)")
      case (Pair x c)
      show ?thesis
      proof (cases x)
        case None
        with Pair f in1 r show ?thesis unfolding forwards_def
          by (intro exI[of _ "[e]"] exI[of _ "[full_packet (env_codec env) i p]"])
            (auto simp: frame_def dest!: write_packet_None)
      next
        case (Some m)
        with Pair f in1 show ?thesis unfolding forwards_def
          by (intro exI[of _ "[e]"] exI[of _ "[]"]) (auto simp: frame_def dest!: write_packet_Some)
      qed
    qed
    ultimately show ?thesis using out by auto
  qed
qed

lemma backend_reader_effect:
  "conn_out (st_backend (snd (backend_to_client env br st))) = conn_out (st_backend st)
   \<and> st_client (snd (backend_to_client env br st)) = st_client st"
proof (cases "conn_in (st_backend st)")
  case Nil
  then show ?thesis by (simp add: backend_to_client_def)
next
  case (Cons e es)
  show ?thesis
  proof (cases e)
    case (DecodeFailure m)
    with Cons show ?thesis by (simp add: backend_to_client_def)
  next
    case (Packet i p)
    with Cons backend_packet_states[of st i p es env br] show ?thesis by (simp add: frame_def)
  qed
qed

lemma forwards_step: "forwards env st (snd (tunnel_step env br e st))"
proof (cases e)
  case (ClientReady now)
  then show ?thesis by (simp add: tunnel_step_def forwards_client)
next
  case BackendReady
  then show ?thesis using backend_reader_effect[of env br st] by (intro forwards_quiet) (simp_all add: tunnel_step_def)
next
  case ActionReady
  then show ?thesis by (simp add: tunnel_step_def forwards_frame frame_action)
next
  case WriterReady
  then show ?thesis using writer_effect[of st] by (intro forwards_quiet) (simp_all add: tunnel_step_def)
next
  case (TimerFires i)
  then show ?thesis by (simp add: tunnel_step_def forwards_frame frame_timer)
qed (simp_all add: tunnel_step_def forwards_quiet)

interpretation to_backend: schedule_order "tunnel_step env br" any "forwards env" for env br
  by unfold_locales (auto intro: forwards_refl forwards_trans forwards_step)

text \<open>
  C2: the proxy never forges or alters what a player sends: however the tunnel's loops interleave, the
  packets written to the backend while it runs are, in order, some of the packets received from
  the client, each with its id and payload unchanged.
\<close>
theorem tunnel_never_forges:
  assumes "bridge_tunnel env br es st = (x, st', es')"
  shows "\<exists>received sent. conn_in (st_client st) = received @ conn_in (st_client st')
    \<and> conn_out (st_backend st') = conn_out (st_backend st) @ sent
    \<and> subseq sent (raw_packets (env_codec env) received)"
  using to_backend.R_run[OF assms[unfolded bridge_tunnel_def] all_any] by (simp add: forwards_def)

subsection \<open>Towards the client\<close>

text \<open>What the client has been sent or is going to be, and the backend packets nobody intercepts.\<close>

definition client_stream :: "'w bridge_state \<Rightarrow> bytes list" where
  "client_stream st = conn_out (st_client st) @ st_queue st"

definition plain :: "'w tunnel_env \<Rightarrow> backend_bridge \<Rightarrow> decode_event \<Rightarrow> bool" where
  "plain env br e = (case e of
     Packet i _ \<Rightarrow> i \<notin> {play_disconnect_id (env_proto env) (br_client_version br),
       command_suggestions_clientbound_id (env_proto env) (br_client_version br),
       commands_packet_id (env_proto env) (br_client_version br)}
   | DecodeFailure _ \<Rightarrow> False)"

definition delivers :: "'w tunnel_env \<Rightarrow> backend_bridge \<Rightarrow> 'w bridge_state \<Rightarrow> 'w bridge_state \<Rightarrow> bool" where
  "delivers env br st st' \<longleftrightarrow> conn_fails (st_client st') = conn_fails (st_client st)
     \<and> ((\<forall>n. conn_fails (st_client st) n = None) \<longrightarrow> (\<exists>received new.
          conn_in (st_backend st) = received @ conn_in (st_backend st')
          \<and> client_stream st' = client_stream st @ new
          \<and> subseq (raw_packets (env_codec env) (filter (plain env br) received)) new))"

lemma delivers_trans: "delivers env br s t \<Longrightarrow> delivers env br t u \<Longrightarrow> delivers env br s u"
  unfolding delivers_def
proof (elim conjE, intro conjI impI)
  let ?ok = "\<forall>n. conn_fails (st_client s) n = None"
  assume st: "conn_fails (st_client t) = conn_fails (st_client s)" "conn_fails (st_client u) = conn_fails (st_client t)"
  then show "conn_fails (st_client u) = conn_fails (st_client s)" by simp
  assume ok: ?ok
  assume "?ok \<longrightarrow> (\<exists>received new. conn_in (st_backend s) = received @ conn_in (st_backend t)
      \<and> client_stream t = client_stream s @ new \<and> subseq (raw_packets (env_codec env) (filter (plain env br) received)) new)"
    "(\<forall>n. conn_fails (st_client t) n = None) \<longrightarrow> (\<exists>received new. conn_in (st_backend t) = received @ conn_in (st_backend u)
      \<and> client_stream u = client_stream t @ new \<and> subseq (raw_packets (env_codec env) (filter (plain env br) received)) new)"
  then obtain r1 n1 r2 n2 where "conn_in (st_backend s) = r1 @ conn_in (st_backend t)" "client_stream t = client_stream s @ n1"
    "conn_in (st_backend t) = r2 @ conn_in (st_backend u)" "client_stream u = client_stream t @ n2"
    "subseq (raw_packets (env_codec env) (filter (plain env br) r1)) n1"
    "subseq (raw_packets (env_codec env) (filter (plain env br) r2)) n2"
    using ok st by auto
  then show "\<exists>received new. conn_in (st_backend s) = received @ conn_in (st_backend u)
      \<and> client_stream u = client_stream s @ new \<and> subseq (raw_packets (env_codec env) (filter (plain env br) received)) new"
    by (intro exI[of _ "r1 @ r2"] exI[of _ "n1 @ n2"]) (simp add: raw_packets_def list_emb_append_mono)
qed

lemma delivers_quiet:
  assumes "conn_fails (st_client st') = conn_fails (st_client st)" "conn_in (st_backend st') = conn_in (st_backend st)"
    and "(\<forall>n. conn_fails (st_client st) n = None) \<Longrightarrow> prefix (client_stream st) (client_stream st')"
  shows "delivers env br st st'"
  using assms unfolding delivers_def prefix_def by (fastforce simp: raw_packets_def)

lemma delivers_refl: "delivers env br st st"
  by (rule delivers_quiet) simp_all

lemma delivers_frame: "frame st st' \<Longrightarrow> delivers env br st st'"
  by (rule delivers_quiet) (simp_all add: frame_def client_stream_def)

lemma delivers_writer: "delivers env br st (snd (client_writer st))"
proof (rule delivers_quiet)
  show "conn_fails (st_client (snd (client_writer st))) = conn_fails (st_client st)"
    by (auto simp: client_writer_def write_packet_def Let_def split: list.splits option.splits prod.splits)
  show "conn_in (st_backend (snd (client_writer st))) = conn_in (st_backend st)" using writer_effect[of st] by simp
  assume "\<forall>n. conn_fails (st_client st) n = None"
  then show "prefix (client_stream st) (client_stream (snd (client_writer st)))"
    by (auto simp: client_writer_def write_packet_def Let_def client_stream_def split: list.splits)
qed

lemma delivers_client: "delivers env br st (snd (client_to_backend env br now st))"
proof (cases "conn_in (st_client st)")
  case Nil
  then show ?thesis by (simp add: client_to_backend_def delivers_refl)
next
  case (Cons e es)
  show ?thesis
  proof (cases e)
    case (DecodeFailure m)
    with Cons show ?thesis by (intro delivers_quiet) (simp_all add: client_to_backend_def client_stream_def)
  next
    case (Packet i p)
    obtain st2 where "frame (received now es st) st2"
      and "snd (client_to_backend env br now st) \<in> {received now es st, st2,
        st2\<lparr>st_backend := snd (write_packet (full_packet (env_codec env) i p) (st_backend st2))\<rparr>}"
      using client_packet_states[of st i p es now env br] Cons Packet by blast
    then show ?thesis by (intro delivers_quiet) (auto simp: frame_def client_stream_def)
  qed
qed

lemma delivers_backend: "delivers env br st (snd (backend_to_client env br st))"
proof (cases "conn_in (st_backend st)")
  case Nil
  then show ?thesis by (simp add: backend_to_client_def delivers_refl)
next
  case (Cons e es)
  show ?thesis
  proof (cases e)
    case (DecodeFailure m)
    with Cons show ?thesis
      by (auto simp: delivers_def backend_to_client_def client_stream_def raw_packets_def plain_def intro!: exI[of _ "[e]"])
  next
    case (Packet i p)
    define st1 where "st1 = st\<lparr>st_backend := (st_backend st)\<lparr>conn_in := es\<rparr>\<rparr>"
    have st1: "conn_in (st_backend st) = [e] @ conn_in (st_backend st1)" "client_stream st1 = client_stream st"
      "st_client st1 = st_client st"
      using Cons by (simp_all add: st1_def client_stream_def)
    show ?thesis
    proof (cases "plain env br e")
      case True
      then have "intercept (backend_interceptors env br) i p st1 = (False, st1)"
        by (simp add: Packet plain_def backend_interceptors_def Let_def)
      with True Cons Packet have "snd (backend_to_client env br st) = enqueue (Some (full_packet (env_codec env) i p)) st1"
        by (simp add: backend_to_client_def Let_def plain_def flip: st1_def)
      with True st1 Packet show ?thesis
        by (auto simp: delivers_def enqueue_def client_stream_def raw_packets_def intro!: exI[of _ "[e]"])
    next
      case False
      define s where "s = snd (backend_to_client env br st)"
      have "frame st1 s" using backend_packet_states[of st i p es env br] Cons Packet by (simp add: s_def st1_def)
      then have "prefix (client_stream st) (client_stream s)" "conn_in (st_backend s) = conn_in (st_backend st1)" "st_client s = st_client st"
        using st1 by (auto simp: frame_def client_stream_def)
      with st1 False show ?thesis unfolding delivers_def s_def[symmetric] prefix_def raw_packets_def
        by (auto intro!: exI[of _ "[e]"])
    qed
  qed
qed

lemma delivers_step: "delivers env br st (snd (tunnel_step env br e st))"
  by (cases e) (auto simp: tunnel_step_def delivers_client delivers_backend delivers_writer
      intro: delivers_frame frame_action frame_timer delivers_quiet simp: client_stream_def)

interpretation to_client: schedule_order "tunnel_step env br" any "delivers env br" for env br
  by unfold_locales (auto intro: delivers_refl delivers_trans delivers_step)

text \<open>
  C3: nothing the backend says is lost or reordered: while the client's connection accepts packets,
  what is sent to the client or queued for it only grows at the end, and the backend packets the
  tunnel has consumed and that are not a disconnect, a command tree or suggestions are all in it,
  unchanged and in their order.
\<close>
theorem tunnel_delivers_in_order:
  assumes "bridge_tunnel env br es st = (x, st', es')" and "\<And>n. conn_fails (st_client st) n = None"
  shows "\<exists>received new. conn_in (st_backend st) = received @ conn_in (st_backend st')
    \<and> conn_out (st_client st') @ st_queue st' = conn_out (st_client st) @ new
    \<and> subseq (raw_packets (env_codec env) (filter (plain env br) received)) new"
  using to_client.R_run[OF assms(1)[unfolded bridge_tunnel_def] all_any] assms(2) by (simp add: delivers_def client_stream_def)

section \<open>Merged suggestions\<close>

lemma add_missing_keeps: "set ms \<subseteq> set (add_missing pm ms)"
  by (induction pm ms rule: add_missing.induct) (auto split: if_splits)

lemma add_missing_complete:
  "m \<in> set pm \<Longrightarrow> \<exists>x \<in> set (add_missing pm ms). eq_ignore_ascii_case (suggestion_text x) (fst m)"
proof (induction pm ms rule: add_missing.induct)
  case (1 ms)
  then show ?case by simp
next
  case (2 q pm ms)
  let ?ms = "if list_ex (\<lambda>bm. eq_ignore_ascii_case (suggestion_text bm) (fst q)) ms then ms else ms @ [as_suggestion q]"
  show ?case
  proof (cases "m = q")
    case True
    have "\<exists>x \<in> set ?ms. eq_ignore_ascii_case (suggestion_text x) (fst q)"
      by (auto simp: list_ex_iff as_suggestion_def)
    then obtain x where x: "x \<in> set ?ms" "eq_ignore_ascii_case (suggestion_text x) (fst q)" ..
    from x(1) add_missing_keeps[of ?ms pm] have "x \<in> set (add_missing (q # pm) ms)"
      unfolding add_missing.simps by blast
    with True x(2) show ?thesis by blast
  next
    case False
    with 2 show ?thesis by simp
  qed
qed

lemma add_missing_extra:
  "\<exists>added. add_missing pm ms = ms @ map as_suggestion added \<and> subseq added pm
     \<and> (\<forall>a \<in> set added. \<forall>m \<in> set ms. \<not> eq_ignore_ascii_case (suggestion_text m) (fst a))"
proof (induction pm ms rule: add_missing.induct)
  case (1 ms)
  then show ?case by (intro exI[of _ "[]"]) simp
next
  case (2 q pm ms)
  show ?case
  proof (cases "list_ex (\<lambda>bm. eq_ignore_ascii_case (suggestion_text bm) (fst q)) ms")
    case True
    then show ?thesis using "2.IH" by (auto intro: list_emb_Cons)
  next
    case False
    with "2.IH" obtain added where "add_missing pm (ms @ [as_suggestion q]) = (ms @ [as_suggestion q]) @ map as_suggestion added"
      "subseq added pm" "\<forall>a \<in> set added. \<forall>m \<in> set (ms @ [as_suggestion q]). \<not> eq_ignore_ascii_case (suggestion_text m) (fst a)"
      by auto
    with False show ?thesis by (intro exI[of _ "q # added"]) (auto simp: list_ex_iff)
  qed
qed

text \<open>
  Merging the proxy's suggestions into a backend's keeps all of the backend's, offers every
  permitted command (possibly in the backend's spelling), adds a command only when the backend has
  no entry of that name in any case, and orders the result.
\<close>
theorem merge_matches_exact:
  "sorted (map suggestion_text (merge_matches pm ms))
   \<and> (\<forall>m \<in> set pm. \<exists>x \<in> set (merge_matches pm ms). eq_ignore_ascii_case (suggestion_text x) (fst m))
   \<and> (\<exists>added. mset (merge_matches pm ms) = mset ms + mset (map as_suggestion added) \<and> subseq added pm
        \<and> (\<forall>a \<in> set added. \<forall>m \<in> set ms. \<not> eq_ignore_ascii_case (suggestion_text m) (fst a)))"
proof -
  have s: "set (merge_matches pm ms) = set (add_missing pm ms)" "mset (merge_matches pm ms) = mset (add_missing pm ms)"
    by (simp_all add: merge_matches_def)
  obtain added where "add_missing pm ms = ms @ map as_suggestion added" "subseq added pm"
    "\<forall>a \<in> set added. \<forall>m \<in> set ms. \<not> eq_ignore_ascii_case (suggestion_text m) (fst a)"
    using add_missing_extra by blast
  moreover have "\<forall>m \<in> set pm. \<exists>x \<in> set (merge_matches pm ms). eq_ignore_ascii_case (suggestion_text x) (fst m)"
    unfolding s using add_missing_complete by blast
  ultimately show ?thesis unfolding s by (auto simp: merge_matches_def)
qed

theorem merge_matches_exact_witness:
  "let ms = merge_matches [(''server'', None), (''send'', None)]
       [\<lparr>suggestion_text = ''Server'', tooltip = None\<rparr>, \<lparr>suggestion_text = ''say'', tooltip = None\<rparr>]
   in map suggestion_text ms = [''Server'', ''say'', ''send'']
      \<and> (\<exists>x \<in> set ms. eq_ignore_ascii_case (suggestion_text x) ''server'')"
proof -
  let ?pm = "[(''server'', None :: string option), (''send'', None)]"
  let ?ms = "[\<lparr>suggestion_text = ''Server'', tooltip = None\<rparr>, \<lparr>suggestion_text = ''say'', tooltip = None\<rparr>]"
  have "map suggestion_text (merge_matches ?pm ?ms) = [''Server'', ''say'', ''send'']" by code_simp
  moreover have "\<exists>x \<in> set (merge_matches ?pm ?ms). eq_ignore_ascii_case (suggestion_text x) (fst (hd ?pm))"
    using merge_matches_exact[of ?pm ?ms] by simp
  ultimately show ?thesis by (simp add: Let_def)
qed

section \<open>Examples\<close>

definition demo_env :: "decode_event list \<Rightarrow> nat tunnel_env" where
  "demo_env es = \<lparr>env_proto = demo_proto, env_codec = mc_codec, env_fwd = demo_ext, env_dial = demo_dial es,
     env_unix_time = (\<lambda>_. 1700000000), env_wasm = demo_host, env_raw = demo_raw, env_uuid_text = (\<lambda>_. ''uuid'')\<rparr>"

definition demo_state :: "decode_event list \<Rightarrow> decode_event list \<Rightarrow> nat bridge_state" where
  "demo_state from_client from_backend =
     \<lparr>st_client = demo_conn from_client, st_backend = demo_conn from_backend, st_server = ''lobby'', st_tx = 7,
      st_sessions = session_manager_new, st_online = 1, st_world = 0, st_actions = [], st_sent = [], st_pending = [],
      st_queue = [], st_limiter = packet_rate_limiter_new 500 0, st_clock = 0, st_dials = 1\<rparr>"

lemma demo_tunnel_client:
  "bridge_tunnel (demo_env []) demo_bridge [ClientReady 5, WriterReady] (demo_state [Packet 33 [1, 2]] []) =
     (None, (demo_state [] [])\<lparr>st_backend := (demo_conn [])\<lparr>conn_out := [[33, 1, 2]]\<rparr>, st_clock := 5,
        st_limiter := (packet_rate_limiter_new 500 0)\<lparr>packet_count := 1\<rparr>\<rparr>, [])"
  by (simp add: bridge_tunnel_def tunnel_step_def client_to_backend_def demo_state_def demo_conn_def Let_def record_packet_def
    nanos_per_sec_def packet_rate_limiter_new_def client_interceptors_def demo_env_def demo_proto_def write_packet_def
    client_writer_def full_packet_def encode_varint_mc varint_nat.simps demo_bridge_def)

theorem tunnel_never_forges_witness:
  "\<exists>(st' :: nat bridge_state) es'. bridge_tunnel (demo_env []) demo_bridge [ClientReady 5, WriterReady] (demo_state [Packet 33 [1, 2]] []) = (None, st', es')
     \<and> (\<exists>received sent. [Packet 33 [1, 2]] = received @ conn_in (st_client st') \<and> conn_out (st_backend st') = sent
          \<and> sent = [[33, 1, 2]] \<and> subseq sent (raw_packets mc_codec received))"
  using tunnel_never_forges[OF demo_tunnel_client] demo_tunnel_client
  by (auto simp: demo_state_def demo_conn_def demo_env_def)

lemma demo_tunnel_backend:
  "bridge_tunnel (demo_env []) demo_bridge [BackendReady, BackendReady, WriterReady] (demo_state [] [Packet 40 [1], Packet 41 [2]]) =
     (None, (demo_state [] [])\<lparr>st_client := (demo_conn [])\<lparr>conn_out := [[40, 1]]\<rparr>, st_queue := [[41, 2]]\<rparr>, [])"
  by (simp add: bridge_tunnel_def tunnel_step_def backend_to_client_def demo_state_def demo_conn_def Let_def
    packet_rate_limiter_new_def backend_interceptors_def demo_env_def demo_proto_def write_packet_def enqueue_def
    client_writer_def full_packet_def encode_varint_mc varint_nat.simps demo_bridge_def)

theorem tunnel_delivers_in_order_witness:
  "\<exists>(st' :: nat bridge_state) es'. bridge_tunnel (demo_env []) demo_bridge [BackendReady, BackendReady, WriterReady]
       (demo_state [] [Packet 40 [1], Packet 41 [2]]) = (None, st', es')
     \<and> (\<exists>received new. [Packet 40 [1], Packet 41 [2]] = received @ conn_in (st_backend st')
          \<and> conn_out (st_client st') @ st_queue st' = new \<and> new = [[40, 1], [41, 2]]
          \<and> subseq (raw_packets mc_codec (filter (plain (demo_env []) demo_bridge) received)) new)"
  using tunnel_delivers_in_order[OF demo_tunnel_backend] demo_tunnel_backend
  by (auto simp: demo_state_def demo_conn_def demo_env_def)

end
