(* ===== verification/Bridge.thy ===== *)
theory Bridge
  imports Tunnel
begin

text \<open>
  \<^verbatim>\<open>src/src/backend/bridge.rs\<close>, fourth part: \<^verbatim>\<open>BackendBridge::run\<close>, the life of a player's
  connection from the first backend to the last, and \<^verbatim>\<open>disconnect_client\<close>. The state of the
  tunnel is that of the run; \<^verbatim>\<open>st_backend\<close> holds the connection in use once there is one, and
  \<^verbatim>\<open>st_online\<close> the player counter as far as this connection changes it. A run takes a schedule
  and either ends or has used the schedule up and is still open.
\<close>

section \<open>Model\<close>

definition quote_name :: "string \<Rightarrow> string" where
  "quote_name s = [CHR 0x27] @ s @ [CHR 0x27]"

definition user :: "backend_bridge \<Rightarrow> string" where
  "user br = player_name (br_player br)"

definition tell :: "'w tunnel_env \<Rightarrow> backend_bridge \<Rightarrow> string \<Rightarrow> 'w bridge_state \<Rightarrow> 'w bridge_state" where
  "tell env br msg st =
     st\<lparr>st_client := try_write (ser_system_chat (env_proto env) (br_client_version br) (Text msg)) (st_client st)\<rparr>"

definition disconnect_client :: "'w tunnel_env \<Rightarrow> java_version \<Rightarrow> bool \<Rightarrow> string \<Rightarrow> conn \<Rightarrow> conn" where
  "disconnect_client env v is_config_state reason c =
     (if is_config_state then try_write (ser_config_disconnect (env_proto env) v (kick_json reason)) c
      else try_write (ser_play_disconnect (env_proto env) v (Text reason)) c)"

definition drop_client :: "'w tunnel_env \<Rightarrow> backend_bridge \<Rightarrow> string \<Rightarrow> 'w bridge_state \<Rightarrow> 'w bridge_state" where
  "drop_client env br reason st =
     st\<lparr>st_client := disconnect_client env (br_client_version br) False reason (st_client st)\<rparr>"

text \<open>The player is on another backend now: tell the client to reconfigure, and the registry.\<close>

definition moved :: "'w tunnel_env \<Rightarrow> backend_bridge \<Rightarrow> conn \<Rightarrow> string \<Rightarrow> 'w bridge_state \<Rightarrow> 'w bridge_state" where
  "moved env br c name st =
     st\<lparr>st_client := (if ge_1_20_2 (env_proto env) (br_client_version br)
          then try_write (ser_start_configuration (env_proto env) (br_client_version br)) (st_client st)
          else st_client st),
        st_backend := c, st_server := name, st_sessions := update_server (user br) name (st_sessions st)\<rparr>"

definition announce_connected ::
  "'w tunnel_env \<Rightarrow> backend_bridge \<Rightarrow> 'w bridge_state \<Rightarrow> 'w bridge_state" where
  "announce_connected env br st =
     st\<lparr>st_world := fire_server_connected (env_wasm env) (br_plugin_manager br)
        \<lparr>connected_uuid = env_uuid_text env (player_id (br_player br)), connected_username = user br,
         connected_server_name = st_server st\<rparr> (st_world st)\<rparr>"

definition ask_connect ::
  "'w tunnel_env \<Rightarrow> backend_bridge \<Rightarrow> string option \<Rightarrow> string \<Rightarrow> 'w bridge_state
    \<Rightarrow> server_connect_event \<times> 'w bridge_state" where
  "ask_connect env br current target st =
     (case fire_server_connect (env_wasm env) (br_plugin_manager br)
             \<lparr>connect_uuid = env_uuid_text env (player_id (br_player br)), connect_username = user br,
              connect_current_server = current, connect_target_server = target, connect_cancelled = False,
              connect_cancel_reason = None\<rparr> (st_world st) of
        (ev, w) \<Rightarrow> (ev, st\<lparr>st_world := w\<rparr>))"

subsection \<open>The first backend\<close>

definition joined ::
  "'w tunnel_env \<Rightarrow> backend_bridge \<Rightarrow> string \<Rightarrow> conn \<times> bytes \<Rightarrow> 'w bridge_state
    \<Rightarrow> (bridge_error option) \<times> 'w bridge_state" where
  "joined env br name login st =
     (case write_packet (snd login) (st_client st) of
        (Some e, c) \<Rightarrow> (Some (EncodeError e), st\<lparr>st_client := c\<rparr>)
      | (None, c) \<Rightarrow>
          let st = announce_connected env br
                     (st\<lparr>st_client := c, st_backend := fst login, st_server := name, st_online := st_online st + 1\<rparr>);
              w = fire_player_join (env_wasm env) (br_plugin_manager br)
                    \<lparr>join_uuid = env_uuid_text env (player_id (br_player br)), join_username = user br,
                     join_client_ip = show_ip (br_client_ip br), join_initial_server = name\<rparr> (st_world st)
          in (None, st\<lparr>st_world := w,
                st_sessions := register \<lparr>username = user br, session_uuid = player_id (br_player br),
                  current_server = name, action_tx = st_tx st, client_ip = show_ip (br_client_ip br),
                  session_protocol = protocol_number (br_client_version br)\<rparr> (st_sessions st)\<rparr>))"

definition initial_backend :: "backend_bridge \<Rightarrow> string \<Rightarrow> backend_config" where
  "initial_backend br name =
     (if name = br_server_name br then br_config br
      else case map_of (servers (br_proxy_config br)) name of Some cfg \<Rightarrow> cfg | None \<Rightarrow> br_config br)"

definition bridge_start ::
  "'w tunnel_env \<Rightarrow> backend_bridge \<Rightarrow> 'w bridge_state \<Rightarrow> (bridge_error option) \<times> 'w bridge_state" where
  "bridge_start env br st =
     (case ask_connect env br None (br_server_name br) st of
        (ev, st) \<Rightarrow>
          if connect_cancelled ev then
            (Some (VineError (case connect_cancel_reason ev of Some r \<Rightarrow> r | None \<Rightarrow> ''Connection cancelled by plugin'')), st)
          else
            let name = connect_target_server ev
            in (case login_backend env br name (initial_backend br name) (st_dials st) of
                  (Inr l, k) \<Rightarrow> joined env br name l (st\<lparr>st_dials := k\<rparr>)
                | (Inl e, k) \<Rightarrow>
                    (case br_fallback_server br of
                       None \<Rightarrow> (Some e, st\<lparr>st_dials := k\<rparr>)
                     | Some (fb_name, fb_cfg) \<Rightarrow>
                         if fb_name \<noteq> name then
                           (case login_backend env br fb_name fb_cfg k of
                              (Inl e, k) \<Rightarrow> (Some e, st\<lparr>st_dials := k\<rparr>)
                            | (Inr l, k) \<Rightarrow> joined env br fb_name l (st\<lparr>st_dials := k\<rparr>))
                         else (Some e, st\<lparr>st_dials := k\<rparr>))))"

subsection \<open>Between tunnels\<close>

text \<open>What happens when a tunnel has ended: whether the run goes on, and the state.\<close>

definition can_fallback :: "backend_bridge \<Rightarrow> string \<Rightarrow> (string \<times> backend_config) option" where
  "can_fallback br name =
     (case br_fallback_server br of
        Some (fb_name, fb_cfg) \<Rightarrow> if fb_name \<noteq> name then Some (fb_name, fb_cfg) else None
      | None \<Rightarrow> None)"

definition on_connect ::
  "'w tunnel_env \<Rightarrow> backend_bridge \<Rightarrow> string \<Rightarrow> 'w bridge_state \<Rightarrow> bool \<times> 'w bridge_state" where
  "on_connect env br requested st =
     (case ask_connect env br (Some (st_server st)) requested st of
        (ev, st) \<Rightarrow>
          if connect_cancelled ev then
            (True, tell env br (sect @ ''c'' @ (case connect_cancel_reason ev of
               Some r \<Rightarrow> r | None \<Rightarrow> ''Server switch cancelled by plugin'')) st)
          else
            let name = connect_target_server ev
            in (case map_of (servers (br_proxy_config br)) name of
                  None \<Rightarrow> (False, tell env br (''Server '' @ quote_name name @ '' does not exist.'') st)
                | Some cfg \<Rightarrow>
                    (case login_backend env br name cfg (st_dials st) of
                       (Inr (c, _), k) \<Rightarrow> (True, announce_connected env br (moved env br c name (st\<lparr>st_dials := k\<rparr>)))
                     | (Inl e, k) \<Rightarrow>
                         let st = tell env br (sect @ ''cFailed to connect to server '' @ quote_name name @ '': ''
                                    @ show_bridge_error e) (st\<lparr>st_dials := k\<rparr>)
                         in (case can_fallback br name of
                               None \<Rightarrow> (False, st)
                             | Some (fb_name, fb_cfg) \<Rightarrow>
                                 (case login_backend env br fb_name fb_cfg k of
                                    (Inr (c, _), k) \<Rightarrow> (True, moved env br c fb_name (st\<lparr>st_dials := k\<rparr>))
                                  | (Inl _, k) \<Rightarrow>
                                      (False, drop_client env br (''Lost connection to '' @ quote_name (st_server st)
                                         @ '' and fallback unavailable'') (st\<lparr>st_dials := k\<rparr>)))))))"

definition on_backend_disconnected ::
  "'w tunnel_env \<Rightarrow> backend_bridge \<Rightarrow> string option \<Rightarrow> 'w bridge_state \<Rightarrow> bool \<times> 'w bridge_state" where
  "on_backend_disconnected env br reason st =
     (case can_fallback br (st_server st) of
        None \<Rightarrow>
          (False, drop_client env br (case reason of Some r \<Rightarrow> r | None \<Rightarrow> ''Lost connection to server'') st)
      | Some (fb_name, fb_cfg) \<Rightarrow>
          let reason_str = (case reason of Some r \<Rightarrow> r | None \<Rightarrow> ''Server closed'');
              st = tell env br (sect @ ''eConnecting to fallback server '' @ quote_name fb_name @ ''... ('' @ sect @ ''c''
                     @ reason_str @ sect @ ''e)'') st
          in (case login_backend env br fb_name fb_cfg (st_dials st) of
                (Inr (c, _), k) \<Rightarrow> (True, moved env br c fb_name (st\<lparr>st_dials := k\<rparr>))
              | (Inl e, k) \<Rightarrow>
                  (False, drop_client env br (''Lost connection to '' @ quote_name (st_server st)
                     @ '' and fallback unavailable: '' @ show_bridge_error e) (st\<lparr>st_dials := k\<rparr>))))"

definition handle_exit ::
  "'w tunnel_env \<Rightarrow> backend_bridge \<Rightarrow> tunnel_exit \<Rightarrow> 'w bridge_state \<Rightarrow> bool \<times> 'w bridge_state" where
  "handle_exit env br x st =
     (case x of
        ClientDisconnected \<Rightarrow> (False, st)
      | ExitTransfer host p \<Rightarrow>
          (False, st\<lparr>st_client := try_write (ser_transfer (env_proto env) (br_client_version br) host (ucast p)) (st_client st)\<rparr>)
      | ExitConnect name \<Rightarrow> on_connect env br name st
      | BackendDisconnected reason \<Rightarrow> on_backend_disconnected env br reason st)"

subsection \<open>The run\<close>

text \<open>A tunnel that ends has used up at least one step, so the run is defined on every schedule.\<close>

lemma bridge_tunnel_shorter: "bridge_tunnel env br es st = (Some x, st', es') \<Longrightarrow> length es' < length es"
  unfolding bridge_tunnel_def by (drule run_schedule_rest) auto

function run_loop ::
  "'w tunnel_env \<Rightarrow> backend_bridge \<Rightarrow> sched list \<Rightarrow> 'w bridge_state \<Rightarrow> bool \<times> 'w bridge_state" where
  "run_loop env br es st =
     (case bridge_tunnel env br es st of
        (None, st, _) \<Rightarrow> (False, st)
      | (Some x, st, es) \<Rightarrow>
          (case handle_exit env br x st of
             (True, st) \<Rightarrow> run_loop env br es st
           | (False, st) \<Rightarrow> (True, st)))"
  by pat_completeness auto
termination
  by (relation "measure (\<lambda>(_, _, es, _). length es)") (auto dest!: bridge_tunnel_shorter[OF sym])

declare run_loop.simps [simp del]

datatype run_outcome = RunError bridge_error | RunDone | RunOpen

definition leave :: "'w tunnel_env \<Rightarrow> backend_bridge \<Rightarrow> 'w bridge_state \<Rightarrow> 'w bridge_state" where
  "leave env br st =
     (let w = fire_player_disconnect (env_wasm env) (br_plugin_manager br)
                \<lparr>disconnect_uuid = env_uuid_text env (player_id (br_player br)), disconnect_username = user br,
                 disconnect_last_server = Some (st_server st)\<rparr> (st_world st)
      in st\<lparr>st_world := w, st_sessions := snd (unregister (user br) (st_sessions st)), st_online := st_online st - 1\<rparr>)"

definition run ::
  "'w tunnel_env \<Rightarrow> backend_bridge \<Rightarrow> sched list \<Rightarrow> 'w bridge_state \<Rightarrow> run_outcome \<times> 'w bridge_state" where
  "run env br es st =
     (case bridge_start env br st of
        (Some e, st) \<Rightarrow> (RunError e, st)
      | (None, st) \<Rightarrow>
          (case run_loop env br es st of
             (True, st) \<Rightarrow> (RunDone, leave env br st)
           | (False, st) \<Rightarrow> (RunOpen, st)))"

section \<open>What a tunnel leaves to the run\<close>

definition no_registry :: "sched \<Rightarrow> bool" where
  "no_registry e = (case e of Registry _ \<Rightarrow> False | _ \<Rightarrow> True)"

definition stays :: "'w bridge_state \<Rightarrow> 'w bridge_state \<Rightarrow> bool" where
  "stays st st' \<longleftrightarrow> st_server st' = st_server st \<and> st_tx st' = st_tx st \<and> st_online st' = st_online st"

lemma frame_stays: "frame st st' \<Longrightarrow> stays st st' \<and> st_sessions st' = st_sessions st"
  by (simp add: frame_def stays_def)

lemma stays_client: "stays st (snd (client_to_backend env br now st)) \<and> st_sessions (snd (client_to_backend env br now st)) = st_sessions st"
proof (cases "conn_in (st_client st)")
  case Nil
  then show ?thesis by (simp add: client_to_backend_def stays_def)
next
  case (Cons e es)
  show ?thesis
  proof (cases e)
    case (DecodeFailure m)
    with Cons show ?thesis by (simp add: client_to_backend_def stays_def)
  next
    case (Packet i p)
    with Cons client_packet_states[of st i p es now env br] show ?thesis by (auto simp: frame_def stays_def)
  qed
qed

lemma stays_backend: "stays st (snd (backend_to_client env br st)) \<and> st_sessions (snd (backend_to_client env br st)) = st_sessions st"
proof (cases "conn_in (st_backend st)")
  case Nil
  then show ?thesis by (simp add: backend_to_client_def stays_def)
next
  case (Cons e es)
  show ?thesis
  proof (cases e)
    case (DecodeFailure m)
    with Cons show ?thesis by (simp add: backend_to_client_def stays_def)
  next
    case (Packet i p)
    with Cons backend_packet_states[of st i p es env br] show ?thesis by (auto simp: frame_def stays_def)
  qed
qed

lemma stays_step:
  "stays st (snd (tunnel_step env br e st)) \<and> (no_registry e \<longrightarrow> st_sessions (snd (tunnel_step env br e st)) = st_sessions st)"
proof (cases e)
  case (ClientReady now)
  then show ?thesis using stays_client[of st env br now] by (simp add: tunnel_step_def)
next
  case BackendReady
  then show ?thesis using stays_backend[of st env br] by (simp add: tunnel_step_def)
next
  case ActionReady
  then show ?thesis using frame_stays[OF frame_action[of st env br]] by (simp add: tunnel_step_def)
next
  case WriterReady
  then show ?thesis using writer_effect[of st] by (simp add: tunnel_step_def stays_def)
next
  case (TimerFires i)
  then show ?thesis using frame_stays[OF frame_timer[of st env br i]] by (simp add: tunnel_step_def)
qed (simp_all add: tunnel_step_def stays_def no_registry_def)

interpretation place: schedule_order "tunnel_step env br" any stays for env br
  using stays_step by unfold_locales (auto simp: stays_def)

interpretation registry: schedule_order "tunnel_step env br" no_registry "\<lambda>st st'. st_sessions st' = st_sessions st" for env br
  using stays_step by unfold_locales auto

lemma bridge_tunnel_stays: "bridge_tunnel env br es st = (x, st', es') \<Longrightarrow> stays st st'"
  unfolding bridge_tunnel_def by (drule place.R_run[OF _ all_any]) (simp add: stays_def)

lemma bridge_tunnel_registry:
  "bridge_tunnel env br es st = (x, st', es') \<Longrightarrow> list_all no_registry es \<Longrightarrow> st_sessions st' = st_sessions st"
  unfolding bridge_tunnel_def by (drule (1) registry.R_run) simp

lemma bridge_tunnel_suffix: "bridge_tunnel env br es st = (x, st', es') \<Longrightarrow> \<exists>pre. es = pre @ es'"
  unfolding bridge_tunnel_def by (drule run_schedule_rest) blast

section \<open>The player's account\<close>

lemma helper_effects [simp]:
  "st_online (tell env br m st) = st_online st" "st_tx (tell env br m st) = st_tx st" "st_server (tell env br m st) = st_server st"
  "st_sessions (tell env br m st) = st_sessions st" "st_dials (tell env br m st) = st_dials st"
  "st_online (drop_client env br m st) = st_online st" "st_tx (drop_client env br m st) = st_tx st"
  "st_server (drop_client env br m st) = st_server st" "st_sessions (drop_client env br m st) = st_sessions st"
  "st_online (moved env br c n st) = st_online st" "st_tx (moved env br c n st) = st_tx st" "st_server (moved env br c n st) = n"
  "st_sessions (moved env br c n st) = update_server (user br) n (st_sessions st)"
  "st_online (announce_connected env br st) = st_online st" "st_tx (announce_connected env br st) = st_tx st"
  "st_server (announce_connected env br st) = st_server st" "st_sessions (announce_connected env br st) = st_sessions st"
  by (simp_all add: tell_def drop_client_def moved_def announce_connected_def)

lemma ask_connect_effects:
  "ask_connect env br cur t st = (ev, st') \<Longrightarrow> st_online st' = st_online st \<and> st_tx st' = st_tx st
     \<and> st_server st' = st_server st \<and> st_sessions st' = st_sessions st \<and> st_client st' = st_client st"
  by (auto simp: ask_connect_def split: prod.splits)

lemma on_connect_effects:
  "on_connect env br n st = (b, st') \<Longrightarrow> st_online st' = st_online st \<and> st_tx st' = st_tx st
     \<and> (st_server st' = st_server st \<and> st_sessions st' = st_sessions st
        \<or> st_sessions st' = update_server (user br) (st_server st') (st_sessions st))"
  by (auto simp: on_connect_def Let_def dest!: ask_connect_effects split: prod.splits if_splits option.splits sum.splits)

lemma on_backend_disconnected_effects:
  "on_backend_disconnected env br r st = (b, st') \<Longrightarrow> st_online st' = st_online st \<and> st_tx st' = st_tx st
     \<and> (st_server st' = st_server st \<and> st_sessions st' = st_sessions st
        \<or> st_sessions st' = update_server (user br) (st_server st') (st_sessions st))"
  by (auto simp: on_backend_disconnected_def Let_def split: prod.splits option.splits sum.splits)

lemma handle_exit_effects:
  "handle_exit env br x st = (b, st') \<Longrightarrow> st_online st' = st_online st \<and> st_tx st' = st_tx st
     \<and> (st_server st' = st_server st \<and> st_sessions st' = st_sessions st
        \<or> st_sessions st' = update_server (user br) (st_server st') (st_sessions st))"
  by (cases x) (auto simp: handle_exit_def dest: on_connect_effects on_backend_disconnected_effects)

text \<open>The registry's entry of the player is that of this connection and names the backend in use.\<close>

definition registered_here :: "backend_bridge \<Rightarrow> 'w bridge_state \<Rightarrow> bool" where
  "registered_here br st \<longleftrightarrow> live (st_sessions st)
     \<and> (\<exists>s. get_session (user br) (st_sessions st) = Some s \<and> current_server s = st_server st
          \<and> action_tx s = st_tx st \<and> session_uuid s = player_id (br_player br))"

lemma registered_here_exit:
  assumes "registered_here br st" "handle_exit env br x st = (b, st')"
  shows "registered_here br st'"
proof -
  have "st_tx st' = st_tx st" and "st_server st' = st_server st \<and> st_sessions st' = st_sessions st
      \<or> st_sessions st' = update_server (user br) (st_server st') (st_sessions st)"
    using handle_exit_effects[OF assms(2)] by auto
  then show ?thesis using assms(1) by (auto simp: registered_here_def vine.get_upd vine.ok_upd)
qed

text \<open>Induction over the tunnels of a run: still open, ended after the last one, or gone on to another.\<close>

lemma run_loop_induct [consumes 1, case_names open_end ended again]:
  assumes "run_loop env br es st = (b, st')"
    and open_end: "\<And>es st st1 rest. bridge_tunnel env br es st = (None, st1, rest) \<Longrightarrow> P es st False st1"
    and ended: "\<And>es st x st1 es1 st2. bridge_tunnel env br es st = (Some x, st1, es1) \<Longrightarrow>
        handle_exit env br x st1 = (False, st2) \<Longrightarrow> P es st True st2"
    and again: "\<And>es st x st1 es1 st2 b st'. bridge_tunnel env br es st = (Some x, st1, es1) \<Longrightarrow>
        handle_exit env br x st1 = (True, st2) \<Longrightarrow> P es1 st2 b st' \<Longrightarrow> P es st b st'"
  shows "P es st b st'"
  using assms(1)
proof (induction "length es" arbitrary: es st rule: less_induct)
  case less
  obtain x st1 es1 where t: "bridge_tunnel env br es st = (x, st1, es1)" by (metis prod_cases3)
  show ?case
  proof (cases x)
    case None
    with less.prems t show ?thesis by (auto simp: run_loop.simps[of env br es st] intro: open_end)
  next
    case (Some y)
    obtain c st2 where h: "handle_exit env br y st1 = (c, st2)" by fastforce
    show ?thesis
    proof (cases c)
      case True
      with less.prems t Some h have "run_loop env br es1 st2 = (b, st')" by (simp add: run_loop.simps[of env br es st])
      with less.hyps bridge_tunnel_shorter t Some have "P es1 st2 b st'" by blast
      with t Some h True show ?thesis by (auto intro: again)
    next
      case False
      with less.prems t Some h show ?thesis by (auto simp: run_loop.simps[of env br es st] intro: ended)
    qed
  qed
qed

lemma registered_here_tunnel:
  assumes "bridge_tunnel env br es st = (x, st1, es1)" "list_all no_registry es"
  shows "registered_here br st \<Longrightarrow> registered_here br st1" "list_all no_registry es1"
  using bridge_tunnel_stays[OF assms(1)] bridge_tunnel_registry[OF assms] bridge_tunnel_suffix[OF assms(1)] assms(2)
  by (auto simp: registered_here_def stays_def)

lemma run_loop_online: "run_loop env br es st = (b, st') \<Longrightarrow> st_online st' = st_online st"
proof (induction rule: run_loop_induct)
  case (open_end es st st1 rest)
  then show ?case by (auto simp: stays_def dest: bridge_tunnel_stays)
next
  case (ended es st x st1 es1 st2)
  then show ?case using bridge_tunnel_stays handle_exit_effects by (metis stays_def)
next
  case (again es st x st1 es1 st2 b st')
  then show ?case using bridge_tunnel_stays handle_exit_effects by (metis stays_def)
qed

lemma run_loop_registered:
  "run_loop env br es st = (b, st') \<Longrightarrow> list_all no_registry es \<Longrightarrow> registered_here br st \<Longrightarrow> registered_here br st'"
proof (induction rule: run_loop_induct)
  case (open_end es st st1 rest)
  then show ?case using registered_here_tunnel by blast
next
  case (ended es st x st1 es1 st2)
  then show ?case using registered_here_tunnel registered_here_exit by blast
next
  case (again es st x st1 es1 st2 b st')
  then show ?case using registered_here_tunnel registered_here_exit by blast
qed

lemma joined_registered:
  assumes "joined env br n l st = (None, st')" "live (st_sessions st)"
  shows "registered_here br st' \<and> st_online st' = st_online st + 1"
  using assms by (auto simp: joined_def Let_def registered_here_def vine.get_reg vine.ok_reg split: option.splits prod.splits)

lemma joined_failed:
  "joined env br n l st = (Some e, st') \<Longrightarrow> st_online st' = st_online st \<and> st_sessions st' = st_sessions st"
  by (auto simp: joined_def Let_def split: option.splits prod.splits)

lemma bridge_start_ok:
  assumes "bridge_start env br st = (None, st')" "live (st_sessions st)"
  shows "registered_here br st' \<and> st_online st' = st_online st + 1"
  using assms by (auto simp: bridge_start_def Let_def dest!: ask_connect_effects joined_registered
    split: prod.splits if_splits sum.splits option.splits)

lemma bridge_start_failed:
  assumes "bridge_start env br st = (Some e, st')"
  shows "st_online st' = st_online st \<and> st_sessions st' = st_sessions st"
  using assms by (auto simp: bridge_start_def Let_def dest!: ask_connect_effects joined_failed
    split: prod.splits if_splits sum.splits option.splits)

lemma run_loop_after_start:
  assumes "bridge_start env br st = (None, st1)" "run_loop env br es st1 = (b, st2)" "live (st_sessions st)" "list_all no_registry es"
  shows "registered_here br st2 \<and> st_online st2 = st_online st + 1"
  using run_loop_registered[OF assms(2,4)] run_loop_online[OF assms(2)] bridge_start_ok[OF assms(1,3)] by auto

lemma run_open_registered:
  assumes "run env br es st = (RunOpen, st')" "live (st_sessions st)" "list_all no_registry es"
  shows "registered_here br st'"
  using assms run_loop_after_start by (fastforce simp: run_def split: prod.splits option.splits bool.splits)

lemma run_error_unchanged:
  "run env br es st = (RunError e, st') \<Longrightarrow> st_online st' = st_online st \<and> st_sessions st' = st_sessions st"
  by (auto simp: run_def dest: bridge_start_failed split: prod.splits option.splits bool.splits)

text \<open>A run only touches the registry entry of its own player.\<close>

definition others_kept :: "backend_bridge \<Rightarrow> 'w bridge_state \<Rightarrow> 'w bridge_state \<Rightarrow> bool" where
  "others_kept br st st' \<longleftrightarrow> (live (st_sessions st) \<longrightarrow> live (st_sessions st')
     \<and> (\<forall>u. \<not> eq_ignore_ascii_case u (user br) \<longrightarrow> get_session u (st_sessions st') = get_session u (st_sessions st)))"

lemma others_kept_trans [trans]: "others_kept br s t \<Longrightarrow> others_kept br t u \<Longrightarrow> others_kept br s u"
  by (auto simp: others_kept_def)

lemma others_kept_same: "st_sessions st' = st_sessions st \<Longrightarrow> others_kept br st st'"
  by (simp add: others_kept_def)

lemma others_kept_ops:
  "st_sessions st' = update_server (user br) n (st_sessions st) \<Longrightarrow> others_kept br st st'"
  "username s = user br \<Longrightarrow> st_sessions st' = register s (st_sessions st) \<Longrightarrow> others_kept br st st'"
  "st_sessions st' = snd (unregister (user br) (st_sessions st)) \<Longrightarrow> others_kept br st st'"
  by (simp_all add: others_kept_def vine.get_upd vine.ok_upd vine.get_reg vine.ok_reg vine.get_unreg vine.ok_unreg)

lemma others_kept_exit: "handle_exit env br x st = (b, st') \<Longrightarrow> others_kept br st st'"
  by (drule handle_exit_effects) (auto intro: others_kept_same others_kept_ops)

lemma run_loop_others: "run_loop env br es st = (b, st') \<Longrightarrow> list_all no_registry es \<Longrightarrow> others_kept br st st'"
proof (induction rule: run_loop_induct)
  case (open_end es st st1 rest)
  then show ?case using bridge_tunnel_registry others_kept_same by blast
next
  case (ended es st x st1 es1 st2)
  then show ?case using bridge_tunnel_registry others_kept_same others_kept_exit others_kept_trans by metis
next
  case (again es st x st1 es1 st2 b st')
  then have "others_kept br st st1" "others_kept br st1 st2" "others_kept br st2 st'"
    using bridge_tunnel_registry others_kept_same others_kept_exit registered_here_tunnel(2) by metis+
  then show ?case using others_kept_trans by metis
qed

lemma joined_others: "joined env br n l st = (x, st') \<Longrightarrow> others_kept br st st'"
  by (auto simp: joined_def Let_def others_kept_def vine.get_reg vine.ok_reg split: option.splits prod.splits)

lemma bridge_start_others:
  assumes "bridge_start env br st = (x, st')"
  shows "others_kept br st st'"
  using assms by (auto simp: bridge_start_def Let_def others_kept_def dest!: ask_connect_effects joined_others
    split: prod.splits if_splits sum.splits option.splits)

lemma run_others:
  assumes "run env br es st = (r, st')" "list_all no_registry es"
  shows "others_kept br st st'"
proof -
  obtain x st1 where b: "bridge_start env br st = (x, st1)" by fastforce
  obtain y st2 where l: "run_loop env br es st1 = (y, st2)" by fastforce
  have s1: "others_kept br st st1" using b by (rule bridge_start_others)
  have s2: "others_kept br st st2" using s1 run_loop_others[OF l assms(2)] by (rule others_kept_trans)
  have "others_kept br st2 (leave env br st2)"
    by (rule others_kept_ops(3)) (simp add: leave_def Let_def)
  with s1 s2 assms(1) b l others_kept_trans show ?thesis
    by (auto simp: run_def split: option.splits bool.splits)
qed


section \<open>A client that hangs up\<close>

definition polls_client :: "sched \<Rightarrow> bool" where
  "polls_client e = (case e of ClientReady _ \<Rightarrow> True | _ \<Rightarrow> False)"

lemma client_input_step:
  "\<not> polls_client e \<Longrightarrow> conn_in (st_client (snd (tunnel_step env br e st))) = conn_in (st_client st)"
proof (cases e)
  case BackendReady
  then show ?thesis using backend_reader_effect[of env br st] by (simp add: tunnel_step_def)
next
  case ActionReady
  then show ?thesis using frame_action[of st env br] by (simp add: tunnel_step_def frame_def)
next
  case WriterReady
  then show ?thesis using writer_effect[of st] by (simp add: tunnel_step_def)
next
  case (TimerFires i)
  then show ?thesis using frame_timer[of st env br i] by (simp add: tunnel_step_def frame_def)
qed (simp_all add: tunnel_step_def polls_client_def)

lemma hang_up_schedule:
  assumes "run_schedule (tunnel_step env br) es st = (x, st', es')" "conn_in (st_client st) = DecodeFailure m # ds"
    and "list_ex polls_client es"
  shows "x = Some ClientDisconnected
    \<or> x \<noteq> None \<and> conn_in (st_client st') = DecodeFailure m # ds \<and> list_ex polls_client es'"
  using assms
proof (induction es arbitrary: st)
  case Nil
  then show ?case by simp
next
  case (Cons e es)
  show ?case
  proof (cases "polls_client e")
    case True
    then obtain t where "e = ClientReady t" by (auto simp: polls_client_def split: sched.splits)
    with Cons.prems show ?thesis by (auto simp: tunnel_step_def client_to_backend_def)
  next
    case False
    obtain y st1 where y: "tunnel_step env br e st = (y, st1)" by fastforce
    have keep: "conn_in (st_client st1) = DecodeFailure m # ds"
      using client_input_step[OF False, of env br st] y Cons.prems(2) by simp
    show ?thesis
    proof (cases y)
      case None
      with Cons.IH[OF _ keep] Cons.prems y False show ?thesis by simp
    next
      case (Some z)
      with Cons.prems y False keep show ?thesis by auto
    qed
  qed
qed

lemma client_input_helpers [simp]:
  "conn_in (st_client (tell env br m st)) = conn_in (st_client st)"
  "conn_in (st_client (drop_client env br m st)) = conn_in (st_client st)"
  "conn_in (st_client (moved env br c n st)) = conn_in (st_client st)"
  "conn_in (st_client (announce_connected env br st)) = conn_in (st_client st)"
  by (simp_all add: tell_def drop_client_def disconnect_client_def moved_def announce_connected_def)

lemma client_input_exit:
  "handle_exit env br x st = (b, st') \<Longrightarrow> conn_in (st_client st') = conn_in (st_client st)"
  by (cases x) (auto simp: handle_exit_def on_connect_def on_backend_disconnected_def Let_def dest!: ask_connect_effects
      split: prod.splits if_splits option.splits sum.splits)

lemma hang_up_loop:
  "run_loop env br es st = (b, st') \<Longrightarrow> conn_in (st_client st) = DecodeFailure m # ds \<Longrightarrow> list_ex polls_client es \<Longrightarrow> b"
proof (induction rule: run_loop_induct)
  case (open_end es st st1 rest)
  then show ?case using hang_up_schedule[OF open_end.hyps[unfolded bridge_tunnel_def]] by simp
next
  case (ended es st x st1 es1 st2)
  then show ?case by simp
next
  case (again es st x st1 es1 st2 b st')
  have "x \<noteq> ClientDisconnected" using again.hyps(2) by (auto simp: handle_exit_def)
  then have "conn_in (st_client st1) = DecodeFailure m # ds" "list_ex polls_client es1"
    using hang_up_schedule[OF again.hyps(1)[unfolded bridge_tunnel_def]] again.prems by auto
  with again show ?case using client_input_exit by metis
qed

lemma joined_client_input: "joined env br n l st = (e, st') \<Longrightarrow> conn_in (st_client st') = conn_in (st_client st)"
  by (auto simp: joined_def Let_def write_packet_def split: option.splits prod.splits)


section \<open>Losing a backend\<close>

text \<open>
  C15: losing a backend does not lose the player: if the backend closes the connection and the fallback
  is another server that accepts the player, the run goes on there, over the new connection, and
  the registry shows the player at the fallback.
\<close>
theorem backend_loss_recovers:
  assumes "can_fallback br (st_server st) = Some (fb, cfg)"
    and "login_backend env br fb cfg (st_dials st) = (Inr (c, s), k)" and "registered_here br st"
  shows "\<exists>st'. handle_exit env br (BackendDisconnected reason) st = (True, st') \<and> st_server st' = fb
    \<and> st_backend st' = c \<and> registered_here br st'"
proof -
  obtain b st' where h: "handle_exit env br (BackendDisconnected reason) st = (b, st')" by fastforce
  with assms(1,2) have "b" "st_server st' = fb" "st_backend st' = c"
    by (auto simp: handle_exit_def on_backend_disconnected_def Let_def moved_def)
  with h registered_here_exit[OF assms(3) h] show ?thesis by auto
qed


section \<open>Examples\<close>

lemma demo_run_outcome:
  "fst (run (demo_env demo_login) demo_bridge [BackendReady, WriterReady] (demo_state [] [])) = RunOpen"
  "fst (run (demo_env demo_login) demo_bridge [BackendReady, ClientReady 5, WriterReady] (demo_state [DecodeFailure ''eof''] [])) = RunDone"
  by code_simp+



definition demo_registered :: "player_action list \<Rightarrow> nat bridge_state" where
  "demo_registered acts = (demo_state [] [])\<lparr>st_actions := acts, st_sessions :=
     register \<lparr>username = ''Alex'', session_uuid = player_id demo_player, current_server = ''lobby'', action_tx = 7,
       client_ip = ''10.0.0.1'', session_protocol = 770\<rparr> session_manager_new\<rparr>"

lemma demo_fallback:
  "can_fallback demo_bridge (st_server (demo_registered acts)) = Some (''hub'', demo_backend)"
  "registered_here demo_bridge (demo_registered acts)"
  by (simp_all add: can_fallback_def demo_bridge_def demo_registered_def demo_state_def registered_here_def user_def
    demo_player_def vine.get_reg vine.ok_reg live_new)

lemma demo_fallback_login:
  "\<exists>c s k. login_backend (demo_env demo_login) demo_bridge ''hub'' demo_backend (st_dials (demo_registered acts)) = (Inr (c, s), k)"
proof -
  have "isl (fst (login_backend (demo_env demo_login) demo_bridge ''hub'' demo_backend 1)) = False" by code_simp
  moreover have "st_dials (demo_registered acts) = 1" by (simp add: demo_registered_def demo_state_def)
  ultimately show ?thesis by (metis isl_def old.sum.exhaust prod.collapse)
qed

theorem backend_loss_recovers_witness:
  "\<exists>st'. handle_exit (demo_env demo_login) demo_bridge (BackendDisconnected None) (demo_registered []) = (True, st')
     \<and> st_server st' = ''hub'' \<and> registered_here demo_bridge st'"
proof -
  obtain c s k where l: "login_backend (demo_env demo_login) demo_bridge ''hub'' demo_backend (st_dials (demo_registered [])) = (Inr (c, s), k)"
    using demo_fallback_login[of "[]"] by blast
  from backend_loss_recovers[OF demo_fallback(1) l demo_fallback(2)] show ?thesis by blast
qed


end
