(* ===== verification/Client.thy ===== *)
theory Client
  imports Bridge Router Sanitizer
begin

text \<open>
  \<^verbatim>\<open>src/src/client.rs\<close>: one client connection, from the handshake to a server list answer or to
  the bridge. The state is that of the bridge's run; before the bridge starts only its client
  connection, the plugins' state and the shared parts matter. What the handler owns is the
  record \<^verbatim>\<open>client_handler\<close>, what it uses of third-party code beyond the bridge the record
  \<^verbatim>\<open>client_env\<close>; the random verify token is its field \<^verbatim>\<open>cl_token\<close>.
\<close>

section \<open>Model\<close>

datatype client_error =
    ClientIoError string
  | ClientDecodeError string
  | ClientEncodeError string
  | ClientAuthError string
  | ClientBridgeError bridge_error
  | ClientTimeout

record 'key client_handler =
  ch_peer_addr :: socket_addr
  ch_config :: config
  ch_keystore :: "'key key_store"
  ch_status_handler :: status_handler
  ch_router :: router
  ch_command_dispatcher :: command_dispatcher
  ch_plugin_manager :: plugin_manager

record ('w, 'key) client_env =
  cl_env :: "'w tunnel_env"
  cl_auth :: "'key auth_ext"
  cl_token :: bytes
  cl_decoder_set_encryption :: "bytes \<Rightarrow> string option"
  cl_encoder_set_encryption :: "bytes \<Rightarrow> string option"
  cl_to_json :: "status_json \<Rightarrow> string option"
  cl_base64 :: "bytes \<Rightarrow> string"
  cl_disk :: disk

abbreviation cl_proto :: "('w, 'key) client_env \<Rightarrow> proto" where
  "cl_proto ce \<equiv> env_proto (cl_env ce)"

text \<open>Reading within a time limit, and serialising, writing and flushing.\<close>

definition next_packet :: "'w bridge_state \<Rightarrow> (client_error + i32 \<times> bytes) \<times> 'w bridge_state" where
  "next_packet st =
     (case conn_in (st_client st) of
        [] \<Rightarrow> (Inl ClientTimeout, st)
      | DecodeFailure e # es \<Rightarrow> (Inl (ClientDecodeError e), st\<lparr>st_client := (st_client st)\<lparr>conn_in := es\<rparr>\<rparr>)
      | Packet i p # es \<Rightarrow> (Inr (i, p), st\<lparr>st_client := (st_client st)\<lparr>conn_in := es\<rparr>\<rparr>))"

definition put_packet :: "string + bytes \<Rightarrow> 'w bridge_state \<Rightarrow> (client_error + unit) \<times> 'w bridge_state" where
  "put_packet r st =
     (case r of
        Inl e \<Rightarrow> (Inl (ClientEncodeError e), st)
      | Inr b \<Rightarrow>
          (case write_packet b (st_client st) of
             (Some e, c) \<Rightarrow> (Inl (ClientEncodeError e), st\<lparr>st_client := c\<rparr>)
           | (None, c) \<Rightarrow> (Inr (), st\<lparr>st_client := c\<rparr>)))"

definition kick :: "('w, 'key) client_env \<Rightarrow> java_version \<Rightarrow> string \<Rightarrow> 'w bridge_state \<Rightarrow> (client_error + unit) \<times> 'w bridge_state" where
  "kick ce v reason st =
     (case ser_login_disconnect (cl_proto ce) v (kick_json reason) of
        Inl e \<Rightarrow> (Inl (ClientEncodeError e), st)
      | Inr b \<Rightarrow> (Inr (), st\<lparr>st_client := snd (write_packet b (st_client st))\<rparr>))"

text \<open>A step that may fail, followed by the rest of the function.\<close>

definition and_then :: "(client_error + 'a) \<times> 's \<Rightarrow> ('a \<Rightarrow> 's \<Rightarrow> (client_error + 'b) \<times> 's) \<Rightarrow> (client_error + 'b) \<times> 's" where
  "and_then r f = (case r of (Inl e, st) \<Rightarrow> (Inl e, st) | (Inr a, st) \<Rightarrow> f a st)"

definition kick_and_fail ::
  "('w, 'key) client_env \<Rightarrow> java_version \<Rightarrow> string \<Rightarrow> string \<Rightarrow> 'w bridge_state \<Rightarrow> (client_error + 'a) \<times> 'w bridge_state" where
  "kick_and_fail ce v reason err st = and_then (kick ce v reason st) (\<lambda>_ st. (Inl (ClientAuthError err), st))"

definition reading :: "string + 'a \<Rightarrow> 's \<Rightarrow> (client_error + 'a) \<times> 's" where
  "reading r st = (case r of Inl e \<Rightarrow> (Inl (ClientDecodeError e), st) | Inr a \<Rightarrow> (Inr a, st))"

definition authing :: "auth_error + 'a \<Rightarrow> 's \<Rightarrow> (client_error + 'a) \<times> 's" where
  "authing r st = (case r of Inl e \<Rightarrow> (Inl (ClientAuthError (show_auth_error e)), st) | Inr a \<Rightarrow> (Inr a, st))"

subsection \<open>Status\<close>

text \<open>The answer to the status request, built around what the plugins make of it, and the pong.\<close>

definition status_reply ::
  "('w, 'key) client_env \<Rightarrow> 'key client_handler \<Rightarrow> java_version \<Rightarrow> string \<Rightarrow> status_icon_manager \<Rightarrow> 'w bridge_state
    \<Rightarrow> (client_error + status_icon_manager) \<times> 'w bridge_state" where
  "status_reply ce h v virtual_host icons st =
     (case fire_proxy_ping (env_wasm (cl_env ce)) (ch_plugin_manager h)
             \<lparr>ping_client_ip = show_ip (ip (ch_peer_addr h)), ping_protocol_version = protocol_number v,
              ping_virtual_host = virtual_host, ping_motd = resolve_motd_text (ch_status_handler h) (Some virtual_host),
              ping_max_players = motd_max_players (motd (ch_config h)), ping_online_players = ucast (st_online st),
              ping_version_name = motd_version_name (motd (ch_config h))\<rparr> (st_world st) of
        (ev, w) \<Rightarrow>
          (case create_custom_status_packet (cl_to_json ce) (cl_base64 ce) (cl_disk ce) (ch_status_handler h) v
                  (ping_motd ev) (ping_max_players ev) (ping_online_players ev) (ping_version_name ev)
                  (Some virtual_host) icons of
             (json, icons) \<Rightarrow>
               and_then (put_packet (ser_status_response (cl_proto ce) v json) (st\<lparr>st_world := w\<rparr>))
                 (\<lambda>_ st. (Inr icons, st))))"

definition status_pong ::
  "('w, 'key) client_env \<Rightarrow> java_version \<Rightarrow> 'w bridge_state \<Rightarrow> (client_error + unit) \<times> 'w bridge_state" where
  "status_pong ce v st =
     (case next_packet st of
        (Inr (j, p), st) \<Rightarrow>
          if j = 1 then
            (case read_status_ping (cl_proto ce) v p of
               None \<Rightarrow> (Inr (), st)
             | Some t \<Rightarrow>
                 (case ser_ping_response (cl_proto ce) v t of
                    Inl e \<Rightarrow> (Inl (ClientEncodeError e), st)
                  | Inr b \<Rightarrow> (Inr (), st\<lparr>st_client := snd (write_packet b (st_client st))\<rparr>)))
          else (Inr (), st)
      | (Inl _, st) \<Rightarrow> (Inr (), st))"

definition handle_status ::
  "('w, 'key) client_env \<Rightarrow> 'key client_handler \<Rightarrow> java_version \<Rightarrow> string \<Rightarrow> status_icon_manager \<Rightarrow> 'w bridge_state
    \<Rightarrow> (client_error + status_icon_manager) \<times> 'w bridge_state" where
  "handle_status ce h v virtual_host icons st =
     and_then (next_packet st) (\<lambda>(i, _) st.
     and_then (if i = 0 then status_reply ce h v virtual_host icons st else (Inr icons, st)) (\<lambda>icons st.
     and_then (status_pong ce v st) (\<lambda>_ st. (Inr icons, st))))"

subsection \<open>Login\<close>

definition set_encryption :: "('w, 'key) client_env \<Rightarrow> bytes \<Rightarrow> 'w bridge_state \<Rightarrow> (client_error + unit) \<times> 'w bridge_state" where
  "set_encryption ce key st =
     (case cl_decoder_set_encryption ce key of
        Some e \<Rightarrow> (Inl (ClientDecodeError e), st)
      | None \<Rightarrow>
          (case cl_encoder_set_encryption ce key of
             Some e \<Rightarrow> (Inl (ClientEncodeError e), st)
           | None \<Rightarrow> (Inr (), st\<lparr>st_client := (st_client st)\<lparr>conn_encryption := Some key\<rparr>\<rparr>)))"

definition online_login ::
  "('w, 'key) client_env \<Rightarrow> 'key client_handler \<Rightarrow> java_version \<Rightarrow> string \<Rightarrow> ip_addr \<Rightarrow> 'w bridge_state
    \<Rightarrow> (client_error + authenticated_player) \<times> 'w bridge_state" where
  "online_login ce h v name addr st =
     and_then (put_packet (ser_encryption_request (cl_proto ce) v '''' (public_key_der (ch_keystore h)) (cl_token ce) True) st) (\<lambda>_ st.
     and_then (next_packet st) (\<lambda>(_, p) st.
     and_then (reading (read_encryption_response (cl_proto ce) v p) st) (\<lambda>resp st.
     and_then (authing (decrypt (cl_auth ce) (ch_keystore h) (enc_verify_token resp)) st) (\<lambda>decrypted_token st.
     if decrypted_token \<noteq> cl_token ce
     then kick_and_fail ce v ''Failed to verify encryption token'' ''Token mismatch'' st
     else
       and_then (authing (decrypt (cl_auth ce) (ch_keystore h) (enc_shared_secret resp)) st) (\<lambda>shared_secret st.
       if length shared_secret \<noteq> 16
       then kick_and_fail ce v ''Invalid encryption key length'' ''Invalid key length'' st
       else
         (case authenticate (cl_auth ce) name (auth_digest (cl_auth ce) (ch_keystore h) '''' shared_secret) addr
                 (prevent_proxy_connections (server (ch_config h))) of
            Inl e \<Rightarrow>
              kick_and_fail ce v ''Failed to verify username with Mojang session servers! Please try again later.''
                (show_auth_error e) st
          | Inr player \<Rightarrow> and_then (set_encryption ce shared_secret st) (\<lambda>_ st. (Inr player, st))))))))"

definition login_fallback :: "config \<Rightarrow> (string \<times> backend_config) option" where
  "login_fallback cfg =
     (if try_fallback_on_connect_failure (routing cfg) then
        (case fallback_server (routing cfg) of
           None \<Rightarrow> None
         | Some fb_name \<Rightarrow> map_option (\<lambda>c. (fb_name, c)) (map_of (servers cfg) fb_name))
      else None)"

text \<open>The bridge at the end of a login; an ended or open run is its outcome.\<close>

definition login_bridge ::
  "'key client_handler \<Rightarrow> java_version \<Rightarrow> string \<Rightarrow> ip_addr \<Rightarrow> authenticated_player \<Rightarrow> string \<Rightarrow> backend_config
    \<Rightarrow> backend_bridge" where
  "login_bridge h v virtual_host addr player name cfg =
     \<lparr>br_server_name = name, br_config = cfg, br_fallback_server = login_fallback (ch_config h),
      br_client_ip = addr, br_client_version = v, br_virtual_host = virtual_host, br_player = player,
      br_max_packets_per_sec = sec_max_packets_per_sec (security (ch_config h)),
      br_network_config = network (ch_config h),
      br_compression_level = compression_level (server (ch_config h)),
      br_command_dispatcher = ch_command_dispatcher h, br_proxy_config = ch_config h,
      br_plugin_manager = ch_plugin_manager h\<rparr>"

definition start_bridge ::
  "('w, 'key) client_env \<Rightarrow> 'key client_handler \<Rightarrow> java_version \<Rightarrow> string \<Rightarrow> ip_addr \<Rightarrow> authenticated_player
    \<Rightarrow> sched list \<Rightarrow> 'w bridge_state \<Rightarrow> (client_error + run_outcome option) \<times> 'w bridge_state" where
  "start_bridge ce h v virtual_host addr player es st =
     (case resolve_server (ch_router h) virtual_host of
        None \<Rightarrow>
          and_then (kick ce v ''No default or matching backend Minecraft server is configured on the proxy.'' st)
            (\<lambda>_ st. (Inr None, st))
      | Some (name, cfg) \<Rightarrow>
          (case run (cl_env ce) (login_bridge h v virtual_host addr player name cfg) es st of
             (RunError e, st) \<Rightarrow> (Inl (ClientBridgeError e), st)
           | (r, st) \<Rightarrow> (Inr (Some r), st)))"

definition set_compression ::
  "('w, 'key) client_env \<Rightarrow> config \<Rightarrow> java_version \<Rightarrow> 'w bridge_state \<Rightarrow> (client_error + unit) \<times> 'w bridge_state" where
  "set_compression ce cfg v st =
     (let t = compression_threshold (server cfg)
      in if 0 < sint t then
           and_then (put_packet (ser_set_compression (cl_proto ce) v t) st) (\<lambda>_ st.
             (Inr (), st\<lparr>st_client := (st_client st)\<lparr>conn_compression :=
                Some (of_nat (unat t), compression_level (server cfg))\<rparr>\<rparr>))
         else (Inr (), st))"

definition complete_login ::
  "('w, 'key) client_env \<Rightarrow> 'key client_handler \<Rightarrow> java_version \<Rightarrow> string \<Rightarrow> ip_addr \<Rightarrow> authenticated_player
    \<Rightarrow> sched list \<Rightarrow> 'w bridge_state \<Rightarrow> (client_error + run_outcome option) \<times> 'w bridge_state" where
  "complete_login ce h v virtual_host addr player es st =
     (case fire_player_login (env_wasm (cl_env ce)) (ch_plugin_manager h)
             \<lparr>login_uuid = env_uuid_text (cl_env ce) (player_id player), login_username = player_name player,
              login_client_ip = show_ip addr, login_cancelled = False, login_cancel_reason = None\<rparr> (st_world st) of
        (ev, w) \<Rightarrow>
          let st = st\<lparr>st_world := w\<rparr>
          in if login_cancelled ev then
               and_then (kick ce v (case login_cancel_reason ev of Some r \<Rightarrow> r | None \<Rightarrow> ''Login cancelled by plugin'') st)
                 (\<lambda>_ st. (Inr None, st))
             else
               and_then (set_compression ce (ch_config h) v st) (\<lambda>_ st.
                 start_bridge ce h v virtual_host addr player es st))"

definition handle_login ::
  "('w, 'key) client_env \<Rightarrow> 'key client_handler \<Rightarrow> java_version \<Rightarrow> string \<Rightarrow> ip_addr \<Rightarrow> sched list
    \<Rightarrow> 'w bridge_state \<Rightarrow> (client_error + run_outcome option) \<times> 'w bridge_state" where
  "handle_login ce h v virtual_host addr es st =
     and_then (next_packet st) (\<lambda>(_, p) st.
     and_then (reading (read_login_start (cl_proto ce) v p) st) (\<lambda>name st.
     (case fire_player_pre_login (env_wasm (cl_env ce)) (ch_plugin_manager h)
             \<lparr>pre_client_ip = show_ip addr, pre_username = name, pre_protocol_version = protocol_number v,
              pre_virtual_host = virtual_host, pre_cancelled = False, pre_cancel_reason = None\<rparr> (st_world st) of
        (ev, w) \<Rightarrow>
          let st = st\<lparr>st_world := w\<rparr>
          in if pre_cancelled ev then
               and_then (kick ce v (case pre_cancel_reason ev of Some r \<Rightarrow> r | None \<Rightarrow> ''Connection cancelled by plugin'') st)
                 (\<lambda>_ st. (Inr None, st))
             else if validate_usernames (security (ch_config h)) \<and> \<not> is_valid_username name then
               and_then (kick ce v ''Invalid username characters or length (must be 2-16 alphanumeric or _)'' st)
                 (\<lambda>_ st. (Inr None, st))
             else
               and_then
                 (if online_mode (server (ch_config h)) then online_login ce h v name addr st
                  else (Inr (offline (cl_auth ce) name), st))
                 (\<lambda>player st. complete_login ce h v virtual_host addr player es st))))"

subsection \<open>Handshake\<close>

datatype handled = Answered status_icon_manager | LoggedIn "run_outcome option" | Ignored

definition client_handle ::
  "('w, 'key) client_env \<Rightarrow> 'key client_handler \<Rightarrow> status_icon_manager \<Rightarrow> sched list \<Rightarrow> 'w bridge_state
    \<Rightarrow> (client_error + handled) \<times> 'w bridge_state" where
  "client_handle ce h icons es st =
     and_then (next_packet st) (\<lambda>(_, p) st.
     and_then (reading (read_handshake (cl_proto ce) p) st) (\<lambda>hs st.
     let v = from_protocol (cl_proto ce) (hs_protocol hs);
         clean = sanitize_host (hs_address hs)
     in (case hs_next hs of
           StateStatus \<Rightarrow> and_then (handle_status ce h v clean icons st) (\<lambda>icons st. (Inr (Answered icons), st))
         | StateLogin \<Rightarrow>
             and_then (handle_login ce h v clean (ip (ch_peer_addr h)) es st) (\<lambda>r st. (Inr (LoggedIn r), st))
         | StateOther \<Rightarrow> (Inr Ignored, st))))"

section \<open>What stays private to a connection\<close>

text \<open>The parts of the state other connections see.\<close>

definition shared :: "'w bridge_state \<Rightarrow> 'w bridge_state \<Rightarrow> bool" where
  "shared st st' \<longleftrightarrow> st_sessions st' = st_sessions st \<and> st_online st' = st_online st"

lemma shared_refl [simp]: "shared st st"
  by (simp add: shared_def)

lemma shared_trans [trans]: "shared s t \<Longrightarrow> shared t u \<Longrightarrow> shared s u"
  by (simp add: shared_def)

lemma shared_local [simp]:
  "shared st (st\<lparr>st_world := w\<rparr>)" "shared st (st\<lparr>st_client := c\<rparr>)" "shared (st\<lparr>st_world := w\<rparr>) st' = shared st st'"
  by (simp_all add: shared_def)

lemma and_then_cases:
  assumes "and_then r f = (x, st')"
  obtains (failed) e where "r = (Inl e, st')" "x = Inl e" | (ok) a st1 where "r = (Inr a, st1)" "f a st1 = (x, st')"
  using assms by (cases r; cases "fst r") (auto simp: and_then_def)

lemma shared_next: "next_packet st = (r, st') \<Longrightarrow> shared st st'"
  by (auto simp: next_packet_def shared_def split: list.splits decode_event.splits)

lemma shared_put: "put_packet b st = (r, st') \<Longrightarrow> shared st st'"
  by (auto simp: put_packet_def shared_def split: sum.splits option.splits prod.splits)

lemma shared_kick: "kick ce v m st = (r, st') \<Longrightarrow> shared st st'"
  by (auto simp: kick_def shared_def split: sum.splits)

lemma reading_Inr [simp]: "reading r st = (Inr a, st') \<longleftrightarrow> r = Inr a \<and> st' = st"
  by (auto simp: reading_def split: sum.splits)

lemma shared_reading: "reading r st = (x, st') \<Longrightarrow> shared st st'"
  by (auto simp: reading_def split: sum.splits)

lemma authing_Inr [simp]: "authing r st = (Inr a, st') \<longleftrightarrow> r = Inr a \<and> st' = st"
  by (auto simp: authing_def split: sum.splits)

lemma shared_authing: "authing r st = (x, st') \<Longrightarrow> shared st st'"
  by (auto simp: authing_def split: sum.splits)

text \<open>Sequencing keeps what both parts keep.\<close>

lemma shared_and_then:
  assumes "and_then r f = (x, st')" "\<And>y t. r = (y, t) \<Longrightarrow> shared st t"
    and "\<And>a t. r = (Inr a, t) \<Longrightarrow> f a t = (x, st') \<Longrightarrow> shared t st'"
  shows "shared st st'"
  using assms(1) by (cases rule: and_then_cases) (use assms(2,3) shared_trans in blast)+

lemma shared_kick_and_fail: "kick_and_fail ce v m e st = (r, st') \<Longrightarrow> shared st st'"
  unfolding kick_and_fail_def by (erule shared_and_then) (auto dest: shared_kick)

lemma shared_set_encryption: "set_encryption ce k st = (r, st') \<Longrightarrow> shared st st'"
  by (auto simp: set_encryption_def split: option.splits)

lemma shared_set_compression: "set_compression ce cfg v st = (r, st') \<Longrightarrow> shared st st'"
  unfolding set_compression_def Let_def
  by (auto split: if_splits elim!: shared_and_then dest: shared_put)

lemmas shared_steps = shared_put shared_next shared_reading shared_authing shared_kick shared_kick_and_fail shared_set_encryption

lemma shared_online_login: "online_login ce h v n a st = (r, st') \<Longrightarrow> shared st st'"
  unfolding online_login_def
  by (auto elim!: shared_and_then split: if_splits sum.splits prod.splits) (erule shared_steps)+

text \<open>A player comes out of an online login only if the session server vouches for the name.\<close>

lemma online_login_authenticates:
  assumes "online_login ce h v n a st = (Inr player, st')"
  shows "\<exists>secret. length secret = 16 \<and> conn_encryption (st_client st') = Some secret
    \<and> authenticate (cl_auth ce) n (auth_digest (cl_auth ce) (ch_keystore h) '''' secret) a
        (prevent_proxy_connections (server (ch_config h))) = Inr player"
  using assms unfolding online_login_def kick_and_fail_def
  by (auto elim!: and_then_cases simp: set_encryption_def split: if_splits sum.splits option.splits prod.splits)


lemma shared_status_reply: "status_reply ce h v host icons st = (r, st') \<Longrightarrow> shared st st'"
  unfolding status_reply_def by (auto split: prod.splits elim!: and_then_cases dest!: shared_put)

lemma shared_status_pong: "status_pong ce v st = (r, st') \<Longrightarrow> shared st st'"
  unfolding status_pong_def
  by (auto split: prod.splits sum.splits option.splits if_splits dest!: shared_next simp: shared_def)

lemma shared_handle_status: "handle_status ce h v host icons st = (r, st') \<Longrightarrow> shared st st'"
  unfolding handle_status_def
  by (auto elim!: shared_and_then split: if_splits) (erule shared_next shared_status_reply shared_status_pong)+

section \<open>Who gets a session\<close>

text \<open>How a login can affect the shared state at all: through a run of the bridge for this player.\<close>

definition bridged ::
  "('w, 'key) client_env \<Rightarrow> authenticated_player \<Rightarrow> sched list \<Rightarrow> 'w bridge_state \<Rightarrow> (client_error + run_outcome option)
    \<Rightarrow> 'w bridge_state \<Rightarrow> bool" where
  "bridged ce player es st r st' \<longleftrightarrow> (\<exists>br st1 o1. br_player br = player \<and> shared st st1
     \<and> run (cl_env ce) br es st1 = (o1, st') \<and> r = Inr (Some o1))"

lemma start_bridge_cases:
  assumes "start_bridge ce h v host a player es st = (r, st')"
  shows "shared st st' \<or> bridged ce player es st r st'"
proof (cases "resolve_server (ch_router h) host")
  case None
  with assms show ?thesis
    by (auto simp: start_bridge_def elim!: and_then_cases dest: shared_kick)
next
  case (Some nc)
  define br where "br = login_bridge h v host a player (fst nc) (snd nc)"
  obtain o1 st2 where o1: "run (cl_env ce) br es st = (o1, st2)" by fastforce
  have br: "br_player br = player" by (simp add: br_def login_bridge_def)
  show ?thesis
  proof (cases o1)
    case (RunError e)
    with run_error_unchanged[of "cl_env ce" br es st e st2] o1 Some assms show ?thesis
      by (auto simp: shared_def start_bridge_def br_def split: prod.splits)
  next
    case RunDone
    with o1 Some assms br show ?thesis by (auto simp: bridged_def start_bridge_def br_def split: prod.splits)
  next
    case RunOpen
    with o1 Some assms br show ?thesis by (auto simp: bridged_def start_bridge_def br_def split: prod.splits)
  qed
qed

lemma bridged_later: "bridged ce player es t r st' \<Longrightarrow> shared st t \<Longrightarrow> bridged ce player es st r st'"
  unfolding bridged_def using shared_trans by blast

lemma complete_login_cases:
  assumes "complete_login ce h v host a player es st = (r, st')"
  shows "shared st st' \<or> bridged ce player es st r st'"
proof -
  obtain ev w where f: "fire_player_login (env_wasm (cl_env ce)) (ch_plugin_manager h)
      \<lparr>login_uuid = env_uuid_text (cl_env ce) (player_id player), login_username = player_name player,
       login_client_ip = show_ip a, login_cancelled = False, login_cancel_reason = None\<rparr> (st_world st) = (ev, w)"
    by fastforce
  show ?thesis
  proof (cases "login_cancelled ev")
    case True
    with assms f show ?thesis
      by (auto simp: complete_login_def elim!: and_then_cases dest!: shared_kick)
  next
    case False
    with assms f have "and_then (set_compression ce (ch_config h) v (st\<lparr>st_world := w\<rparr>))
        (\<lambda>_ st. start_bridge ce h v host a player es st) = (r, st')"
      by (simp add: complete_login_def)
    then show ?thesis
    proof (cases rule: and_then_cases)
      case (failed e)
      then show ?thesis using shared_set_compression by fastforce
    next
      case (ok u st1)
      then have "shared st st1" using shared_set_compression by fastforce
      with start_bridge_cases[OF ok(2)] show ?thesis using shared_trans bridged_later by blast
    qed
  qed
qed

text \<open>The rest of a login after its first packet: the part that can reach the bridge.\<close>

lemma handle_login_steps:
  assumes "handle_login ce h v host a es st = (r, st')"
  shows "shared st st' \<or> (\<exists>name st1. shared st st1
    \<and> (validate_usernames (security (ch_config h)) \<longrightarrow> is_valid_username name)
    \<and> and_then (if online_mode (server (ch_config h)) then online_login ce h v name a st1
                else (Inr (offline (cl_auth ce) name), st1))
        (\<lambda>player st. complete_login ce h v host a player es st) = (r, st'))"
  using assms[unfolded handle_login_def]
proof (cases rule: and_then_cases)
  case (failed e)
  then show ?thesis by (blast dest: shared_next)
next
  case (ok ip st1)
  obtain i p where [simp]: "ip = (i, p)" by fastforce
  have s1: "shared st st1" using ok(1) by (rule shared_next)
  from ok(2)[simplified] show ?thesis
  proof (cases rule: and_then_cases)
    case (failed e)
    then show ?thesis using s1 by (blast dest: shared_reading intro: shared_trans)
  next
    case (ok name st2)
    from ok(1) s1 have s2: "shared st st2" by simp
    let ?ev = "\<lparr>pre_client_ip = show_ip a, pre_username = name, pre_protocol_version = protocol_number v,
      pre_virtual_host = host, pre_cancelled = False, pre_cancel_reason = None\<rparr>"
    obtain ev w where f: "fire_player_pre_login (env_wasm (cl_env ce)) (ch_plugin_manager h) ?ev (st_world st2) = (ev, w)"
      by fastforce
    have s3: "shared st (st2\<lparr>st_world := w\<rparr>)" using s2 shared_local(1) by (rule shared_trans)
    have kicked: "shared st st'" if "and_then (kick ce v m (st2\<lparr>st_world := w\<rparr>)) (\<lambda>_ st. (Inr None, st)) = (r, st')" for m
      using that
    proof (cases rule: and_then_cases)
      case (failed e)
      then show ?thesis using s3 shared_kick shared_trans by blast
    next
      case (ok u t)
      then show ?thesis using s3 shared_kick shared_trans by blast
    qed
    show ?thesis
    proof (cases "pre_cancelled ev \<or> (validate_usernames (security (ch_config h)) \<and> \<not> is_valid_username name)")
      case True
      with ok(2) f kicked show ?thesis by (auto simp: Let_def split: if_splits)
    next
      case False
      then have nc: "pre_cancelled ev = False" and nv: "(validate_usernames (security (ch_config h)) \<and> \<not> is_valid_username name) = False"
        by auto
      have "and_then (if online_mode (server (ch_config h)) then online_login ce h v name a (st2\<lparr>st_world := w\<rparr>)
            else (Inr (offline (cl_auth ce) name), st2\<lparr>st_world := w\<rparr>))
          (\<lambda>player st. complete_login ce h v host a player es st) = (r, st')"
        using ok(2)[unfolded f prod.case Let_def nc nv if_False] .
      with False s3 show ?thesis by blast
    qed
  qed
qed

lemma handle_login_cases:
  assumes "handle_login ce h v host a es st = (r, st')" "online_mode (server (ch_config h))"
  shows "shared st st' \<or> (\<exists>name player secret. (validate_usernames (security (ch_config h)) \<longrightarrow> is_valid_username name)
    \<and> length secret = 16 \<and> authenticate (cl_auth ce) name (auth_digest (cl_auth ce) (ch_keystore h) '''' secret) a
        (prevent_proxy_connections (server (ch_config h))) = Inr player
    \<and> bridged ce player es st r st')"
  using handle_login_steps[OF assms(1)]
proof (elim disjE exE conjE)
  fix name st1
  assume s1: "shared st st1" and n: "validate_usernames (security (ch_config h)) \<longrightarrow> is_valid_username name"
    and "and_then (if online_mode (server (ch_config h)) then online_login ce h v name a st1
            else (Inr (offline (cl_auth ce) name), st1))
          (\<lambda>player st. complete_login ce h v host a player es st) = (r, st')"
  then have "and_then (online_login ce h v name a st1) (\<lambda>player st. complete_login ce h v host a player es st) = (r, st')"
    using assms(2) by simp
  then show ?thesis
  proof (cases rule: and_then_cases)
    case (failed e)
    then show ?thesis using s1 by (blast dest: shared_online_login intro: shared_trans)
  next
    case (ok player st2)
    have s2: "shared st st2" using s1 shared_online_login[OF ok(1)] by (rule shared_trans)
    from complete_login_cases[OF ok(2)] show ?thesis
    proof
      assume "shared st2 st'"
      with s2 show ?thesis using shared_trans by blast
    next
      assume "bridged ce player es st2 r st'"
      then have "bridged ce player es st r st'" using s2 by (rule bridged_later)
      with online_login_authenticates[OF ok(1)] n show ?thesis by blast
    qed
  qed
qed simp

lemma client_handle_login:
  assumes "client_handle ce h icons es st = (r, st')"
  shows "shared st st' \<or> (\<exists>st1 v host x. shared st st1
    \<and> handle_login ce h v host (ip (ch_peer_addr h)) es st1 = (x, st') \<and> r = map_sum id LoggedIn x)"
  using assms[unfolded client_handle_def Let_def]
proof (cases rule: and_then_cases)
  case (failed e)
  then show ?thesis by (blast dest: shared_next)
next
  case (ok ip st1)
  obtain i p where [simp]: "ip = (i, p)" by fastforce
  have s1: "shared st st1" using ok(1) by (rule shared_next)
  from ok(2)[simplified] show ?thesis
  proof (cases rule: and_then_cases)
    case (failed e)
    then show ?thesis using s1 by (blast dest: shared_reading intro: shared_trans)
  next
    case (ok hs st2)
    from ok(1) s1 have s2: "shared st st2" by simp
    show ?thesis
    proof (cases "hs_next hs")
      case StateStatus
      with ok(2) have "shared st2 st'"
        by (auto elim!: and_then_cases dest: shared_handle_status)
      with s2 show ?thesis using shared_trans by blast
    next
      case StateLogin
      with ok(2) obtain v host x where "handle_login ce h v host (Net_Addr.ip (ch_peer_addr h)) es st2 = (x, st')" "r = map_sum id LoggedIn x"
        by (auto elim!: and_then_cases)
      with s2 show ?thesis by blast
    next
      case StateOther
      with ok(2) s2 show ?thesis by simp
    qed
  qed
qed

text \<open>
  In online mode nobody gets, changes or ends a session without proving the identity: if the
  handling of a connection changes what the registry says of a name, the session server has
  vouched for a player of that name.
\<close>

lemma login_authenticated:
  assumes "client_handle ce h icons es st = (r, st')" and "online_mode (server (ch_config h))"
    and "live (st_sessions st)" and "list_all no_registry es"
    and "get_session u (st_sessions st') \<noteq> get_session u (st_sessions st)"
  shows "\<exists>name player secret. (validate_usernames (security (ch_config h)) \<longrightarrow> is_valid_username name)
    \<and> length secret = 16 \<and> authenticate (cl_auth ce) name (auth_digest (cl_auth ce) (ch_keystore h) '''' secret)
        (ip (ch_peer_addr h)) (prevent_proxy_connections (server (ch_config h))) = Inr player
    \<and> eq_ignore_ascii_case u (player_name player)
    \<and> (r = Inr (LoggedIn (Some RunOpen)) \<longrightarrow>
        (\<exists>s. get_session (player_name player) (st_sessions st') = Some s \<and> session_uuid s = player_id player))"
proof -
  have n: "\<not> shared st st'" using assms(5) by (auto simp: shared_def)
  then obtain st1 v host x where s1: "shared st st1" and x: "r = map_sum id LoggedIn x"
    and "handle_login ce h v host (ip (ch_peer_addr h)) es st1 = (x, st')"
    using client_handle_login[OF assms(1)] by blast
  from handle_login_cases[OF this(3) assms(2)] n s1 shared_trans obtain name player secret where
    a: "validate_usernames (security (ch_config h)) \<longrightarrow> is_valid_username name" "length secret = 16"
      "authenticate (cl_auth ce) name (auth_digest (cl_auth ce) (ch_keystore h) '''' secret)
        (ip (ch_peer_addr h)) (prevent_proxy_connections (server (ch_config h))) = Inr player"
    and "bridged ce player es st1 x st'"
    by metis
  then obtain br st2 o1 where b: "br_player br = player" "shared st1 st2" "run (cl_env ce) br es st2 = (o1, st')" "x = Inr (Some o1)"
    unfolding bridged_def by blast
  have u: "user br = player_name player" using b(1) by (simp add: user_def)
  have s2: "st_sessions st2 = st_sessions st" using s1 b(2) by (simp add: shared_def)
  have "eq_ignore_ascii_case u (player_name player)"
    using run_others[OF b(3) assms(4)] assms(3,5) s2 u by (auto simp: others_kept_def)
  moreover have "\<exists>s. get_session (player_name player) (st_sessions st') = Some s \<and> session_uuid s = player_id player"
    if "r = Inr (LoggedIn (Some RunOpen))"
    using run_open_registered[of "cl_env ce" br es st2 st'] b that x s2 assms(3,4) u by (auto simp: registered_here_def)
  ultimately show ?thesis using a by blast
qed


section \<open>What a kicked player reads\<close>

text \<open>
  A JSON reader for the message of a kick: the rest of a string literal, with the short escapes, and
  the text field of the component.
\<close>

definition short_escape :: "char \<Rightarrow> char option" where
  "short_escape c =
     (if c \<in> {CHR 0x22, CHR 0x5C, CHR ''/''} then Some c
      else if c = CHR ''b'' then Some (CHR 0x08) else if c = CHR ''f'' then Some (CHR 0x0C)
      else if c = CHR ''n'' then Some (CHR 0x0A) else if c = CHR ''r'' then Some (CHR 0x0D)
      else if c = CHR ''t'' then Some (CHR 0x09) else None)"

fun json_chars :: "string \<Rightarrow> (string \<times> string) option" where
  "json_chars [] = None"
| "json_chars (c # cs) =
     (if c = CHR 0x22 then Some ('''', cs)
      else if c = CHR 0x5C then
        (case cs of
           [] \<Rightarrow> None
         | e # cs' \<Rightarrow>
             (case (short_escape e, json_chars cs') of
                (Some x, Some (s, r)) \<Rightarrow> Some (x # s, r)
              | _ \<Rightarrow> None))
      else if code c < 0x20 then None
      else map_option (\<lambda>(s, r). (c # s, r)) (json_chars cs))"

definition json_open :: string where
  "json_open = ''{'' @ [CHR 0x22] @ ''text'' @ [CHR 0x22] @ '':'' @ [CHR 0x22]"

definition json_close :: string where
  "json_close = '','' @ [CHR 0x22] @ ''color'' @ [CHR 0x22] @ '':'' @ [CHR 0x22] @ ''red'' @ [CHR 0x22] @ ''}''"

definition read_kick :: "string \<Rightarrow> (string \<times> string) option" where
  "read_kick s = (case strip_prefix json_open s of Some r \<Rightarrow> json_chars r | None \<Rightarrow> None)"

definition plain_char :: "char \<Rightarrow> bool" where
  "plain_char c \<longleftrightarrow> c \<noteq> CHR 0x5C \<and> 0x20 \<le> code c"

abbreviation escape_quotes :: "string \<Rightarrow> string" where
  "escape_quotes \<equiv> replace_char CHR 0x22 [CHR 0x5C, CHR 0x22]"

lemma kick_json_parts:
  "kick_json reason = json_open @ ''[Vine Proxy] '' @ escape_quotes reason @ [CHR 0x22] @ json_close"
  by (simp add: kick_json_def json_open_def json_close_def)

lemma json_chars_plain:
  "list_all plain_char s \<Longrightarrow> json_chars (escape_quotes s @ r) = map_option (\<lambda>(t, r). (s @ t, r)) (json_chars r)"
proof (induction s)
  case Nil
  then show ?case by (cases "json_chars r") (auto simp: replace_char_def)
next
  case (Cons c s)
  then show ?case
    by (cases "json_chars r")
      (auto simp: replace_char_def plain_char_def short_escape_def split: option.splits)
qed

lemma read_kick_json:
  assumes "list_all plain_char a"
  shows "read_kick (kick_json (a @ b)) =
    map_option (\<lambda>(t, r). (''[Vine Proxy] '' @ a @ t, r)) (json_chars (escape_quotes b @ [CHR 0x22] @ json_close))"
proof -
  have p: "list_all plain_char (''[Vine Proxy] '' @ a)" "escape_quotes (''[Vine Proxy] '' @ a) = ''[Vine Proxy] '' @ escape_quotes a"
    using assms by (simp_all add: plain_char_def replace_char_def)
  have "kick_json (a @ b) = json_open @ escape_quotes (''[Vine Proxy] '' @ a) @ escape_quotes b @ [CHR 0x22] @ json_close"
    unfolding kick_json_parts p(2) by (simp add: replace_char_def)
  then have "read_kick (kick_json (a @ b)) = json_chars (escape_quotes (''[Vine Proxy] '' @ a) @ escape_quotes b @ [CHR 0x22] @ json_close)"
    by (simp only: read_kick_def strip_prefix_append option.case)
  also have "\<dots> = map_option (\<lambda>(t, r). ((''[Vine Proxy] '' @ a) @ t, r)) (json_chars (escape_quotes b @ [CHR 0x22] @ json_close))"
    using p(1) by (rule json_chars_plain)
  finally show ?thesis by simp
qed

text \<open>
  C13: a reason without backslashes and control characters reaches the player as it is, quotation
  marks included: the text of the message is exactly the prefix and the reason, and what follows it
  is the fixed colour. But a backslash is not escaped: a reason with a backslash before a quotation
  mark, as in JSON text a backend sent as its own reason, ends the message early. The text stops at the
  backslash, and the rest of the reason spills into the JSON around it.
\<close>
theorem kick_reason_shown:
  assumes "list_all plain_char reason"
  shows "read_kick (kick_json reason) = Some (''[Vine Proxy] '' @ reason, json_close)
    \<and> read_kick (kick_json (reason @ [CHR 0x5C, CHR 0x22] @ back)) =
        Some (''[Vine Proxy] '' @ reason @ [CHR 0x5C], escape_quotes back @ [CHR 0x22] @ json_close)"
  using read_kick_json[OF assms, of "''''"] read_kick_json[OF assms, of "[CHR 0x5C, CHR 0x22] @ back"]
  by (simp add: replace_char_def short_escape_def)

theorem kick_reason_shown_witness:
  "read_kick (kick_json (''say '' @ [CHR 0x22] @ ''hi'' @ [CHR 0x22])) =
     Some (''[Vine Proxy] say '' @ [CHR 0x22] @ ''hi'' @ [CHR 0x22], json_close)"
proof -
  have "list_all plain_char (''say '' @ [CHR 0x22] @ ''hi'' @ [CHR 0x22])" by (simp add: plain_char_def)
  from kick_reason_shown[OF this] show ?thesis by simp
qed

section \<open>Examples\<close>

text \<open>A login over a connection with a fixed key; the session server knows one player.\<close>

definition demo_auth :: "unit auth_ext" where
  "demo_auth = \<lparr>rsa_generate = (\<lambda>_. Inr ()), rsa_public_der = (\<lambda>_. Inr [42]), rsa_decrypt = (\<lambda>_ b. Inr b),
     sha1 = (\<lambda>b. take 20 b), signed_be_radix16 = (\<lambda>_. ''7c9d''), uuid_v3 = (\<lambda>n _. n),
     uuid_parse = (\<lambda>_. Inr (player_id demo_player)),
     http_get = (\<lambda>_. Inr \<lparr>status = 200, body_text = Inr ''ok''\<rparr>),
     json_session = (\<lambda>_. Inr \<lparr>resp_id = ''id'', resp_name = ''Alex'', resp_properties = []\<rparr>)\<rparr>"

definition demo_client_env :: "(nat, unit) client_env" where
  "demo_client_env = \<lparr>cl_env = demo_env demo_login, cl_auth = demo_auth, cl_token = [1, 2, 3, 4],
     cl_decoder_set_encryption = (\<lambda>_. None), cl_encoder_set_encryption = (\<lambda>_. None),
     cl_to_json = (\<lambda>j. Some (json_text j)), cl_base64 = (\<lambda>_. ''''),
     cl_disk = \<lparr>read_file = (\<lambda>_. Inl ''none''), file_mtime = (\<lambda>_. None)\<rparr>\<rparr>"

definition demo_config :: config where
  "demo_config = config_default\<lparr>servers := [(''lobby'', demo_backend)]\<rparr>"

definition demo_handler :: "unit client_handler" where
  "demo_handler = \<lparr>ch_peer_addr = \<lparr>ip = V4 10 0 0 1, port = 40000\<rparr>, ch_config = demo_config,
     ch_keystore = \<lparr>private_key = (), public_key_der = [42]\<rparr>, ch_status_handler = demo_status,
     ch_router = router_new (routing demo_config) (servers demo_config), ch_command_dispatcher = dispatcher_new,
     ch_plugin_manager = plugin_manager_new ''plugins''\<rparr>"

definition demo_icons :: status_icon_manager where
  "demo_icons = \<lparr>default_icon_path = None, server_icons = [], icon_forced_hosts = [], icon_default_server = ''lobby'',
     cache = [], cache_poisoned = False\<rparr>"

definition demo_client :: "nat bridge_state" where
  "demo_client = demo_state [Packet 0 [2, 112, 108, 97, 121], Packet 0 (as_bytes ''Alex''), Packet 1 (replicate 16 9 @ [1, 2, 3, 4])] []"

lemma demo_client_run:
  "fst (client_handle demo_client_env demo_handler demo_icons [BackendReady] demo_client) = Inr (LoggedIn (Some RunOpen))"
  "get_session ''Alex'' (st_sessions (snd (client_handle demo_client_env demo_handler demo_icons [BackendReady] demo_client))) \<noteq> None"
  by code_simp+

end
