(* ===== verification/Telemetry.thy ===== *)
theory Telemetry
  imports Forwarding Protocol
begin

text \<open>
  \<^verbatim>\<open>src/src/telemetry.rs\<close>: the identity key on disk, signing and verifying requests, the heartbeat
  payload, and the task that sends heartbeats and a shutdown notice. Ed25519, hex, JSON, HTTP and
  the system information are third-party code, the fields of \<^verbatim>\<open>tele_ext\<close>. The disk is explicit
  state: the files, the directories, and for every path the errors its operations report; random
  seeds come from a numbered supply.
\<close>

section \<open>Model\<close>

subsection \<open>Constants and data\<close>

definition IDENTITY_KEY_PATH :: string where "IDENTITY_KEY_PATH = ''.pumpkin/identity.key''"

definition FALLBACK_IDENTITY_KEY_PATH :: string where "FALLBACK_IDENTITY_KEY_PATH = ''telemetry_key.bin''"

definition VINE_IDENTITY_KEY_PATH :: string where "VINE_IDENTITY_KEY_PATH = ''.vine/identity.key''"

definition HEADER_PUBLIC_KEY :: string where "HEADER_PUBLIC_KEY = ''X-Telemetry-Public-Key''"

definition HEADER_SIGNATURE :: string where "HEADER_SIGNATURE = ''X-Telemetry-Signature''"

definition HEADER_TIMESTAMP :: string where "HEADER_TIMESTAMP = ''X-Telemetry-Timestamp''"

definition MAX_CLOCK_DRIFT_SECS :: u64 where "MAX_CLOCK_DRIFT_SECS = 300"

record plugin_info =
  info_name :: string
  info_version :: string

record heartbeat_payload =
  hb_server_type :: string
  hb_server_version :: string
  hb_minecraft_version :: string
  hb_protocol_version :: i32
  hb_online_players :: u64
  hb_max_players :: u32
  hb_os :: string
  hb_arch :: string
  hb_cpu_cores :: u64
  hb_cpu_model :: string
  hb_ram_allocated_mb :: u64
  hb_total_ram_mb :: u64
  hb_plugins :: "plugin_info list"
  hb_is_public :: bool
  hb_public_name :: "string option"

record heartbeat_response =
  hr_status :: string
  hr_message :: string
  hr_server_public_key :: string
  hr_next_ping_seconds :: u32

record http_request =
  req_url :: string
  req_headers :: "(string \<times> string) list"
  req_body :: bytes

text \<open>What \<^verbatim>\<open>sysinfo\<close>, \<^verbatim>\<open>std::env::consts\<close> and \<^verbatim>\<open>available_parallelism\<close> report.\<close>

record sys_info =
  long_os_version :: "string option"
  os_name :: "string option"
  os_version :: "string option"
  const_os :: string
  const_arch :: string
  parallelism :: "u64 option"
  supported_system :: bool
  used_memory :: u64
  total_memory :: u64
  cpu_brands :: "string list"

record 'resp tele_ext = fwd_ext +
  verifying_key :: "bytes \<Rightarrow> string + bytes"
  signature_from_slice :: "bytes \<Rightarrow> string + bytes"
  verify_signature :: "bytes \<Rightarrow> bytes \<Rightarrow> bytes \<Rightarrow> string option"
  payload_json :: "heartbeat_payload \<Rightarrow> bytes"
  shutdown_json :: "string \<Rightarrow> bytes"
  http_send :: "http_request \<Rightarrow> string + 'resp"
  error_for_status :: "'resp \<Rightarrow> string + 'resp"
  response_json :: "'resp \<Rightarrow> string + heartbeat_response"
  version_from_protocol :: "u32 \<Rightarrow> java_version"
  version_text :: "java_version \<Rightarrow> string"
  seed_supply :: "nat \<Rightarrow> bytes"
  http_client_built :: bool

subsection \<open>Signed requests\<close>

definition compute_signed_data :: "string \<Rightarrow> bytes \<Rightarrow> bytes" where
  "compute_signed_data timestamp_str body_bytes = as_bytes timestamp_str @ as_bytes ''.'' @ body_bytes"

definition sign_telemetry_payload :: "'resp tele_ext \<Rightarrow> bytes \<Rightarrow> string \<Rightarrow> bytes \<Rightarrow> string \<times> string" where
  "sign_telemetry_payload ext signing_key timestamp_str body_bytes =
     (let signed_data = compute_signed_data timestamp_str body_bytes;
          signature = ed25519_sign ext signing_key signed_data
      in (hex_encode ext (ed25519_public ext signing_key),
          hex_encode ext signature))"

datatype telemetry_verification_error =
    InvalidTimestamp
  | ClockDriftExceeded u64
  | InvalidPublicKeyHex
  | InvalidPublicKey string
  | InvalidSignatureHex
  | InvalidSignature string
  | VerificationFailed string

definition abs_diff :: "u64 \<Rightarrow> u64 \<Rightarrow> u64" where
  "abs_diff a b = (if a < b then b - a else a - b)"

definition verify_telemetry_request ::
  "'resp tele_ext \<Rightarrow> string \<Rightarrow> string \<Rightarrow> string \<Rightarrow> bytes \<Rightarrow> u64 \<Rightarrow> telemetry_verification_error + unit" where
  "verify_telemetry_request ext pubkey_hex sig_hex timestamp_str body_bytes current_time_secs =
     (case parse_uint 64 timestamp_str of
        None \<Rightarrow> Inl InvalidTimestamp
      | Some ts \<Rightarrow>
          let drift = abs_diff current_time_secs (of_nat ts)
          in if MAX_CLOCK_DRIFT_SECS < drift then Inl (ClockDriftExceeded drift)
             else (case hex_decode ext pubkey_hex of
                None \<Rightarrow> Inl InvalidPublicKeyHex
              | Some pubkey_bytes \<Rightarrow>
                  (case verifying_key ext pubkey_bytes of
                     Inl e \<Rightarrow> Inl (InvalidPublicKey e)
                   | Inr vk \<Rightarrow>
                       (case hex_decode ext sig_hex of
                          None \<Rightarrow> Inl InvalidSignatureHex
                        | Some sig_bytes \<Rightarrow>
                            (case signature_from_slice ext sig_bytes of
                               Inl e \<Rightarrow> Inl (InvalidSignature e)
                             | Inr sig \<Rightarrow>
                                 (case verify_signature ext vk (compute_signed_data timestamp_str body_bytes) sig of
                                    Some e \<Rightarrow> Inl (VerificationFailed e)
                                  | None \<Rightarrow> Inr ()))))))"

subsection \<open>The identity key\<close>

record key_disk =
  kd_files :: "(string, bytes) hmap"
  kd_dirs :: "string list"
  kd_modes :: "(string, nat) hmap"
  kd_read_error :: "string \<Rightarrow> string option"
  kd_mkdir_error :: "string \<Rightarrow> string option"
  kd_write_error :: "string \<Rightarrow> string option"
  kd_seeds :: nat

definition path_exists :: "string \<Rightarrow> key_disk \<Rightarrow> bool" where
  "path_exists p d \<longleftrightarrow> map_of (kd_files d) p \<noteq> None \<or> p \<in> set (kd_dirs d)"

definition fs_read :: "string \<Rightarrow> key_disk \<Rightarrow> string + bytes" where
  "fs_read p d =
     (case kd_read_error d p of
        Some e \<Rightarrow> Inl e
      | None \<Rightarrow>
          (case map_of (kd_files d) p of
             Some b \<Rightarrow> Inr b
           | None \<Rightarrow> Inl (if p \<in> set (kd_dirs d) then ''Is a directory'' else ''No such file or directory'')))"

text \<open>The directories \<^verbatim>\<open>create_dir_all\<close> makes sure of: the path and what contains it.\<close>

definition parent_path :: "string \<Rightarrow> string" where
  "parent_path p = (case rsplit_once CHR ''/'' p of Some (a, _) \<Rightarrow> a | None \<Rightarrow> '''')"

definition dir_chain :: "string \<Rightarrow> string list" where
  "dir_chain p = (let ws = split_on CHR ''/'' p in map (\<lambda>n. join ''/'' (take n ws)) [1..<Suc (length ws)])"

definition create_dir_all :: "string \<Rightarrow> key_disk \<Rightarrow> string + key_disk" where
  "create_dir_all p d =
     (case kd_mkdir_error d p of
        Some e \<Rightarrow> Inl e
      | None \<Rightarrow> Inr (d\<lparr>kd_dirs := kd_dirs d @ dir_chain p\<rparr>))"

definition fs_store :: "string \<Rightarrow> bytes \<Rightarrow> key_disk \<Rightarrow> string + key_disk" where
  "fs_store p b d =
     (case kd_write_error d p of
        Some e \<Rightarrow> Inl e
      | None \<Rightarrow> Inr (d\<lparr>kd_files := AList.update p b (kd_files d)\<rparr>))"

definition generate_key :: "'resp tele_ext \<Rightarrow> string \<Rightarrow> key_disk \<Rightarrow> (string + bytes) \<times> key_disk" where
  "generate_key ext key_path d =
     (let seed = seed_supply ext (kd_seeds d);
          d = d\<lparr>kd_seeds := Suc (kd_seeds d)\<rparr>
      in case (if parent_path key_path \<noteq> '''' then create_dir_all (parent_path key_path) d else Inr d) of
           Inl e \<Rightarrow> (Inl e, d)
         | Inr d \<Rightarrow>
             (case fs_store key_path seed d of
                Inl e \<Rightarrow> (Inl e, d)
              | Inr d \<Rightarrow> (Inr seed, d\<lparr>kd_modes := AList.update key_path 384 (kd_modes d)\<rparr>)))"

definition load_or_generate_key :: "'resp tele_ext \<Rightarrow> string \<Rightarrow> key_disk \<Rightarrow> (string + bytes) \<times> key_disk" where
  "load_or_generate_key ext key_path d =
     (if path_exists key_path d then
        (case fs_read key_path d of
           Inl e \<Rightarrow> (Inl e, d)
         | Inr b \<Rightarrow> if length b = 32 then (Inr b, d) else generate_key ext key_path d)
      else generate_key ext key_path d)"

text \<open>The places looked at, in order; then a new key in the data directory or at the first place.\<close>

definition key_candidates :: "string list" where
  "key_candidates =
     [IDENTITY_KEY_PATH, VINE_IDENTITY_KEY_PATH, FALLBACK_IDENTITY_KEY_PATH,
      ''data/'' @ IDENTITY_KEY_PATH, ''data/'' @ VINE_IDENTITY_KEY_PATH, ''data/'' @ FALLBACK_IDENTITY_KEY_PATH]"

fun first_existing :: "'resp tele_ext \<Rightarrow> string list \<Rightarrow> key_disk \<Rightarrow> bytes option \<times> key_disk" where
  "first_existing ext [] d = (None, d)"
| "first_existing ext (p # ps) d =
     (if path_exists p d then
        (case load_or_generate_key ext p d of
           (Inr key, d) \<Rightarrow> (Some key, d)
         | (Inl _, d) \<Rightarrow> first_existing ext ps d)
      else first_existing ext ps d)"

definition get_or_create_identity_key :: "'resp tele_ext \<Rightarrow> string \<Rightarrow> key_disk \<Rightarrow> bytes \<times> key_disk" where
  "get_or_create_identity_key ext path d =
     (case load_or_generate_key ext path d of
        (Inr key, d) \<Rightarrow> (key, d)
      | (Inl _, d) \<Rightarrow> (seed_supply ext (kd_seeds d), d\<lparr>kd_seeds := Suc (kd_seeds d)\<rparr>))"

definition resolve_identity_key :: "'resp tele_ext \<Rightarrow> key_disk \<Rightarrow> bytes \<times> key_disk" where
  "resolve_identity_key ext d =
     (case first_existing ext key_candidates d of
        (Some key, d) \<Rightarrow> (key, d)
      | (None, d) \<Rightarrow>
          (case (if ''data'' \<in> set (kd_dirs d) then load_or_generate_key ext (''data/'' @ IDENTITY_KEY_PATH) d
                 else (Inl '''', d)) of
             (Inr key, d) \<Rightarrow> (key, d)
           | (Inl _, d) \<Rightarrow> get_or_create_identity_key ext IDENTITY_KEY_PATH d))"

subsection \<open>The client\<close>

record telemetry_client =
  tc_signing_key :: bytes
  tc_endpoint :: string
  tc_api_base_url :: string

definition trim_slashes :: "string \<Rightarrow> string" where
  "trim_slashes s = rev (dropWhile (\<lambda>c. c = CHR ''/'') (rev s))"

definition telemetry_client_new :: "bytes \<Rightarrow> string \<Rightarrow> telemetry_client" where
  "telemetry_client_new key url =
     \<lparr>tc_signing_key = key, tc_endpoint = url,
      tc_api_base_url =
        (case strip_suffix ''/api/v1/rest/telemetry/heartbeat'' url of
           Some b \<Rightarrow> b
         | None \<Rightarrow> (case strip_suffix ''/heartbeat'' url of Some b \<Rightarrow> b | None \<Rightarrow> trim_slashes url))\<rparr>"

definition public_key_hex :: "'resp tele_ext \<Rightarrow> telemetry_client \<Rightarrow> string" where
  "public_key_hex ext c = hex_encode ext (ed25519_public ext (tc_signing_key c))"

definition signed_request :: "'resp tele_ext \<Rightarrow> telemetry_client \<Rightarrow> string \<Rightarrow> bytes \<Rightarrow> u64 \<Rightarrow> http_request" where
  "signed_request ext c url body_bytes now =
     (let timestamp_str = show_nat (unat now)
      in case sign_telemetry_payload ext (tc_signing_key c) timestamp_str body_bytes of
           (pubkey_hex, sig_hex) \<Rightarrow>
             \<lparr>req_url = url,
              req_headers = [(''Content-Type'', ''application/json''), (HEADER_PUBLIC_KEY, pubkey_hex),
                (HEADER_SIGNATURE, sig_hex), (HEADER_TIMESTAMP, timestamp_str)],
              req_body = body_bytes\<rparr>)"

definition send_heartbeat ::
  "'resp tele_ext \<Rightarrow> telemetry_client \<Rightarrow> heartbeat_payload \<Rightarrow> u64 \<Rightarrow> http_request \<times> (string + heartbeat_response)" where
  "send_heartbeat ext c payload now =
     (let req = signed_request ext c (tc_endpoint c) (payload_json ext payload) now
      in (req, bind_res (http_send ext req) (\<lambda>resp. bind_res (error_for_status ext resp) (response_json ext))))"

definition send_shutdown ::
  "'resp tele_ext \<Rightarrow> telemetry_client \<Rightarrow> string option \<Rightarrow> u64 \<Rightarrow> http_request \<times> (string + unit)" where
  "send_shutdown ext c reason now =
     (let body = shutdown_json ext (case reason of Some r \<Rightarrow> r | None \<Rightarrow> ''server shutdown'');
          req = signed_request ext c (tc_api_base_url c @ ''/api/v1/rest/telemetry/shutdown'') body now
      in (req, bind_res (http_send ext req) (\<lambda>resp. bind_res (error_for_status ext resp) (\<lambda>_. Inr ()))))"

subsection \<open>Heartbeats\<close>

definition CARGO_PKG_VERSION :: string where "CARGO_PKG_VERSION = ''0.1.0''"

definition os_text :: "sys_info \<Rightarrow> string" where
  "os_text sys =
     (case long_os_version sys of
        Some v \<Rightarrow> v
      | None \<Rightarrow>
          let name = (case os_name sys of Some n \<Rightarrow> n | None \<Rightarrow> const_os sys)
          in case os_version sys of None \<Rightarrow> name | Some ver \<Rightarrow> name @ '' '' @ ver)"

definition hardware :: "sys_info \<Rightarrow> u64 \<times> u64 \<times> string" where
  "hardware sys =
     (if supported_system sys then
        (used_memory sys div (1024 * 1024), total_memory sys div (1024 * 1024),
         case cpu_brands sys of
           [] \<Rightarrow> ''Unknown''
         | b # _ \<Rightarrow> let brand = trim b in if brand = '''' then ''Unknown'' else brand)
      else (0, 0, ''Unknown''))"

definition build_heartbeat_payload :: "'resp tele_ext \<Rightarrow> sys_info \<Rightarrow> config \<Rightarrow> u64 \<Rightarrow> heartbeat_payload" where
  "build_heartbeat_payload ext sys cfg online =
     (case hardware sys of
        (ram_allocated, total_ram, cpu) \<Rightarrow>
          let mc_ver = version_from_protocol ext (motd_protocol_version (motd cfg));
              mc = (if is_unknown mc_ver then ''26.2'' else version_text ext mc_ver);
              listed = public_listing (telemetry cfg)
          in \<lparr>hb_server_type = ''vine'', hb_server_version = CARGO_PKG_VERSION, hb_minecraft_version = mc,
              hb_protocol_version = motd_protocol_version (motd cfg), hb_online_players = online,
              hb_max_players = motd_max_players (motd cfg), hb_os = os_text sys, hb_arch = const_arch sys,
              hb_cpu_cores = (case parallelism sys of Some n \<Rightarrow> n | None \<Rightarrow> 1), hb_cpu_model = cpu,
              hb_ram_allocated_mb = ram_allocated, hb_total_ram_mb = total_ram, hb_plugins = [],
              hb_is_public = listed, hb_public_name = (if listed then tele_server_name (telemetry cfg) else None)\<rparr>)"

text \<open>
  The task: what wakes it, and the requests it has sent when the list of wake-ups is used up. A
  tick carries the wall clock, the player count and the system information at that moment.
\<close>

datatype tele_event = Tick u64 u64 sys_info | ShutdownSignal u64

fun telemetry_loop ::
  "'resp tele_ext \<Rightarrow> telemetry_client \<Rightarrow> config \<Rightarrow> tele_event list \<Rightarrow> http_request list \<times> bool" where
  "telemetry_loop ext c cfg [] = ([], False)"
| "telemetry_loop ext c cfg (Tick now online sys # es) =
     (case send_heartbeat ext c (build_heartbeat_payload ext sys cfg online) now of
        (req, _) \<Rightarrow> (case telemetry_loop ext c cfg es of (reqs, done) \<Rightarrow> (req # reqs, done)))"
| "telemetry_loop ext c cfg (ShutdownSignal now # es) =
     (case send_shutdown ext c (Some ''server shutdown'') now of (req, _) \<Rightarrow> ([req], True))"

record telemetry_task =
  task_client :: telemetry_client
  task_period_secs :: u64

definition start_telemetry :: "'resp tele_ext \<Rightarrow> config \<Rightarrow> key_disk \<Rightarrow> telemetry_task option \<times> key_disk" where
  "start_telemetry ext cfg d =
     (if \<not> telemetry_enabled (telemetry cfg) then (None, d)
      else if \<not> http_client_built ext then (None, d)
      else
        (case resolve_identity_key ext d of
           (signing_key, d) \<Rightarrow>
             (Some \<lparr>task_client = telemetry_client_new signing_key (endpoint (telemetry cfg)),
                    task_period_secs = max (interval_secs (telemetry cfg)) 60\<rparr>, d)))"

section \<open>Signed requests are unambiguous\<close>

lemma parse_uint_no_dot: "parse_uint w s = Some n \<Longrightarrow> CHR ''.'' \<notin> set s"
  by (auto simp: parse_uint_def Let_def list_all_iff is_digit_char_def str_simps split: option.splits if_splits)

lemma append_sep_inject: "d \<notin> set a \<Longrightarrow> d \<notin> set b \<Longrightarrow> a @ d # x = b @ d # y \<longleftrightarrow> a = b \<and> x = y"
proof (induction a arbitrary: b)
  case Nil
  then show ?case by (cases b) auto
next
  case (Cons c a)
  then show ?case by (cases b) auto
qed

lemma as_bytes_inj: "as_bytes s = as_bytes t \<longleftrightarrow> s = t"
  by (metis as_bytes_to_string)

lemma as_bytes_member: "(of_char c :: u8) \<in> set (as_bytes s) \<longleftrightarrow> c \<in> set s"
proof
  assume "(of_char c :: u8) \<in> set (as_bytes s)"
  then obtain x where "x \<in> set s" "as_bytes [x] = as_bytes [c]" by (auto simp: as_bytes_def)
  then show "c \<in> set s" unfolding as_bytes_inj by simp
qed (simp add: as_bytes_def)

lemma compute_signed_data_inj:
  assumes "parse_uint 64 t = Some n" "parse_uint 64 t' = Some n'"
  shows "compute_signed_data t b = compute_signed_data t' b' \<longleftrightarrow> t = t' \<and> b = b'"
proof -
  let ?d = "of_char CHR ''.'' :: u8"
  have "compute_signed_data s x = as_bytes s @ ?d # x" for s x by (simp add: compute_signed_data_def as_bytes_def)
  moreover have "?d \<notin> set (as_bytes t)" "?d \<notin> set (as_bytes t')"
    unfolding as_bytes_member using assms parse_uint_no_dot by blast+
  ultimately show ?thesis using append_sep_inject as_bytes_inj by metis
qed

lemma abs_diff_uint: "uint (abs_diff a b) = \<bar>uint a - uint b\<bar>"
  by (auto simp: abs_diff_def word_less_def word_le_def uint_minus_simple_alt[symmetric])



section \<open>Requests of the proxy\<close>

text \<open>What Ed25519 and hex promise: decoding undoes encoding, and signatures verify.\<close>

definition ed25519_ok :: "'resp tele_ext \<Rightarrow> bool" where
  "ed25519_ok ext \<longleftrightarrow> (\<forall>b. hex_decode ext (hex_encode ext b) = Some b)
     \<and> (\<forall>k. \<exists>vk. verifying_key ext (ed25519_public ext k) = Inr vk
         \<and> (\<forall>m. \<exists>s. signature_from_slice ext (ed25519_sign ext k m) = Inr s \<and> verify_signature ext vk m s = None))"

text \<open>How a server reads a request: the three headers and the body.\<close>

definition verify_headers :: "'resp tele_ext \<Rightarrow> http_request \<Rightarrow> u64 \<Rightarrow> (telemetry_verification_error + unit) option" where
  "verify_headers ext req now =
     (case (map_of (req_headers req) HEADER_PUBLIC_KEY, map_of (req_headers req) HEADER_SIGNATURE,
            map_of (req_headers req) HEADER_TIMESTAMP) of
        (Some pk, Some sg, Some t) \<Rightarrow> Some (verify_telemetry_request ext pk sg t (req_body req) now)
      | _ \<Rightarrow> None)"

definition fresh :: "u64 \<Rightarrow> u64 \<Rightarrow> telemetry_verification_error + unit" where
  "fresh sent now = (if \<bar>uint now - uint sent\<bar> \<le> 300 then Inr () else Inl (ClockDriftExceeded (abs_diff now sent)))"

lemma header_names [simp]: "HEADER_PUBLIC_KEY = ''X-Telemetry-Public-Key''" "HEADER_SIGNATURE = ''X-Telemetry-Signature''"
  "HEADER_TIMESTAMP = ''X-Telemetry-Timestamp''"
  by (simp_all add: HEADER_PUBLIC_KEY_def HEADER_SIGNATURE_def HEADER_TIMESTAMP_def)

lemma signed_request_verified:
  assumes "ed25519_ok ext"
  shows "verify_headers ext (signed_request ext c url body sent) now = Some (fresh sent now)"
proof -
  let ?t = "show_nat (unat sent)"
  have p: "parse_uint 64 ?t = Some (unat sent)" using parse_uint_show_nat[of "unat sent" 64] unsigned_less[of sent] by simp
  from assms obtain vk where hex: "\<And>b. hex_decode ext (hex_encode ext b) = Some b"
    and vk: "verifying_key ext (ed25519_public ext (tc_signing_key c)) = Inr vk"
    and sg: "\<And>m. \<exists>s. signature_from_slice ext (ed25519_sign ext (tc_signing_key c) m) = Inr s \<and> verify_signature ext vk m s = None"
    unfolding ed25519_ok_def by blast
  obtain s where s: "signature_from_slice ext (ed25519_sign ext (tc_signing_key c) (compute_signed_data ?t body)) = Inr s"
      "verify_signature ext vk (compute_signed_data ?t body) s = None"
    using sg by blast
  have d: "MAX_CLOCK_DRIFT_SECS < abs_diff now sent \<longleftrightarrow> \<not> \<bar>uint now - uint sent\<bar> \<le> 300"
    by (simp add: word_less_def abs_diff_uint MAX_CLOCK_DRIFT_SECS_def not_le)
  show ?thesis
    by (simp add: verify_headers_def signed_request_def sign_telemetry_payload_def Let_def verify_telemetry_request_def
        p hex vk s d fresh_def)
qed

lemma telemetry_loop_ticks:
  "telemetry_loop ext c cfg (map (\<lambda>(now, online, sys). Tick now online sys) ts @ es) =
     (map (\<lambda>(now, online, sys). fst (send_heartbeat ext c (build_heartbeat_payload ext sys cfg online) now)) ts
        @ fst (telemetry_loop ext c cfg es), snd (telemetry_loop ext c cfg es))"
  by (induction ts) (auto split: prod.splits)

text \<open>A request for this address which a server accepts exactly when it arrives in time.\<close>

definition well_sent :: "'resp tele_ext \<Rightarrow> string \<Rightarrow> u64 \<Rightarrow> http_request \<Rightarrow> bool" where
  "well_sent ext url sent req \<longleftrightarrow> req_url req = url \<and> (\<forall>arrival. verify_headers ext req arrival = Some (fresh sent arrival))"

definition heartbeat_for :: "'resp tele_ext \<Rightarrow> config \<Rightarrow> u64 \<Rightarrow> http_request \<Rightarrow> bool" where
  "heartbeat_for ext cfg online req \<longleftrightarrow> (\<exists>p. req_body req = payload_json ext p \<and> hb_online_players p = online
     \<and> (\<not> public_listing (telemetry cfg) \<longrightarrow> hb_public_name p = None))"

lemma well_sent_signed: "ed25519_ok ext \<Longrightarrow> well_sent ext url sent (signed_request ext c url body sent)"
  unfolding well_sent_def by (simp add: signed_request_verified) (simp add: signed_request_def Let_def split: prod.splits)

lemma well_sent_heartbeat:
  assumes "ed25519_ok ext"
  shows "well_sent ext (tc_endpoint c) now (fst (send_heartbeat ext c (build_heartbeat_payload ext sys cfg online) now))"
    and "heartbeat_for ext cfg online (fst (send_heartbeat ext c (build_heartbeat_payload ext sys cfg online) now))"
proof -
  show "well_sent ext (tc_endpoint c) now (fst (send_heartbeat ext c (build_heartbeat_payload ext sys cfg online) now))"
    by (simp add: send_heartbeat_def Let_def well_sent_signed[OF assms])
  show "heartbeat_for ext cfg online (fst (send_heartbeat ext c (build_heartbeat_payload ext sys cfg online) now))"
    unfolding heartbeat_for_def
    by (rule exI[of _ "build_heartbeat_payload ext sys cfg online"])
      (simp add: send_heartbeat_def signed_request_def build_heartbeat_payload_def Let_def split: prod.splits)
qed

text \<open>
  C11: a telemetry task sends one heartbeat per tick and, when the proxy shuts down, one last notice to
  the same service, and then ends, whatever the service answers; ticks are at least a minute
  apart. Every one of these requests passes the service's own check if it arrives within five
  minutes, and is rejected as out of time otherwise. A heartbeat names the proxy only if the
  operator has opted in to being listed. With telemetry disabled there is no task and no key file is
  touched.
\<close>
theorem telemetry_session:
  assumes "start_telemetry ext cfg d = (r, d')" and "ed25519_ok ext"
    and "endpoint (telemetry cfg) = base @ ''/api/v1/rest/telemetry/heartbeat''"
  shows "case r of
      None \<Rightarrow> d' = d
    | Some task \<Rightarrow> telemetry_enabled (telemetry cfg) \<and> 60 \<le> task_period_secs task \<and>
        (\<exists>beats notice.
          telemetry_loop ext (task_client task) cfg (map (\<lambda>(now, online, sys). Tick now online sys) ts @ ShutdownSignal off # es)
            = (beats @ [notice], True)
          \<and> list_all2 (\<lambda>(now, online, sys) req. well_sent ext (base @ ''/api/v1/rest/telemetry/heartbeat'') now req
              \<and> heartbeat_for ext cfg online req) ts beats
          \<and> well_sent ext (base @ ''/api/v1/rest/telemetry/shutdown'') off notice)"
proof (cases r)
  case None
  with assms(1) show ?thesis by (auto simp: start_telemetry_def split: if_splits prod.splits)
next
  case (Some task)
  with assms(1) obtain key where t: "task_client task = telemetry_client_new key (endpoint (telemetry cfg))"
      "task_period_secs task = max (interval_secs (telemetry cfg)) 60" "telemetry_enabled (telemetry cfg)"
    by (auto simp: start_telemetry_def split: if_splits prod.splits)
  let ?c = "task_client task"
  have c: "tc_endpoint ?c = base @ ''/api/v1/rest/telemetry/heartbeat''" "tc_api_base_url ?c = base"
    using strip_suffix_Some_iff[of "''/api/v1/rest/telemetry/heartbeat''" "endpoint (telemetry cfg)" base] assms(3)
    by (simp_all add: t(1) telemetry_client_new_def)
  let ?beats = "map (\<lambda>(now, online, sys). fst (send_heartbeat ext ?c (build_heartbeat_payload ext sys cfg online) now)) ts"
  let ?notice = "fst (send_shutdown ext ?c (Some ''server shutdown'') off)"
  have "telemetry_loop ext ?c cfg (map (\<lambda>(now, online, sys). Tick now online sys) ts @ ShutdownSignal off # es) = (?beats @ [?notice], True)"
    by (simp add: telemetry_loop_ticks split: prod.splits)
  moreover have "list_all2 (\<lambda>(now, online, sys) req. well_sent ext (base @ ''/api/v1/rest/telemetry/heartbeat'') now req
      \<and> heartbeat_for ext cfg online req) ts ?beats"
    using well_sent_heartbeat[OF assms(2), where c = ?c, unfolded c] by (auto simp: list_all2_conv_all_nth split: prod.splits)
  moreover have "well_sent ext (base @ ''/api/v1/rest/telemetry/shutdown'') off ?notice"
    by (simp add: send_shutdown_def Let_def c well_sent_signed[OF assms(2)])
  moreover have "60 \<le> task_period_secs task" by (simp add: t(2))
  ultimately show ?thesis using Some t(3) by auto
qed


section \<open>The identity survives restarts\<close>

text \<open>A disk on which nothing fails and no directory stands where a key file belongs.\<close>

definition healthy :: "key_disk \<Rightarrow> bool" where
  "healthy d \<longleftrightarrow> (\<forall>p. kd_read_error d p = None \<and> kd_mkdir_error d p = None \<and> kd_write_error d p = None)
     \<and> set key_candidates \<inter> set (kd_dirs d) = {}"

text \<open>Where the key is looked up or created.\<close>

definition key_place :: "key_disk \<Rightarrow> string" where
  "key_place d =
     (case find (\<lambda>p. path_exists p d) key_candidates of
        Some p \<Rightarrow> p
      | None \<Rightarrow> if ''data'' \<in> set (kd_dirs d) then ''data/'' @ IDENTITY_KEY_PATH else IDENTITY_KEY_PATH)"

lemma find_SomeD: "find P xs = Some x \<Longrightarrow> x \<in> set xs"
  by (induction xs) (auto split: if_splits)

lemma key_place_candidate: "key_place d \<in> set key_candidates"
proof (cases "find (\<lambda>p. path_exists p d) key_candidates")
  case None
  then show ?thesis by (simp add: key_place_def) (simp add: key_candidates_def)
qed (auto simp: key_place_def dest: find_SomeD)

lemma key_dirs: "p \<in> set key_candidates \<Longrightarrow> set (dir_chain (parent_path p)) \<inter> set key_candidates = {}"
proof -
  have "list_all (\<lambda>p. list_all (\<lambda>q. q \<notin> set key_candidates) (dir_chain (parent_path p))) key_candidates"
    by code_simp
  then show "p \<in> set key_candidates \<Longrightarrow> set (dir_chain (parent_path p)) \<inter> set key_candidates = {}"
    by (auto simp: list_all_iff)
qed

lemma load_or_generate_healthy:
  assumes "healthy d" "p \<in> set key_candidates" "\<And>n. length (seed_supply ext n) = 32"
  shows "\<exists>k d'. load_or_generate_key ext p d = (Inr k, d') \<and> length k = 32 \<and> healthy d' \<and> map_of (kd_files d') p = Some k
    \<and> (\<forall>q \<in> set key_candidates. path_exists q d' \<longleftrightarrow> path_exists q d \<or> q = p)"
proof -
  have gen: "\<exists>k d'. generate_key ext p d = (Inr k, d') \<and> length k = 32 \<and> healthy d' \<and> map_of (kd_files d') p = Some k
    \<and> (\<forall>q \<in> set key_candidates. path_exists q d' \<longleftrightarrow> path_exists q d \<or> q = p)"
    using assms(1,3) key_dirs[OF assms(2)]
    by (auto simp: generate_key_def Let_def healthy_def create_dir_all_def fs_store_def path_exists_def update_conv' split: if_splits)
  show ?thesis
  proof (cases "map_of (kd_files d) p")
    case None
    with gen assms(1,2) show ?thesis by (auto simp: load_or_generate_key_def path_exists_def healthy_def)
  next
    case (Some b)
    with gen assms(1,2) show ?thesis
      by (auto simp: load_or_generate_key_def path_exists_def healthy_def fs_read_def)
  qed
qed

lemma load_existing:
  assumes "healthy d" "map_of (kd_files d) p = Some k" "length k = 32"
  shows "load_or_generate_key ext p d = (Inr k, d)"
  using assms by (auto simp: load_or_generate_key_def path_exists_def fs_read_def healthy_def)

lemma first_existing_find:
  assumes "\<And>p. p \<in> set ps \<Longrightarrow> \<exists>k d'. load_or_generate_key ext p d = (Inr k, d')"
  shows "first_existing ext ps d = (case find (\<lambda>p. path_exists p d) ps of
      None \<Rightarrow> (None, d)
    | Some p \<Rightarrow> (case load_or_generate_key ext p d of (r, d') \<Rightarrow> (case r of Inr k \<Rightarrow> (Some k, d') | Inl _ \<Rightarrow> (None, d'))))"
  using assms
proof (induction ps)
  case (Cons p ps)
  from Cons.prems obtain k d' where "load_or_generate_key ext p d = (Inr k, d')" by fastforce
  with Cons show ?case by auto
qed simp

lemma resolve_at_place:
  assumes "healthy d" "\<And>n. length (seed_supply ext n) = 32"
  shows "(Inr (fst (resolve_identity_key ext d)), snd (resolve_identity_key ext d)) = load_or_generate_key ext (key_place d) d"
proof -
  have l: "\<exists>k d'. load_or_generate_key ext p d = (Inr k, d')" if "p \<in> set key_candidates" for p
    using load_or_generate_healthy[OF assms(1) that assms(2)] by blast
  obtain k d' where k: "load_or_generate_key ext (key_place d) d = (Inr k, d')"
    using l[OF key_place_candidate] by blast
  have f: "first_existing ext key_candidates d = (case find (\<lambda>p. path_exists p d) key_candidates of
      None \<Rightarrow> (None, d)
    | Some p \<Rightarrow> (case load_or_generate_key ext p d of (r, d') \<Rightarrow> (case r of Inr k \<Rightarrow> (Some k, d') | Inl _ \<Rightarrow> (None, d'))))"
    using l by (rule first_existing_find)
  show ?thesis
  proof (cases "find (\<lambda>p. path_exists p d) key_candidates")
    case None
    with k show ?thesis
      by (cases "''data'' \<in> set (kd_dirs d)")
        (simp_all add: resolve_identity_key_def f get_or_create_identity_key_def key_place_def)
  next
    case (Some p)
    with k show ?thesis by (simp add: resolve_identity_key_def f key_place_def)
  qed
qed

lemma find_extended:
  assumes "\<forall>q \<in> set ps. Q q \<longleftrightarrow> P q \<or> q = p" "find P ps = Some p"
  shows "find Q ps = Some p"
  using assms by (induction ps) (auto split: if_splits)

lemma find_only: "p \<in> set ps \<Longrightarrow> \<forall>q \<in> set ps. Q q \<longleftrightarrow> q = p \<Longrightarrow> find Q ps = Some p"
  by (induction ps) auto

lemma key_place_stays:
  assumes "\<forall>q \<in> set key_candidates. path_exists q d' \<longleftrightarrow> path_exists q d \<or> q = key_place d"
  shows "key_place d' = key_place d"
proof (cases "find (\<lambda>p. path_exists p d) key_candidates")
  case (Some p)
  then have p: "key_place d = p" by (simp add: key_place_def)
  have "find (\<lambda>p. path_exists p d') key_candidates = Some p"
    using assms Some unfolding p by (rule find_extended)
  then show ?thesis unfolding p by (simp add: key_place_def)
next
  case None
  then have "\<forall>q \<in> set key_candidates. path_exists q d' \<longleftrightarrow> q = key_place d"
    using assms by (auto simp: find_None_iff)
  then have "find (\<lambda>p. path_exists p d') key_candidates = Some (key_place d)"
    using key_place_candidate by (rule find_only[rotated])
  then show ?thesis by (simp add: key_place_def[of d'])
qed

text \<open>
  C12: the proxy keeps its identity. On a disk that works, resolving the identity key always ends with
  a 32-byte key on disk: an existing one where there is one, even if several places hold keys, and
  a new one otherwise or in place of a damaged file; and every later start, from the disk the
  first one left, finds the same key and changes nothing.
\<close>
theorem identity_key_stable:
  assumes "healthy d" and "\<And>n. length (seed_supply ext n) = 32" and "resolve_identity_key ext d = (key, d')"
  shows "length key = 32 \<and> map_of (kd_files d') (key_place d) = Some key \<and> resolve_identity_key ext d' = (key, d')"
proof -
  let ?p = "key_place d"
  have l: "load_or_generate_key ext ?p d = (Inr key, d')"
    using resolve_at_place[OF assms(1,2)] assms(3) by simp
  with load_or_generate_healthy[OF assms(1) key_place_candidate assms(2), of d] have
    k: "length key = 32" "healthy d'" "map_of (kd_files d') ?p = Some key"
      "\<forall>q \<in> set key_candidates. path_exists q d' \<longleftrightarrow> path_exists q d \<or> q = ?p"
    by auto
  have p: "key_place d' = ?p" using k(4) key_place_stays by blast
  have "load_or_generate_key ext (key_place d') d' = (Inr key, d')"
    unfolding p using k by (intro load_existing)
  with resolve_at_place[OF k(2) assms(2)] have "resolve_identity_key ext d' = (key, d')"
    by (metis Inr_inject prod.collapse prod.inject)
  with k show ?thesis by blast
qed


section \<open>Examples\<close>

definition demo_tele :: "unit tele_ext" where
  "demo_tele = fwd_ext.extend (demo_ext\<lparr>hex_encode := bytes_to_string, hex_decode := (\<lambda>s. Some (as_bytes s)),
       ed25519_sign := (\<lambda>k m. k @ m)\<rparr>)
     \<lparr>verifying_key = Inr, signature_from_slice = Inr,
      verify_signature = (\<lambda>k m s. if s = k @ m then None else Some ''mismatch''),
      payload_json = (\<lambda>p. as_bytes (hb_os p)), shutdown_json = as_bytes, http_send = (\<lambda>_. Inr ()), error_for_status = Inr,
      response_json = (\<lambda>_. Inl ''empty''), version_from_protocol = (\<lambda>p. \<lparr>is_unknown = True, protocol_number = p\<rparr>),
      version_text = (\<lambda>_. ''26.2''), seed_supply = (\<lambda>n. replicate 32 (of_nat n)), http_client_built = True\<rparr>"

definition demo_key_disk :: key_disk where
  "demo_key_disk = \<lparr>kd_files = [(VINE_IDENTITY_KEY_PATH, [1, 2, 3])], kd_dirs = [''data'', ''.vine''], kd_modes = [],
     kd_read_error = (\<lambda>_. None), kd_mkdir_error = (\<lambda>_. None), kd_write_error = (\<lambda>_. None), kd_seeds = 7\<rparr>"

lemma bytes_as_bytes [simp]: "as_bytes (bytes_to_string b) = b"
proof -
  have "(of_char (char_of (unat x)) :: u8) = x" for x :: u8
    using unsigned_less[of x, where 'a = nat] by (simp add: word_unat_eq_iff)
  then show ?thesis by (simp add: as_bytes_def bytes_to_string_def comp_def)
qed

lemma ed25519_ok_demo: "ed25519_ok demo_tele"
  by (simp add: ed25519_ok_def demo_tele_def fwd_ext.defs demo_ext_def)

lemma seeds_demo: "length (seed_supply demo_tele n) = 32"
  by (simp add: demo_tele_def fwd_ext.defs)

lemma healthy_demo: "healthy demo_key_disk"
proof -
  have "list_all (\<lambda>p. p \<notin> set (kd_dirs demo_key_disk)) key_candidates" by code_simp
  then show ?thesis by (auto simp: healthy_def demo_key_disk_def list_all_iff)
qed

lemma demo_place: "key_place demo_key_disk = VINE_IDENTITY_KEY_PATH"
  by code_simp

theorem identity_key_stable_witness:
  "\<exists>key d'. resolve_identity_key demo_tele demo_key_disk = (key, d') \<and> length key = 32
     \<and> map_of (kd_files d') ''.vine/identity.key'' = Some key \<and> resolve_identity_key demo_tele d' = (key, d')"
proof -
  obtain key d' where r: "resolve_identity_key demo_tele demo_key_disk = (key, d')" by fastforce
  from identity_key_stable[OF healthy_demo seeds_demo r, unfolded demo_place VINE_IDENTITY_KEY_PATH_def] r show ?thesis by blast
qed


theorem telemetry_session_witness:
  "\<exists>task d'. start_telemetry demo_tele config_default demo_key_disk = (Some task, d')
     \<and> (\<exists>beats notice. telemetry_loop demo_tele (task_client task) config_default (map (\<lambda>(now, online, sys). Tick now online sys) [] @ [ShutdownSignal 1700000000])
            = (beats @ [notice], True)
          \<and> well_sent demo_tele ''https://market.pumpkinmc.org/api/v1/rest/telemetry/shutdown'' 1700000000 notice)"
proof -
  have "fst (start_telemetry demo_tele config_default demo_key_disk) \<noteq> None" by code_simp
  then obtain task d' where s: "start_telemetry demo_tele config_default demo_key_disk = (Some task, d')" by (metis not_None_eq prod.collapse)
  have e: "endpoint (telemetry config_default) = ''https://market.pumpkinmc.org'' @ ''/api/v1/rest/telemetry/heartbeat''" by code_simp
  from telemetry_session[OF s ed25519_ok_demo e, where ts = "[]" and off = 1700000000 and es = "[]"] s show ?thesis
    by fastforce
qed

end
