(* ===== verification/Proxy.thy ===== *)
theory Proxy
  imports Client Rate_Limiter Proxy_Protocol Telemetry Bedrock
begin

text \<open>
  \<^verbatim>\<open>src/src/proxy.rs\<close>: the server that ties the components together. Its construction from the
  configuration, the accept loop, what every accepted connection goes through (PROXY protocol
  header, rate limit, client handler), the console, and start and shutdown of the services. What
  the TCP decoder and encoder make of a stream is a parameter, \<^verbatim>\<open>new_conn\<close>.
\<close>

section \<open>Model\<close>

subsection \<open>Construction\<close>

record 'key proxy_server =
  px_config :: config
  px_keystore :: "'key key_store"
  px_rate_limiter :: connection_rate_limiter
  px_icons :: status_icon_manager
  px_status_handler :: status_handler
  px_router :: router
  px_online :: u64
  px_sessions :: session_manager
  px_dispatcher :: command_dispatcher
  px_plugins :: plugin_manager

datatype proxy_error = KeyStoreFailed string | PluginRuntimeFailed string | ListenFailed string

definition configured_icons :: "config \<Rightarrow> (string, string) hmap" where
  "configured_icons cfg = List.map_filter (\<lambda>(name, s). map_option (\<lambda>p. (name, p)) (icon_path s)) (servers cfg)"

text \<open>\<^verbatim>\<open>runtime\<close>: the error with which the plugin runtime fails to start, if it does.\<close>

definition proxy_server_new ::
  "'key auth_ext \<Rightarrow> (bytes \<Rightarrow> string) \<Rightarrow> disk \<Rightarrow> string option \<Rightarrow> config \<Rightarrow> proxy_error + 'key proxy_server" where
  "proxy_server_new auth base64 d runtime cfg =
     (case key_store_new auth of
        Inl e \<Rightarrow> Inl (KeyStoreFailed e)
      | Inr ks \<Rightarrow>
          let limiter = connection_rate_limiter_new (rate_limit_enabled (security cfg))
                (max_connections_per_sec (security cfg)) (connection_burst (security cfg));
              icons = status_icon_manager_new base64 d (motd_icon_path (motd cfg)) (configured_icons cfg)
                (forced_hosts (routing cfg)) (default_server (routing cfg));
              sh = status_handler_new (motd cfg) (servers cfg) (forced_hosts (routing cfg));
              rt = router_new (routing cfg) (servers cfg)
          in case runtime of
               Some e \<Rightarrow> Inl (PluginRuntimeFailed e)
             | None \<Rightarrow> Inr \<lparr>px_config = cfg, px_keystore = ks, px_rate_limiter = limiter, px_icons = icons,
                 px_status_handler = sh, px_router = rt, px_online = 0, px_sessions = session_manager_new,
                 px_dispatcher = dispatcher_new, px_plugins = init_proxy_context (plugin_manager_new (plugin_dir (plugins cfg)))\<rparr>)"

subsection \<open>A connection\<close>

datatype admission = HeaderRejected io_error | RateLimited socket_addr | Admitted socket_addr "tcp_stream prefixed_read"

definition rate_check ::
  "instant \<times> instant \<times> instant \<Rightarrow> socket_addr \<Rightarrow> bytes \<Rightarrow> tcp_stream \<Rightarrow> connection_rate_limiter
    \<Rightarrow> admission \<times> connection_rate_limiter" where
  "rate_check clock effective_addr leftover s l =
     (case check_connection clock (ip effective_addr) l of
        (True, l) \<Rightarrow> (Admitted effective_addr (prefixed_new s leftover), l)
      | (False, l) \<Rightarrow> (RateLimited effective_addr, l))"

definition admit ::
  "config \<Rightarrow> instant \<times> instant \<times> instant \<Rightarrow> tcp_stream \<Rightarrow> socket_addr \<Rightarrow> connection_rate_limiter
    \<Rightarrow> admission \<times> connection_rate_limiter" where
  "admit cfg clock stream peer_addr l =
     (if proxy_protocol (network cfg) then
        (case parse_proxy_protocol tcp_read stream peer_addr of
           (Inr res, s) \<Rightarrow> rate_check clock (client_addr res) (leftover_bytes res) s l
         | (Inl err, s) \<Rightarrow> (HeaderRejected err, l))
      else rate_check clock peer_addr [] stream l)"

definition new_handler :: "'key proxy_server \<Rightarrow> socket_addr \<Rightarrow> 'key client_handler" where
  "new_handler srv addr =
     \<lparr>ch_peer_addr = addr, ch_config = px_config srv, ch_keystore = px_keystore srv,
      ch_status_handler = px_status_handler srv, ch_router = px_router srv,
      ch_command_dispatcher = px_dispatcher srv, ch_plugin_manager = px_plugins srv\<rparr>"

text \<open>The task of one connection; the result is \<^verbatim>\<open>None\<close> if it was dropped before a handler saw it.\<close>

definition connection_task ::
  "('w, 'key) client_env \<Rightarrow> (tcp_stream prefixed_read \<Rightarrow> conn) \<Rightarrow> 'key proxy_server \<Rightarrow> status_icon_manager
    \<Rightarrow> instant \<times> instant \<times> instant \<Rightarrow> sched list \<Rightarrow> tcp_stream \<Rightarrow> socket_addr \<Rightarrow> connection_rate_limiter
    \<Rightarrow> 'w bridge_state \<Rightarrow> (client_error + handled) option \<times> connection_rate_limiter \<times> 'w bridge_state" where
  "connection_task ce new_conn srv icons clock es stream peer_addr l st =
     (case admit (px_config srv) clock stream peer_addr l of
        (Admitted addr rd, l) \<Rightarrow>
          (case client_handle ce (new_handler srv addr) icons es (st\<lparr>st_client := new_conn rd\<rparr>) of
             (r, st) \<Rightarrow> (Some r, l, st))
      | (_, l) \<Rightarrow> (None, l, st))"

subsection \<open>The accept loop and the console\<close>

datatype listener_event = Incoming tcp_stream socket_addr | AcceptError string | ShutdownReceived

fun accept_loop :: "listener_event list \<Rightarrow> (tcp_stream \<times> socket_addr) list \<times> bool" where
  "accept_loop [] = ([], False)"
| "accept_loop (Incoming stream peer_addr # evs) =
     (case accept_loop evs of (spawned, stopped) \<Rightarrow> ((stream, peer_addr) # spawned, stopped))"
| "accept_loop (AcceptError e # evs) = accept_loop evs"
| "accept_loop (ShutdownReceived # evs) = ([], True)"

text \<open>A line of standard input, with the sessions at that moment; its end; the shutdown signal.\<close>

datatype console_event = StdinLine string session_manager | StdinClosed | ConsoleShutdown

fun console_loop :: "raw_ops \<Rightarrow> command_dispatcher \<Rightarrow> config \<Rightarrow> console_event list \<Rightarrow> effect list" where
  "console_loop raw d cfg [] = []"
| "console_loop raw d cfg (StdinLine line m # evs) =
     (let trimmed = trim line
      in (if trimmed \<noteq> '''' then
            handle_command raw d \<lparr>sender = Console, source_config = cfg, source_sessions = m\<rparr> trimmed
          else []) @ console_loop raw d cfg evs)"
| "console_loop raw d cfg (StdinClosed # evs) = []"
| "console_loop raw d cfg (ConsoleShutdown # evs) = []"

subsection \<open>The server\<close>

text \<open>What a run has started and done when its events are used up.\<close>

record 'w run_report =
  rr_telemetry :: "telemetry_task option"
  rr_bedrock :: bool
  rr_loaded :: nat
  rr_plugins :: plugin_manager
  rr_dispatcher :: command_dispatcher
  rr_world :: 'w
  rr_spawned :: "(tcp_stream \<times> socket_addr) list"
  rr_stopped :: bool
  rr_telemetry_wait :: "u64 option"
  rr_key_disk :: key_disk

definition proxy_run ::
  "'resp tele_ext \<Rightarrow> 'w wasm_host \<Rightarrow> (string \<times> bool) list option option \<Rightarrow> 'key proxy_server \<Rightarrow> string option
    \<Rightarrow> listener_event list \<Rightarrow> key_disk \<Rightarrow> 'w \<Rightarrow> proxy_error + 'w run_report" where
  "proxy_run ext host entries srv listen_error evs d w =
     (case listen_error of
        Some e \<Rightarrow> Inl (ListenFailed e)
      | None \<Rightarrow>
          (case start_telemetry ext (px_config srv) d of
             (tele, d) \<Rightarrow>
               (case (if plugins_enabled (plugins (px_config srv)) then load_plugins host entries (px_dispatcher srv, px_plugins srv) w
                      else (0, (px_dispatcher srv, px_plugins srv), w)) of
                  (n, dm, w) \<Rightarrow>
                    (case accept_loop evs of
                       (spawned, stopped) \<Rightarrow>
                         (case (if stopped \<and> plugins_enabled (plugins (px_config srv)) then unload_plugins host dm w else (dm, w)) of
                            ((cd, m), w) \<Rightarrow>
                              Inr \<lparr>rr_telemetry = tele, rr_bedrock = bedrock_enabled (bedrock (px_config srv)), rr_loaded = n,
                                rr_plugins = m, rr_dispatcher = cd, rr_world = w, rr_spawned = spawned, rr_stopped = stopped,
                                rr_telemetry_wait = (if stopped then map_option (\<lambda>_. max (shutdown_timeout_secs (server (px_config srv))) 1) tele else None),
                                rr_key_disk = d\<rparr>)))))"

section \<open>What is admitted\<close>

text \<open>The address the proxy takes a connection to come from, if it gets so far.\<close>

definition effective_addr :: "config \<Rightarrow> tcp_stream \<Rightarrow> socket_addr \<Rightarrow> socket_addr option" where
  "effective_addr cfg stream peer =
     (if proxy_protocol (network cfg) then
        (case fst (parse_proxy_protocol tcp_read stream peer) of Inr res \<Rightarrow> Some (client_addr res) | Inl _ \<Rightarrow> None)
      else Some peer)"

lemma admit_None:
  "effective_addr cfg stream peer = None \<Longrightarrow> \<exists>e. admit cfg clock stream peer l = (HeaderRejected e, l)"
  by (auto simp: effective_addr_def admit_def split: if_splits prod.splits sum.splits)

lemma admit_Some:
  "effective_addr cfg stream peer = Some addr \<Longrightarrow> \<exists>left s. admit cfg clock stream peer l = rate_check clock addr left s l"
  by (auto simp: effective_addr_def admit_def split: if_splits prod.splits sum.splits) blast

lemma admit_Admitted:
  assumes "admit cfg clock stream peer l = (Admitted addr rd, l')"
  shows "fst (check_connection clock (ip addr) l)"
    and "if proxy_protocol (network cfg) then proxy_spec peer (tcp_pending stream) = Some (addr, prefixed_pending tcp_pending rd)
         else addr = peer \<and> prefixed_pending tcp_pending rd = tcp_pending stream"
  using assms tcp.parse_proxy_sound[of stream peer]
  by (auto simp: admit_def rate_check_def split: if_splits prod.splits sum.splits bool.splits)

subsection \<open>Bursts\<close>

fun admit_all :: "config \<Rightarrow> instant \<Rightarrow> (tcp_stream \<times> socket_addr) list \<Rightarrow> connection_rate_limiter \<Rightarrow> admission list" where
  "admit_all cfg t [] l = []"
| "admit_all cfg t ((stream, peer) # cs) l =
     (case admit cfg (t, t, t) stream peer l of (a, l) \<Rightarrow> a # admit_all cfg t cs l)"

definition admitted_from :: "ip_addr \<Rightarrow> admission list \<Rightarrow> nat" where
  "admitted_from a outs = length (filter (\<lambda>o1. case o1 of Admitted addr _ \<Rightarrow> ip addr = a | _ \<Rightarrow> False) outs)"

definition attempts_from :: "config \<Rightarrow> ip_addr \<Rightarrow> (tcp_stream \<times> socket_addr) list \<Rightarrow> nat" where
  "attempts_from cfg a cs =
     length (filter (\<lambda>(stream, peer). map_option ip (effective_addr cfg stream peer) = Some a) cs)"

lemma admitted_from_spent:
  assumes "spent_ok past t brst (buckets l)" "distinct (map fst (buckets l))" "crl_enabled l" "\<not> buckets_poisoned l"
    and "burst l = f64_of_u32 brst"
  shows "admitted_from a (admit_all cfg t cs l) + min (unat brst) (count_list past a)
    = min (unat brst) (count_list past a + attempts_from cfg a cs)"
  using assms
proof (induction cs arbitrary: past l)
  case Nil
  then show ?case by (simp add: admitted_from_def attempts_from_def)
next
  case (Cons c cs)
  obtain stream peer where [simp]: "c = (stream, peer)" by fastforce
  show ?case
  proof (cases "effective_addr cfg stream peer")
    case None
    with admit_None[OF this, of "(t, t, t)" l] Cons.IH[OF Cons.prems] show ?thesis
      by (auto simp: admitted_from_def attempts_from_def)
  next
    case (Some addr)
    obtain left s where a: "admit cfg (t, t, t) stream peer l = rate_check (t, t, t) addr left s l"
      using admit_Some[OF Some, of "(t, t, t)" l] by blast
    define l' where "l' = l\<lparr>buckets := AList.update (ip addr)
        \<lparr>tokens = of_nat (unat brst - count_list past (ip addr) - 1), last_update = t\<rparr> (buckets l)\<rparr>"
    have ch: "check_connection (t, t, t) (ip addr) l = (count_list past (ip addr) < unat brst, l')"
      unfolding l'_def using Cons.prems by (rule check_connection_same_instant)
    have "spent_ok (past @ [ip addr]) t brst (buckets l')" "distinct (map fst (buckets l'))" "crl_enabled l'"
      "\<not> buckets_poisoned l'" "burst l' = f64_of_u32 brst"
      using Cons.prems spent_ok_update[OF Cons.prems(1), of "ip addr"] by (auto simp: l'_def distinct_update)
    note ih = Cons.IH[OF this]
    show ?thesis
      using ih Some
      by (cases "count_list past (ip addr) < unat brst") (auto simp: a rate_check_def ch admitted_from_def attempts_from_def)
  qed
qed

text \<open>
  C8: a flood from one address is cut to the burst. Of all connections that reach a freshly started
  server within one instant, those admitted from an address are exactly as many as tried, up to
  the configured burst, whatever other addresses do. The address counted is the one the
  proxy acts on: behind a load balancer it is that of the PROXY header, not the balancer's.
\<close>
theorem server_admits_burst:
  assumes "proxy_server_new auth base64 dk runtime cfg = Inr srv" and "rate_limit_enabled (security cfg)"
  shows "admitted_from a (admit_all cfg t cs (px_rate_limiter srv)) = min (unat (connection_burst (security cfg))) (attempts_from cfg a cs)"
proof -
  have l: "px_rate_limiter srv = connection_rate_limiter_new True (max_connections_per_sec (security cfg)) (connection_burst (security cfg))"
    using assms by (auto simp: proxy_server_new_def Let_def split: sum.splits option.splits)
  show ?thesis
    unfolding l using admitted_from_spent[of "[]" t "connection_burst (security cfg)" "connection_rate_limiter_new True
        (max_connections_per_sec (security cfg)) (connection_burst (security cfg))" a cfg cs]
    by (simp add: connection_rate_limiter_new_def spent_ok_def)
qed


section \<open>From the socket to the registry\<close>

text \<open>
  C1: nobody gets, changes or ends a session in online mode without proving the identity, all the way
  from the socket. If the task of a connection changes what the registry says of a name, then the
  rate limiter admitted the address the connection comes from (that of its PROXY header where the
  protocol is on, that of the socket otherwise), the session server vouched for a player
  of that name at that address, over a connection encrypted with a 128-bit key and, where names are
  validated, under a well-formed name; and an open connection is registered with the identifier the
  session server gave.
\<close>
theorem connection_authenticated:
  assumes "proxy_server_new auth base64 dk runtime cfg = Inr srv" and "online_mode (server cfg)"
    and "connection_task ce new_conn srv icons clock es stream peer l st = (r, l', st')"
    and "live (st_sessions st)" and "list_all no_registry es"
    and "get_session u (st_sessions st') \<noteq> get_session u (st_sessions st)"
  shows "\<exists>addr name player secret.
      (if proxy_protocol (network cfg) then \<exists>rest. proxy_spec peer (tcp_pending stream) = Some (addr, rest) else addr = peer)
    \<and> fst (check_connection clock (ip addr) l)
    \<and> (validate_usernames (security cfg) \<longrightarrow> is_valid_username name) \<and> length secret = 16
    \<and> authenticate (cl_auth ce) name (auth_digest (cl_auth ce) (px_keystore srv) '''' secret) (ip addr)
        (prevent_proxy_connections (server cfg)) = Inr player
    \<and> eq_ignore_ascii_case u (player_name player)
    \<and> (r = Some (Inr (LoggedIn (Some RunOpen))) \<longrightarrow>
        (\<exists>s. get_session (player_name player) (st_sessions st') = Some s \<and> session_uuid s = player_id player))"
proof -
  have cfg: "px_config srv = cfg"
    using assms(1) by (auto simp: proxy_server_new_def Let_def split: sum.splits option.splits)
  obtain addr rd l1 where a: "admit cfg clock stream peer l = (Admitted addr rd, l1)"
    using assms(3,6) cfg by (auto simp: connection_task_def split: prod.splits admission.splits)
  let ?h = "new_handler srv addr" and ?st = "st\<lparr>st_client := new_conn rd\<rparr>"
  obtain x where x: "client_handle ce ?h icons es ?st = (x, st')" "r = Some x"
    using assms(3) a cfg by (auto simp: connection_task_def split: prod.splits)
  have h: "ch_config ?h = cfg" "ip (ch_peer_addr ?h) = ip addr" "ch_keystore ?h = px_keystore srv"
    by (simp_all add: new_handler_def cfg)
  have "get_session u (st_sessions st') \<noteq> get_session u (st_sessions ?st)" "live (st_sessions ?st)" "online_mode (server (ch_config ?h))"
    using assms(2,4,6) h by simp_all
  from login_authenticated[OF x(1) this(3,2) assms(5) this(1), unfolded h] admit_Admitted[OF a] x(2) show ?thesis
    by (auto split: if_splits) metis+
qed


section \<open>Shutdown\<close>

definition incoming :: "listener_event list \<Rightarrow> (tcp_stream \<times> socket_addr) list" where
  "incoming evs = concat (map (\<lambda>e. case e of Incoming s p \<Rightarrow> [(s, p)] | _ \<Rightarrow> []) evs)"

lemma accept_loop_until_shutdown:
  "ShutdownReceived \<notin> set before \<Longrightarrow> accept_loop (before @ ShutdownReceived # rest) = (incoming before, True)"
proof (induction before)
  case Nil
  then show ?case by (simp add: incoming_def)
next
  case (Cons e before)
  then show ?case by (cases e) (auto simp: incoming_def)
qed

lemma unload_emptied: "unload_each host ps (d, m\<lparr>loaded_plugins := []\<rparr>) w = ((d', m'), w') \<Longrightarrow> loaded_plugins m' = []"
  using unload_each_loaded[of host ps "(d, m\<lparr>loaded_plugins := []\<rparr>)" w] by simp

text \<open>
  C9: the server always comes down cleanly: whatever it accepted or failed to accept before, the
  first shutdown signal stops it; every connection accepted before it, in order, and none after it got a
  task; every plugin that was loaded is unloaded, with no handler left; and the telemetry task, if there is one, is
  waited for, for at least a second and at most the configured time.
\<close>
theorem shutdown_completes:
  assumes "ShutdownReceived \<notin> set before"
  shows "\<exists>rep. proxy_run ext host entries srv None (before @ ShutdownReceived # rest) d w = Inr rep
    \<and> rr_stopped rep \<and> rr_spawned rep = incoming before
    \<and> (plugins_enabled (plugins (px_config srv)) \<longrightarrow> loaded_plugins (rr_plugins rep) = [] \<and> event_handlers (rr_plugins rep) = []
         \<and> (\<exists>n d1 m w1. load_plugins host entries (px_dispatcher srv, px_plugins srv) w = (n, (d1, m), w1)
              \<and> rr_world rep = snd (unload_each host (loaded_plugins m) (d1, m\<lparr>loaded_plugins := []\<rparr>) w1)))
    \<and> (rr_telemetry rep \<noteq> None \<longrightarrow>
         (\<exists>secs. rr_telemetry_wait rep = Some secs \<and> 1 \<le> secs \<and> (secs = shutdown_timeout_secs (server (px_config srv)) \<or> secs = 1)))"
proof -
  have m: "1 \<le> max s 1 \<and> (max s 1 = s \<or> max s 1 = 1)" for s :: u64
    using linear[of s 1] by (auto simp: max_def)
  show ?thesis
    unfolding proxy_run_def accept_loop_until_shutdown[OF assms] using m
    by (auto simp: unload_plugins_def Let_def unload_emptied split: prod.splits)
qed

section \<open>Examples\<close>

abbreviation demo_new_server :: "config \<Rightarrow> proxy_error + unit proxy_server" where
  "demo_new_server cfg \<equiv> proxy_server_new demo_auth (\<lambda>_. '''') (cl_disk demo_client_env) None cfg"

definition demo_task :: "unit proxy_server \<Rightarrow> (client_error + handled) option \<times> connection_rate_limiter \<times> nat bridge_state" where
  "demo_task srv = connection_task demo_client_env (\<lambda>_. st_client demo_client) srv (px_icons srv) (0, 0, 0) [BackendReady]
     [Data [1, 2]] \<lparr>ip = V4 10 0 0 1, port = 40000\<rparr> (px_rate_limiter srv) (demo_state [] [])"

definition open_config :: config where
  "open_config = demo_config\<lparr>security := (security demo_config)\<lparr>rate_limit_enabled := False\<rparr>\<rparr>"

lemma demo_task_result:
  "case demo_new_server open_config of
     Inr srv \<Rightarrow> (case demo_task srv of (r, _, st') \<Rightarrow>
       r = Some (Inr (LoggedIn (Some RunOpen))) \<and> get_session ''Alex'' (st_sessions st') \<noteq> None)
   | Inl _ \<Rightarrow> False"
  by code_simp


theorem connection_authenticated_witness:
  "\<exists>srv l' (st' :: nat bridge_state). demo_new_server open_config = Inr srv
     \<and> demo_task srv = (Some (Inr (LoggedIn (Some RunOpen))), l', st')
     \<and> (\<exists>name player secret. is_valid_username name \<and> length secret = 16
         \<and> authenticate demo_auth name (auth_digest demo_auth (px_keystore srv) '''' secret) (V4 10 0 0 1) True = Inr player
         \<and> (\<exists>s. get_session (player_name player) (st_sessions st') = Some s \<and> session_uuid s = player_id player))"
proof -
  obtain srv l' st' where n: "demo_new_server open_config = Inr srv"
    and t: "demo_task srv = (Some (Inr (LoggedIn (Some RunOpen))), l', st')" and s: "get_session ''Alex'' (st_sessions st') \<noteq> None"
    using demo_task_result by (auto split: sum.splits prod.splits)
  have o: "get_session ''Alex'' (st_sessions (demo_state [] [])) = None" "live (st_sessions (demo_state [] []))"
    by (simp add: demo_state_def get_session_def session_manager_new_def) (simp add: demo_state_def live_new)
  have c: "online_mode (server open_config)" "prevent_proxy_connections (server open_config)" "validate_usernames (security open_config)"
    "\<not> proxy_protocol (network open_config)" "cl_auth demo_client_env = demo_auth"
    by (simp_all add: open_config_def demo_config_def config_default_def demo_client_env_def network_config_default_def)
  have "list_all no_registry [BackendReady]" by (simp add: no_registry_def)
  from connection_authenticated[OF n c(1) t[unfolded demo_task_def] o(2) this, of "''Alex''"] n t s o(1) show ?thesis
    unfolding c(5) using c(2-4) by fastforce
qed

definition flood :: "(tcp_stream \<times> socket_addr) list" where
  "flood = [([], \<lparr>ip = V4 10 0 0 1, port = 1\<rparr>), ([], \<lparr>ip = V4 10 0 0 1, port = 2\<rparr>), ([], \<lparr>ip = V4 10 0 0 2, port = 1\<rparr>),
     ([], \<lparr>ip = V4 10 0 0 1, port = 3\<rparr>)]"

definition tight_config :: config where
  "tight_config = demo_config\<lparr>security := (security demo_config)\<lparr>connection_burst := 2\<rparr>\<rparr>"

theorem server_admits_burst_witness:
  "\<exists>srv. demo_new_server tight_config = Inr srv
     \<and> admitted_from (V4 10 0 0 1) (admit_all tight_config 0 flood (px_rate_limiter srv)) = 2
     \<and> admitted_from (V4 10 0 0 2) (admit_all tight_config 0 flood (px_rate_limiter srv)) = 1"
proof -
  obtain srv where n: "demo_new_server tight_config = Inr srv"
    by (auto simp: proxy_server_new_def Let_def key_store_new_def demo_auth_def split: option.splits)
  have c: "rate_limit_enabled (security tight_config)" "unat (connection_burst (security tight_config)) = 2"
    by (simp_all add: tight_config_def demo_config_def config_default_def)
  have a: "attempts_from tight_config (V4 10 0 0 1) flood = 3" "attempts_from tight_config (V4 10 0 0 2) flood = 1"
    by code_simp+
  show ?thesis using server_admits_burst[OF n c(1), of _ 0 flood] n unfolding c(2) using a by auto
qed


theorem shutdown_completes_witness:
  "\<exists>srv rep. demo_new_server demo_config = Inr srv
     \<and> proxy_run demo_tele demo_host None srv None
         ([Incoming [] \<lparr>ip = V4 10 0 0 1, port = 1\<rparr>, AcceptError ''too many files''] @ ShutdownReceived # [Incoming [] \<lparr>ip = V4 10 0 0 2, port = 1\<rparr>])
         demo_key_disk 0 = Inr rep
     \<and> rr_stopped rep \<and> rr_spawned rep = [([], \<lparr>ip = V4 10 0 0 1, port = 1\<rparr>)]"
proof -
  let ?before = "[Incoming [] \<lparr>ip = V4 10 0 0 1, port = 1\<rparr>, AcceptError ''too many files'']"
  obtain srv where n: "demo_new_server demo_config = Inr srv"
    by (auto simp: proxy_server_new_def Let_def key_store_new_def demo_auth_def split: option.splits)
  have b: "ShutdownReceived \<notin> set ?before" by simp
  from shutdown_completes[OF b, where ext = demo_tele and host = demo_host and entries = None and srv = srv
      and rest = "[Incoming [] \<lparr>ip = V4 10 0 0 2, port = 1\<rparr>]" and d = demo_key_disk and w = 0] n show ?thesis
    by (auto simp: incoming_def)
qed

end
