(* ===== verification/Vine_Main.thy ===== *)
theory Vine_Main
  imports Proxy
begin

text \<open>
  \<^verbatim>\<open>src/src/network/mod.rs\<close> and \<^verbatim>\<open>src/src/main.rs\<close>: the listening socket and the options of the
  other sockets, as the calls made to the operating system, each of which may fail (\<^verbatim>\<open>sys\<close>); and the
  program, from its arguments to its exit code.
\<close>

section \<open>Sockets\<close>

datatype socket_call =
    NewSocket bool
  | SetReuseAddr bool
  | SetReusePort bool
  | SetRecvBufferSize u64
  | SetSendBufferSize u64
  | BindTo socket_addr
  | ListenOn u32
  | SetNodelay bool
  | SetKeepalive u64 u64

text \<open>
  Calls in order: a failing call ends the sequence if it is a required one (followed by \<^verbatim>\<open>?\<close>) and is
  passed over otherwise. The result has the calls that were made.
\<close>

fun make_calls :: "(socket_call \<Rightarrow> string option) \<Rightarrow> (bool \<times> socket_call) list \<Rightarrow> string option \<times> socket_call list" where
  "make_calls sys [] = (None, [])"
| "make_calls sys ((required, c) # cs) =
     (case sys c of
        Some e \<Rightarrow> if required then (Some e, [c])
                  else (case make_calls sys cs of (r, made) \<Rightarrow> (r, c # made))
      | None \<Rightarrow> (case make_calls sys cs of (r, made) \<Rightarrow> (r, c # made)))"

definition is_ipv6 :: "socket_addr \<Rightarrow> bool" where
  "is_ipv6 a = (case ip a of V6 _ \<Rightarrow> True | V4 _ _ _ _ \<Rightarrow> False)"

definition buffer_calls :: "(u64 \<Rightarrow> u64) \<Rightarrow> network_config \<Rightarrow> (bool \<times> socket_call) list" where
  "buffer_calls cast net =
     (case recv_buffer_size net of Some b \<Rightarrow> [(False, SetRecvBufferSize (cast b))] | None \<Rightarrow> [])
     @ (case send_buffer_size net of Some b \<Rightarrow> [(False, SetSendBufferSize (cast b))] | None \<Rightarrow> [])"

definition create_tcp_listener ::
  "(socket_call \<Rightarrow> string option) \<Rightarrow> string \<Rightarrow> network_config \<Rightarrow> string option \<times> socket_call list" where
  "create_tcp_listener sys bind_addr_str net =
     (case parse_socket_addr bind_addr_str of
        None \<Rightarrow> (Some ''invalid socket address syntax'', [])
      | Some addr \<Rightarrow>
          make_calls sys
            ([(True, NewSocket (is_ipv6 addr)), (True, SetReuseAddr True), (False, SetReusePort True)]
             @ buffer_calls (\<lambda>b. ucast (ucast b :: u32)) net
             @ [(True, BindTo addr), (True, ListenOn (listen_backlog net))]))"

definition configure_client_socket ::
  "(socket_call \<Rightarrow> string option) \<Rightarrow> network_config \<Rightarrow> string option \<times> socket_call list" where
  "configure_client_socket sys cfg =
     make_calls sys
       ([(False, SetNodelay (tcp_nodelay cfg))]
        @ (if 0 < tcp_keepalive_secs cfg then [(False, SetKeepalive (tcp_keepalive_secs cfg) 10)] else [])
        @ buffer_calls id cfg)"

definition configure_backend_socket ::
  "(socket_call \<Rightarrow> string option) \<Rightarrow> network_config \<Rightarrow> string option \<times> socket_call list" where
  "configure_backend_socket sys cfg =
     make_calls sys
       ([(False, SetNodelay (tcp_nodelay cfg))]
        @ (if 0 < tcp_keepalive_secs cfg then [(False, SetKeepalive (tcp_keepalive_secs cfg) 10)] else [])
        @ buffer_calls id cfg)"

section \<open>The program\<close>

text \<open>
  What the program uses besides its arguments: the configuration file and its format, and the parts
  of the server. The exit code is \<^verbatim>\<open>None\<close> while the server runs.
\<close>

record ('w, 'key, 'resp) main_env =
  me_from_str :: "string \<Rightarrow> string + config"
  me_to_string :: "config \<Rightarrow> string + string"
  me_write :: "string \<Rightarrow> string \<Rightarrow> file_system \<Rightarrow> io_error + file_system"
  me_auth :: "'key auth_ext"
  me_base64 :: "bytes \<Rightarrow> string"
  me_icon_disk :: disk
  me_runtime :: "string option"
  me_tele :: "'resp tele_ext"
  me_host :: "'w wasm_host"
  me_plugin_entries :: "(string \<times> bool) list option option"
  me_sys :: "socket_call \<Rightarrow> string option"

definition config_path :: "string list \<Rightarrow> string" where
  "config_path args = (case args of _ # p # _ \<Rightarrow> p | _ \<Rightarrow> ''vine.toml'')"

definition vine_main ::
  "('w, 'key, 'resp) main_env \<Rightarrow> string list \<Rightarrow> listener_event list \<Rightarrow> file_system \<Rightarrow> key_disk \<Rightarrow> 'w
    \<Rightarrow> nat option \<times> file_system" where
  "vine_main me args evs fs d w =
     (case load_or_create (me_from_str me) (me_to_string me) (me_write me) (config_path args) fs of
        (Inl e, fs) \<Rightarrow> (Some 1, fs)
      | (Inr cfg, fs) \<Rightarrow>
          (case proxy_server_new (me_auth me) (me_base64 me) (me_icon_disk me) (me_runtime me) cfg of
             Inl e \<Rightarrow> (Some 1, fs)
           | Inr srv \<Rightarrow>
               (case proxy_run (me_tele me) (me_host me) (me_plugin_entries me) srv
                       (fst (create_tcp_listener (me_sys me) (bind_address (server cfg)) (network cfg))) evs d w of
                  Inl e \<Rightarrow> (Some 1, fs)
                | Inr rep \<Rightarrow> (if rr_stopped rep then Some 0 else None, fs))))"

section \<open>Facts\<close>

text \<open>Only a required call can make the sequence fail, and a sequence that succeeds made all its calls.\<close>

lemma make_calls_None:
  "fst (make_calls sys cs) = None \<longleftrightarrow> (\<forall>c. (True, c) \<in> set cs \<longrightarrow> sys c = None)"
  by (induction cs) (auto split: option.splits prod.splits if_splits)

lemma make_calls_made: "fst (make_calls sys cs) = None \<Longrightarrow> snd (make_calls sys cs) = map snd cs"
  by (induction cs) (auto split: option.splits prod.splits if_splits)

lemma buffer_calls_optional: "(True, c) \<notin> set (buffer_calls f net)"
  by (auto simp: buffer_calls_def split: option.splits)

text \<open>The listener works exactly when its address is well-formed and the four required calls succeed.\<close>

lemma create_tcp_listener_None:
  "fst (create_tcp_listener sys text net) = None \<longleftrightarrow>
     (\<exists>addr. parse_socket_addr text = Some addr \<and> sys (NewSocket (is_ipv6 addr)) = None
        \<and> sys (SetReuseAddr True) = None \<and> sys (BindTo addr) = None \<and> sys (ListenOn (listen_backlog net)) = None)"
  by (auto simp: create_tcp_listener_def make_calls_None buffer_calls_optional simp del: make_calls.simps split: option.splits)

text \<open>Options never make a connection fail, and both ends get the same ones.\<close>

lemma configure_sockets:
  "fst (configure_client_socket sys cfg) = None" "configure_backend_socket sys cfg = configure_client_socket sys cfg"
  by (auto simp: configure_client_socket_def configure_backend_socket_def make_calls_None buffer_calls_optional simp del: make_calls.simps)

text \<open>Up to the shutdown signal, serving fails only for want of the listener.\<close>

lemma proxy_run_outcome:
  assumes "ShutdownReceived \<notin> set before"
  shows "case proxy_run ext host entries srv e (before @ ShutdownReceived # rest) d w of
      Inl _ \<Rightarrow> e \<noteq> None | Inr rep \<Rightarrow> e = None \<and> rr_stopped rep"
  unfolding proxy_run_def accept_loop_until_shutdown[OF assms] by (auto split: option.splits prod.splits)

text \<open>
  With a shutdown signal among the events the program always ends, and its exit code is 0 exactly if
  the configuration could be loaded, the server built and the listener opened.
\<close>

lemma vine_main_exit:
  assumes "ShutdownReceived \<notin> set before"
    and "load_or_create (me_from_str me) (me_to_string me) (me_write me) (config_path args) fs = (loaded, fs')"
  shows "\<exists>n. vine_main me args (before @ ShutdownReceived # rest) fs d w = (Some n, fs')
    \<and> (n = 0 \<longleftrightarrow> (\<exists>cfg srv. loaded = Inr cfg
         \<and> proxy_server_new (me_auth me) (me_base64 me) (me_icon_disk me) (me_runtime me) cfg = Inr srv
         \<and> fst (create_tcp_listener (me_sys me) (bind_address (server cfg)) (network cfg)) = None))"
proof -
  show ?thesis
  proof (cases loaded)
    case (Inl e)
    with assms(2) show ?thesis by (simp add: vine_main_def)
  next
    case (Inr cfg)
    show ?thesis
    proof (cases "proxy_server_new (me_auth me) (me_base64 me) (me_icon_disk me) (me_runtime me) cfg")
      case (Inl e)
      with assms(2) Inr show ?thesis by (simp add: vine_main_def)
    next
      case srv: (Inr srv)
      let ?e = "fst (create_tcp_listener (me_sys me) (bind_address (server cfg)) (network cfg))"
      from proxy_run_outcome[OF assms(1), of ?e "me_tele me" "me_host me" "me_plugin_entries me" srv rest d w] assms(2) Inr srv show ?thesis
        by (cases "proxy_run (me_tele me) (me_host me) (me_plugin_entries me) srv ?e (before @ ShutdownReceived # rest) d w")
          (auto simp: vine_main_def)
    qed
  qed
qed

end
