(* ===== verification/Connections.thy ===== *)
theory Connections
  imports Bridge
begin

text \<open>
  Many players at once. The connections of \<^verbatim>\<open>src/src/backend/bridge.rs\<close> share the session registry,
  the player counter and the plugins' state and are otherwise on their own; a step of the server is a
  step of any one of them: starting a bridge, entering a tunnel, one event of a tunnel, handling
  its exit, leaving. The steps are those \<^verbatim>\<open>BackendBridge::run\<close> is made of, on the shared state as the
  others have left it, in any order.
\<close>

section \<open>The server as a transition system\<close>

datatype 'w phase =
    Starting backend_bridge "'w bridge_state"
  | Ready backend_bridge "'w bridge_state"
  | Tunnelling backend_bridge "'w bridge_state"
  | Exited tunnel_exit backend_bridge "'w bridge_state"
  | Leaving backend_bridge "'w bridge_state"

record 'w server_state =
  sv_sessions :: session_manager
  sv_online :: u64
  sv_world :: 'w
  sv_conns :: "nat \<Rightarrow> 'w phase option"

definition server_init :: "'w \<Rightarrow> 'w server_state" where
  "server_init w = \<lparr>sv_sessions = session_manager_new, sv_online = 0, sv_world = w, sv_conns = (\<lambda>_. None)\<rparr>"

text \<open>A connection's state with the shared parts as they are now, and the shared parts taken back from it.\<close>

definition load :: "'w server_state \<Rightarrow> 'w bridge_state \<Rightarrow> 'w bridge_state" where
  "load S st = st\<lparr>st_sessions := sv_sessions S, st_online := sv_online S, st_world := sv_world S\<rparr>"

definition save :: "'w server_state \<Rightarrow> nat \<Rightarrow> 'w phase option \<Rightarrow> 'w bridge_state \<Rightarrow> 'w server_state" where
  "save S c ph st = S\<lparr>sv_sessions := st_sessions st, sv_online := st_online st, sv_world := st_world st,
     sv_conns := (sv_conns S)(c := ph)\<rparr>"

definition tunnel_reset :: "backend_bridge \<Rightarrow> 'w bridge_state \<Rightarrow> 'w bridge_state" where
  "tunnel_reset br st = st\<lparr>st_pending := [], st_queue := [],
     st_limiter := packet_rate_limiter_new (br_max_packets_per_sec br) (st_clock st)\<rparr>"

text \<open>\<^verbatim>\<open>gate\<close> restricts which bridges are started when; the code starts all of them.\<close>

inductive server_step ::
  "'w tunnel_env \<Rightarrow> ('w server_state \<Rightarrow> backend_bridge \<Rightarrow> bool) \<Rightarrow> 'w server_state \<Rightarrow> 'w server_state \<Rightarrow> bool"
  for env :: "'w tunnel_env" and gate :: "'w server_state \<Rightarrow> backend_bridge \<Rightarrow> bool" where
  connected: "sv_conns S c = None \<Longrightarrow> server_step env gate S (S\<lparr>sv_conns := (sv_conns S)(c := Some (Starting br st))\<rparr>)"
| started: "sv_conns S c = Some (Starting br st) \<Longrightarrow> gate S br \<Longrightarrow> bridge_start env br (load S st) = (None, st')
    \<Longrightarrow> server_step env gate S (save S c (Some (Ready br st')) st')"
| start_failed: "sv_conns S c = Some (Starting br st) \<Longrightarrow> bridge_start env br (load S st) = (Some e, st')
    \<Longrightarrow> server_step env gate S (save S c None st')"
| entered: "sv_conns S c = Some (Ready br st) \<Longrightarrow> st' = tunnel_reset br (load S st)
    \<Longrightarrow> server_step env gate S (save S c (Some (Tunnelling br st')) st')"
| tunnelled: "sv_conns S c = Some (Tunnelling br st) \<Longrightarrow> no_registry ev \<Longrightarrow> tunnel_step env br ev (load S st) = (None, st')
    \<Longrightarrow> server_step env gate S (save S c (Some (Tunnelling br st')) st')"
| exited: "sv_conns S c = Some (Tunnelling br st) \<Longrightarrow> no_registry ev \<Longrightarrow> tunnel_step env br ev (load S st) = (Some x, st')
    \<Longrightarrow> server_step env gate S (save S c (Some (Exited x br st')) st')"
| goes_on: "sv_conns S c = Some (Exited x br st) \<Longrightarrow> handle_exit env br x (load S st) = (True, st')
    \<Longrightarrow> server_step env gate S (save S c (Some (Ready br st')) st')"
| ended: "sv_conns S c = Some (Exited x br st) \<Longrightarrow> handle_exit env br x (load S st) = (False, st')
    \<Longrightarrow> server_step env gate S (save S c (Some (Leaving br st')) st')"
| left: "sv_conns S c = Some (Leaving br st) \<Longrightarrow> st' = leave env br (load S st)
    \<Longrightarrow> server_step env gate S (save S c None st')"

abbreviation reachable :: "'w tunnel_env \<Rightarrow> ('w server_state \<Rightarrow> backend_bridge \<Rightarrow> bool) \<Rightarrow> 'w \<Rightarrow> 'w server_state \<Rightarrow> bool" where
  "reachable env gate w S \<equiv> (server_step env gate)\<^sup>*\<^sup>* (server_init w) S"

section \<open>Open connections\<close>

text \<open>From the successful start of its bridge until it has left, a connection is open.\<close>

fun open_phase :: "'w phase \<Rightarrow> (backend_bridge \<times> 'w bridge_state) option" where
  "open_phase (Starting br st) = None"
| "open_phase (Ready br st) = Some (br, st)"
| "open_phase (Tunnelling br st) = Some (br, st)"
| "open_phase (Exited x br st) = Some (br, st)"
| "open_phase (Leaving br st) = Some (br, st)"

definition open_at :: "'w server_state \<Rightarrow> nat \<Rightarrow> (backend_bridge \<times> 'w bridge_state) option" where
  "open_at S c = Option.bind (sv_conns S c) open_phase"

definition opened :: "'w server_state \<Rightarrow> nat set" where
  "opened S = {c. open_at S c \<noteq> None}"

text \<open>The session a connection's registry entry has to show.\<close>

definition owns :: "backend_bridge \<times> 'w bridge_state \<Rightarrow> player_session \<Rightarrow> bool" where
  "owns p s \<longleftrightarrow> action_tx s = st_tx (snd p) \<and> session_uuid s = player_id (br_player (fst p))"

definition accounted :: "'w server_state \<Rightarrow> bool" where
  "accounted S \<longleftrightarrow> live (sv_sessions S) \<and> finite (opened S) \<and> sv_online S = of_nat (card (opened S))
     \<and> (\<forall>u s. get_session u (sv_sessions S) = Some s \<longrightarrow>
          (\<exists>c p. open_at S c = Some p \<and> eq_ignore_ascii_case u (user (fst p)) \<and> owns p s))"

text \<open>What a step of an open connection may do to the shared state.\<close>

definition own_entry_only :: "backend_bridge \<Rightarrow> 'w bridge_state \<Rightarrow> 'w bridge_state \<Rightarrow> bool" where
  "own_entry_only br st st' \<longleftrightarrow> st_online st' = st_online st \<and> st_tx st' = st_tx st
     \<and> (st_server st' = st_server st \<and> st_sessions st' = st_sessions st
        \<or> st_sessions st' = update_server (user br) (st_server st') (st_sessions st))"

lemma own_entry_reset: "own_entry_only br st (tunnel_reset br st)"
  by (simp add: own_entry_only_def tunnel_reset_def)

lemma own_entry_tunnel: "tunnel_step env br ev st = (x, st') \<Longrightarrow> no_registry ev \<Longrightarrow> own_entry_only br st st'"
  using stays_step[of st env br ev] by (simp add: own_entry_only_def stays_def)

lemma own_entry_exit: "handle_exit env br x st = (b, st') \<Longrightarrow> own_entry_only br st st'"
  by (simp add: own_entry_only_def handle_exit_effects)

lemma load_simps [simp]: "st_sessions (load S st) = sv_sessions S" "st_online (load S st) = sv_online S"
  "st_tx (load S st) = st_tx st" "st_server (load S st) = st_server st"
  by (simp_all add: load_def)

lemma save_simps [simp]: "sv_sessions (save S c ph st) = st_sessions st" "sv_online (save S c ph st) = st_online st"
  "open_at (save S c ph st) c' = (if c' = c then Option.bind ph open_phase else open_at S c')"
  by (simp_all add: save_def open_at_def)

lemma opened_save: "opened (save S c ph st) = (if Option.bind ph open_phase = None then opened S - {c} else insert c (opened S))"
  by (auto simp: opened_def split: if_splits)

text \<open>How a bridge's start and end change the shared state.\<close>

lemma bridge_start_registers:
  assumes "bridge_start env br st = (None, st')"
  shows "st_online st' = st_online st + 1
    \<and> (\<exists>s. st_sessions st' = register s (st_sessions st) \<and> username s = user br \<and> owns (br, st') s \<and> current_server s = st_server st')"
  using assms
  by (auto simp: bridge_start_def Let_def joined_def owns_def dest!: ask_connect_effects
    split: prod.splits if_splits sum.splits option.splits)

lemma leave_effects:
  "st_online (leave env br st) = st_online st - 1" "st_sessions (leave env br st) = snd (unregister (user br) (st_sessions st))"
  by (simp_all add: leave_def Let_def)

section \<open>Invariants of the server\<close>

text \<open>
  Four laws make a predicate an invariant: it depends only on the shared state and the open
  connections, and it survives a start, a step of an open connection and a leaving.
\<close>

locale connection_invariant =
  fixes env :: "'w tunnel_env" and gate :: "'w server_state \<Rightarrow> backend_bridge \<Rightarrow> bool"
    and inv :: "'w server_state \<Rightarrow> bool"
  assumes unopened: "inv S \<Longrightarrow> sv_sessions S' = sv_sessions S \<Longrightarrow> sv_online S' = sv_online S
      \<Longrightarrow> (\<And>c. open_at S' c = open_at S c) \<Longrightarrow> inv S'"
    and start: "inv S \<Longrightarrow> sv_conns S c = Some (Starting br st) \<Longrightarrow> gate S br
      \<Longrightarrow> bridge_start env br (load S st) = (None, st') \<Longrightarrow> inv (save S c (Some (Ready br st')) st')"
    and own_step: "inv S \<Longrightarrow> open_at S c = Some (br, st) \<Longrightarrow> own_entry_only br (load S st) st'
      \<Longrightarrow> open_phase ph = Some (br, st') \<Longrightarrow> inv (save S c (Some ph) st')"
    and leaving: "inv S \<Longrightarrow> open_at S c = Some (br, st) \<Longrightarrow> inv (save S c None (leave env br (load S st)))"
begin

lemma preserved: "server_step env gate S S' \<Longrightarrow> inv S \<Longrightarrow> inv S'"
proof (induction rule: server_step.induct)
  case (connected S c br st)
  then show ?case by (elim unopened) (auto simp: open_at_def)
next
  case (started S c br st st')
  then show ?case using start by blast
next
  case (start_failed S c br st e st')
  then show ?case using bridge_start_failed[OF start_failed(2)]
    by (elim unopened) (auto simp: open_at_def save_def)
next
  case (entered S c br st st')
  then show ?case by (intro own_step[of S c br st]) (simp_all add: open_at_def own_entry_reset)
next
  case (tunnelled S c br st ev st')
  then show ?case by (intro own_step[of S c br st]) (auto simp: open_at_def intro: own_entry_tunnel)
next
  case (exited S c br st ev x st')
  then show ?case by (intro own_step[of S c br st]) (auto simp: open_at_def intro: own_entry_tunnel)
next
  case (goes_on S c x br st st')
  then show ?case by (intro own_step[of S c br st]) (auto simp: open_at_def intro: own_entry_exit)
next
  case (ended S c x br st st')
  then show ?case by (intro own_step[of S c br st]) (auto simp: open_at_def intro: own_entry_exit)
next
  case (left S c br st st')
  then show ?case using leaving[of S c br st] by (simp add: open_at_def)
qed

lemma holds_reachable: "reachable env gate w S \<Longrightarrow> inv (server_init w) \<Longrightarrow> inv S"
  by (induction rule: rtranclp_induct) (auto intro: preserved)

end

section \<open>Every entry has an owner\<close>

lemma own_entry_sessions:
  assumes "own_entry_only br st st'" "live (st_sessions st)"
  shows "live (st_sessions st')"
    and "get_session u (st_sessions st') = Some s' \<Longrightarrow>
      \<exists>s. get_session u (st_sessions st) = Some s \<and> action_tx s' = action_tx s \<and> session_uuid s' = session_uuid s"
    and "\<not> eq_ignore_ascii_case u (user br) \<Longrightarrow> get_session u (st_sessions st') = get_session u (st_sessions st)"
  using assms by (auto simp: own_entry_only_def vine.ok_upd vine.get_upd split: if_splits)

lemma accounted_own_step:
  assumes "accounted S" "open_at S c = Some (br, st)" "own_entry_only br (load S st) st'" "open_phase ph = Some (br, st')"
  shows "accounted (save S c (Some ph) st')"
proof -
  have live: "live (st_sessions (load S st))" using assms(1) by (simp add: accounted_def)
  have c: "opened (save S c (Some ph) st') = opened S"
    using assms(2,4) by (auto simp: opened_save opened_def)
  have o: "\<exists>c p. open_at (save S c0 (Some ph) st') c = Some p \<and> eq_ignore_ascii_case u (user (fst p)) \<and> owns p s'"
    if "get_session u (st_sessions st') = Some s'" "c0 = c" for u s' c0
  proof -
    from own_entry_sessions(2)[OF assms(3) live that(1)] obtain s where
      s: "get_session u (sv_sessions S) = Some s" "action_tx s' = action_tx s" "session_uuid s' = session_uuid s" by auto
    then obtain c1 p where p: "open_at S c1 = Some p" "eq_ignore_ascii_case u (user (fst p))" "owns p s"
      using assms(1) unfolding accounted_def by blast
    show ?thesis
    proof (cases "c1 = c")
      case True
      with p s assms(2-4) that(2) show ?thesis
        by (intro exI[of _ c] exI[of _ "(br, st')"]) (auto simp: owns_def own_entry_only_def)
    next
      case False
      with p s that(2) show ?thesis by (intro exI[of _ c1] exI[of _ p]) (auto simp: owns_def)
    qed
  qed
  show ?thesis
    using assms(1,3) own_entry_sessions(1)[OF assms(3) live] o c by (auto simp: accounted_def own_entry_only_def)
qed

lemma accounted_start:
  assumes "accounted S" "sv_conns S c = Some (Starting br st)" "bridge_start env br (load S st) = (None, st')"
  shows "accounted (save S c (Some (Ready br st')) st')"
proof -
  obtain s where s: "st_online st' = sv_online S + 1" "st_sessions st' = register s (sv_sessions S)" "username s = user br" "owns (br, st') s"
    using bridge_start_registers[OF assms(3)] by auto
  have n: "c \<notin> opened S" using assms(2) by (simp add: opened_def open_at_def)
  have live: "live (sv_sessions S)" using assms(1) by (simp add: accounted_def)
  have o: "\<exists>c0 p. open_at (save S c (Some (Ready br st')) st') c0 = Some p \<and> eq_ignore_ascii_case u (user (fst p)) \<and> owns p s'"
    if g: "get_session u (st_sessions st') = Some s'" for u s'
  proof (cases "eq_ignore_ascii_case u (user br)")
    case True
    with g s live have "s' = s" by (simp add: vine.get_reg)
    with True s show ?thesis by (intro exI[of _ c] exI[of _ "(br, st')"]) simp
  next
    case False
    with g s live have "get_session u (sv_sessions S) = Some s'" by (simp add: vine.get_reg)
    then obtain c1 p where p: "open_at S c1 = Some p" "eq_ignore_ascii_case u (user (fst p))" "owns p s'"
      using assms(1) unfolding accounted_def by blast
    with n have "c1 \<noteq> c" by (force simp: opened_def)
    with p show ?thesis by (intro exI[of _ c1] exI[of _ p]) simp
  qed
  have "opened (save S c (Some (Ready br st')) st') = insert c (opened S)" by (simp add: opened_save)
  with n s o live assms(1) show ?thesis by (auto simp: accounted_def vine.ok_reg)
qed

lemma accounted_leave:
  assumes "accounted S" "open_at S c = Some (br, st)"
  shows "accounted (save S c None (leave env br (load S st)))"
proof -
  let ?S = "save S c None (leave env br (load S st))"
  have live: "live (sv_sessions S)" using assms(1) by (simp add: accounted_def)
  have o: "\<exists>c p. open_at ?S c = Some p \<and> eq_ignore_ascii_case u (user (fst p)) \<and> owns p s"
    if g: "get_session u (sv_sessions ?S) = Some s" for u s
  proof -
    from g live have g': "get_session u (sv_sessions S) = Some s" and u: "\<not> eq_ignore_ascii_case u (user br)"
      by (auto simp: leave_effects vine.get_unreg split: if_splits)
    from g' obtain c1 p where p: "open_at S c1 = Some p" "eq_ignore_ascii_case u (user (fst p))" "owns p s"
      using assms(1) unfolding accounted_def by blast
    with u assms(2) have "c1 \<noteq> c" by auto
    with p show ?thesis by (intro exI[of _ c1] exI[of _ p]) simp
  qed
  have c: "c \<in> opened S" "opened ?S = opened S - {c}" using assms(2) by (auto simp: opened_def)
  then have "of_nat (card (opened S)) - 1 = (of_nat (card (opened ?S)) :: u64)"
    using assms(1) card_Suc_Diff1[of "opened S" c] by (metis accounted_def add_diff_cancel_left' of_nat_Suc)
  with c o live assms(1) show ?thesis by (auto simp: accounted_def leave_effects vine.ok_unreg)
qed

text \<open>A connection that is not open touches nothing.\<close>

lemma accounted_cong:
  "accounted S \<Longrightarrow> sv_sessions S' = sv_sessions S \<Longrightarrow> sv_online S' = sv_online S \<Longrightarrow> (\<And>c. open_at S' c = open_at S c) \<Longrightarrow> accounted S'"
  by (simp add: accounted_def opened_def)

interpretation accounts: connection_invariant env gate accounted for env gate
proof
  show "accounted S'" if "accounted S" "sv_sessions S' = sv_sessions S" "sv_online S' = sv_online S" "\<And>c. open_at S' c = open_at S c" for S S'
    using that by (rule accounted_cong)
  show "accounted (save S c (Some (Ready br st')) st')" if "accounted S" "sv_conns S c = Some (Starting br st)" "gate S br"
    "bridge_start env br (load S st) = (None, st')" for S c br st st'
    using that(1,2,4) by (rule accounted_start)
qed (rule accounted_own_step accounted_leave; assumption)+

lemma accounted_init: "accounted (server_init w)"
proof -
  have "get_session u session_manager_new = None" for u by (simp add: get_session_def session_manager_new_def)
  then show ?thesis by (simp add: accounted_def server_init_def live_new opened_def open_at_def)
qed

lemma accounted_reachable: "reachable env gate w S \<Longrightarrow> accounted S"
  by (rule accounts.holds_reachable[OF _ accounted_init])

section \<open>Every connection has its entry\<close>

text \<open>As long as nobody starts a second connection under a name in use.\<close>

definition name_at :: "'w server_state \<Rightarrow> nat \<Rightarrow> string option" where
  "name_at S c = map_option (\<lambda>p. user (fst p)) (open_at S c)"

definition name_free :: "'w server_state \<Rightarrow> backend_bridge \<Rightarrow> bool" where
  "name_free S br \<longleftrightarrow> (\<forall>c n. name_at S c = Some n \<longrightarrow> \<not> eq_ignore_ascii_case n (user br))"

definition names_unique :: "(nat \<Rightarrow> string option) \<Rightarrow> bool" where
  "names_unique f \<longleftrightarrow> (\<forall>c c' n n'. f c = Some n \<longrightarrow> f c' = Some n' \<longrightarrow> eq_ignore_ascii_case n n' \<longrightarrow> c = c')"

lemma name_at_save: "name_at (save S c ph st) = (name_at S)(c := map_option (\<lambda>p. user (fst p)) (Option.bind ph open_phase))"
  by (auto simp: name_at_def)

lemma names_unique_update:
  assumes "names_unique f" "\<And>c' n. f c' = Some n \<Longrightarrow> \<not> eq_ignore_ascii_case n m"
  shows "names_unique (f(c := Some m))"
  unfolding names_unique_def
proof (intro allI impI)
  fix c1 c2 n1 n2
  assume h: "(f(c := Some m)) c1 = Some n1" "(f(c := Some m)) c2 = Some n2" and e: "eq_ignore_ascii_case n1 n2"
  have e': "eq_ignore_ascii_case n2 n1" using e by (simp add: eq_ignore_ascii_case_sym)
  consider "c1 = c" "c2 = c" | "c1 = c" "c2 \<noteq> c" | "c1 \<noteq> c" "c2 = c" | "c1 \<noteq> c" "c2 \<noteq> c" by blast
  then show "c1 = c2"
  proof cases
    case 2
    with h e' assms(2)[of c2 n2] show ?thesis by simp
  next
    case 3
    with h e assms(2)[of c1 n1] show ?thesis by simp
  next
    case 4
    with h have "f c1 = Some n1" "f c2 = Some n2" by simp_all
    with assms(1) e show ?thesis unfolding names_unique_def by blast
  qed simp
qed

lemma names_unique_remove: "names_unique f \<Longrightarrow> names_unique (f(c := None))"
  unfolding names_unique_def by (metis fun_upd_apply option.distinct(1))

definition has_entry :: "'w server_state \<Rightarrow> backend_bridge \<times> 'w bridge_state \<Rightarrow> bool" where
  "has_entry S p \<longleftrightarrow> (\<exists>s. get_session (user (fst p)) (sv_sessions S) = Some s \<and> owns p s \<and> current_server s = st_server (snd p))"

definition all_registered :: "'w server_state \<Rightarrow> bool" where
  "all_registered S \<longleftrightarrow> accounted S \<and> (\<forall>c p. open_at S c = Some p \<longrightarrow> has_entry S p) \<and> names_unique (name_at S)"

lemma all_registeredD: "all_registered S \<Longrightarrow> open_at S c = Some p \<Longrightarrow> has_entry S p"
  unfolding all_registered_def by blast

lemma other_names:
  assumes "all_registered S" "open_at S c = Some p" "open_at S c' = Some p'" "c \<noteq> c'"
  shows "\<not> eq_ignore_ascii_case (user (fst p)) (user (fst p'))"
proof -
  have "name_at S c = Some (user (fst p))" "name_at S c' = Some (user (fst p'))" by (simp_all add: name_at_def assms(2,3))
  with assms(1,4) show ?thesis unfolding all_registered_def names_unique_def by blast
qed

text \<open>A step is fine if it is for its own connection and the others keep their entries.\<close>

lemma all_registered_save:
  assumes "accounted (save S c ph st')" "names_unique (name_at (save S c ph st'))"
    and "\<And>p. Option.bind ph open_phase = Some p \<Longrightarrow> has_entry (save S c ph st') p"
    and "\<And>c' p. open_at S c' = Some p \<Longrightarrow> c' \<noteq> c \<Longrightarrow> has_entry (save S c ph st') p"
  shows "all_registered (save S c ph st')"
proof -
  have "has_entry (save S c ph st') p" if "open_at (save S c ph st') c' = Some p" for c' p
    using assms(3,4) that by (cases "c' = c") simp_all
  with assms(1,2) show ?thesis by (simp add: all_registered_def)
qed

lemma has_entry_own_step:
  assumes "own_entry_only br (load S st) st'" "live (sv_sessions S)" "has_entry S (br, st)"
  shows "has_entry (save S c ph st') (br, st')"
  using assms by (auto simp: has_entry_def own_entry_only_def owns_def vine.get_upd)

lemma has_entry_frame:
  "get_session (user (fst p)) (st_sessions st') = get_session (user (fst p)) (sv_sessions S) \<Longrightarrow> has_entry S p \<Longrightarrow> has_entry (save S c ph st') p"
  by (simp add: has_entry_def)

lemma all_registered_own_step:
  assumes "all_registered S" "open_at S c = Some (br, st)" "own_entry_only br (load S st) st'" "open_phase ph = Some (br, st')"
  shows "all_registered (save S c (Some ph) st')"
proof (rule all_registered_save)
  have a: "accounted S" "live (sv_sessions S)" using assms(1) by (auto simp: all_registered_def accounted_def)
  show "accounted (save S c (Some ph) st')" using a(1) assms(2-4) by (rule accounted_own_step)
  have "name_at (save S c (Some ph) st') = name_at S" using assms(2,4) by (auto simp: name_at_def)
  then show "names_unique (name_at (save S c (Some ph) st'))" using assms(1) by (simp add: all_registered_def)
  show "has_entry (save S c (Some ph) st') p" if "Option.bind (Some ph) open_phase = Some p" for p
    using has_entry_own_step[OF assms(3) a(2) all_registeredD[OF assms(1,2)]] that assms(4) by simp
  show "has_entry (save S c (Some ph) st') p" if o: "open_at S c' = Some p" "c' \<noteq> c" for c' p
    using own_entry_sessions(3)[OF assms(3)] a(2) other_names[OF assms(1) o(1) assms(2) o(2)] all_registeredD[OF assms(1) o(1)]
    by (intro has_entry_frame) auto
qed

lemma all_registered_start:
  assumes "all_registered S" "sv_conns S c = Some (Starting br st)" "name_free S br" "bridge_start env br (load S st) = (None, st')"
  shows "all_registered (save S c (Some (Ready br st')) st')"
proof (rule all_registered_save)
  let ?S = "save S c (Some (Ready br st')) st'"
  have a: "accounted S" "live (sv_sessions S)" using assms(1) by (auto simp: all_registered_def accounted_def)
  show "accounted ?S" using a(1) assms(2,4) by (rule accounted_start)
  show "names_unique (name_at ?S)"
    using assms(1,3) by (auto simp: name_at_save all_registered_def name_free_def intro: names_unique_update)
  obtain s where s: "st_sessions st' = register s (sv_sessions S)" "username s = user br" "owns (br, st') s" "current_server s = st_server st'"
    using bridge_start_registers[OF assms(4)] by auto
  show "has_entry ?S p" if "Option.bind (Some (Ready br st')) open_phase = Some p" for p
    using that s a(2) by (auto simp: has_entry_def vine.get_reg)
  show "has_entry ?S p" if o: "open_at S c' = Some p" "c' \<noteq> c" for c' p
  proof -
    have "name_at S c' = Some (user (fst p))" by (simp add: name_at_def o(1))
    with assms(3) have "\<not> eq_ignore_ascii_case (user (fst p)) (user br)" unfolding name_free_def by blast
    then show ?thesis using all_registeredD[OF assms(1) o(1)] s a(2) by (intro has_entry_frame) (auto simp: vine.get_reg)
  qed
qed

lemma all_registered_leave:
  assumes "all_registered S" "open_at S c = Some (br, st)"
  shows "all_registered (save S c None (leave env br (load S st)))"
proof (rule all_registered_save)
  have a: "accounted S" "live (sv_sessions S)" using assms(1) by (auto simp: all_registered_def accounted_def)
  show "accounted (save S c None (leave env br (load S st)))" using a(1) assms(2) by (rule accounted_leave)
  show "names_unique (name_at (save S c None (leave env br (load S st))))"
    using assms(1) by (simp add: name_at_save all_registered_def names_unique_remove)
  show "has_entry (save S c None (leave env br (load S st))) p" if o: "open_at S c' = Some p" "c' \<noteq> c" for c' p
    using a(2) other_names[OF assms(1) o(1) assms(2) o(2)] all_registeredD[OF assms(1) o(1)]
    by (intro has_entry_frame) (auto simp: leave_effects vine.get_unreg)
qed simp

lemma all_registered_cong:
  "all_registered S \<Longrightarrow> sv_sessions S' = sv_sessions S \<Longrightarrow> sv_online S' = sv_online S \<Longrightarrow> (\<And>c. open_at S' c = open_at S c) \<Longrightarrow> all_registered S'"
  using accounted_cong[of S S'] by (simp add: all_registered_def has_entry_def name_at_def[abs_def])

interpretation registers: connection_invariant env name_free all_registered for env
proof
  show "all_registered S'" if "all_registered S" "sv_sessions S' = sv_sessions S" "sv_online S' = sv_online S" "\<And>c. open_at S' c = open_at S c" for S S'
    using that by (rule all_registered_cong)
  show "all_registered (save S c (Some (Ready br st')) st')" if "all_registered S" "sv_conns S c = Some (Starting br st)" "name_free S br"
    "bridge_start env br (load S st) = (None, st')" for S c br st st'
    using that by (rule all_registered_start)
qed (rule all_registered_own_step all_registered_leave; assumption)+

lemma all_registered_init: "all_registered (server_init w)"
  using accounted_init by (auto simp: all_registered_def open_at_def server_init_def names_unique_def name_at_def)

lemma all_registered_reachable: "reachable env name_free w S \<Longrightarrow> all_registered S"
  by (rule registers.holds_reachable[OF _ all_registered_init])

section \<open>The registry counts the players\<close>

definition folded :: "'w server_state \<Rightarrow> nat \<Rightarrow> string" where
  "folded S c = to_ascii_lowercase (the (name_at S c))"

lemma get_session_name: "live m \<Longrightarrow> get_session u m = Some s \<Longrightarrow> to_ascii_lowercase u = to_ascii_lowercase (username s)"
  by (auto simp: live_def get_session_def dest: map_of_sessions_name)

lemma get_session_cong: "eq_ignore_ascii_case u v \<Longrightarrow> get_session u m = get_session v m"
  by (simp add: get_session_def eq_ignore_ascii_case_def)

lemma folded_inj: "all_registered S \<Longrightarrow> inj_on (folded S) (opened S)"
proof (rule inj_onI)
  fix c c' assume S: "all_registered S" and c: "c \<in> opened S" "c' \<in> opened S" and f: "folded S c = folded S c'"
  then obtain n n' where "name_at S c = Some n" "name_at S c' = Some n'" by (auto simp: opened_def name_at_def)
  with S f show "c = c'" by (auto simp: all_registered_def names_unique_def folded_def eq_ignore_ascii_case_def)
qed

lemma folded_image:
  assumes "all_registered S"
  shows "folded S ` opened S = (\<lambda>s. to_ascii_lowercase (username s)) ` {s. get_session (username s) (sv_sessions S) = Some s}"
proof -
  have live: "live (sv_sessions S)" using assms by (simp add: all_registered_def accounted_def)
  have "\<exists>s. get_session (username s) (sv_sessions S) = Some s \<and> folded S c = to_ascii_lowercase (username s)" if o: "open_at S c = Some p" for c p
  proof -
    obtain s where s: "get_session (user (fst p)) (sv_sessions S) = Some s"
      using all_registeredD[OF assms o] by (auto simp: has_entry_def)
    with get_session_name[OF live s] o show ?thesis
      by (intro exI[of _ s]) (auto simp: folded_def name_at_def get_session_def split: if_splits)
  qed
  moreover have "\<exists>c \<in> opened S. folded S c = to_ascii_lowercase (username s)" if "get_session (username s) (sv_sessions S) = Some s" for s
  proof -
    from that assms obtain c p where "open_at S c = Some p" "eq_ignore_ascii_case (username s) (user (fst p))"
      unfolding all_registered_def accounted_def by blast
    then show ?thesis by (intro bexI[of _ c]) (auto simp: folded_def name_at_def eq_ignore_ascii_case_def opened_def)
  qed
  ultimately show ?thesis by (force simp: opened_def image_iff)
qed

lemma all_registered_count:
  assumes "all_registered S"
  shows "session_count (sv_sessions S) = card (opened S)"
proof -
  let ?R = "{s. get_session (username s) (sv_sessions S) = Some s}"
  have live: "live (sv_sessions S)" using assms by (simp add: all_registered_def accounted_def)
  have "inj_on (\<lambda>s. to_ascii_lowercase (username s)) ?R"
    by (rule inj_onI) (metis (mono_tags) get_session_cong eq_ignore_ascii_case_def mem_Collect_eq option.inject)
  then have "card ?R = card (opened S)"
    using folded_image[OF assms] card_image[OF folded_inj[OF assms]] card_image by metis
  with vine.count_card[OF live] show ?thesis by simp
qed

section \<open>A run is a path of steps\<close>

text \<open>Undisturbed by the others, a connection does by these steps exactly what \<^verbatim>\<open>run\<close> does.\<close>

lemma load_save [simp]: "load (save S c ph st) st = st"
  by (simp add: load_def save_def)

lemma save_save [simp]: "save (save S c ph st) c ph' st' = save S c ph' st'"
  by (simp add: save_def)

lemma save_conns [simp]: "sv_conns (save S c ph st) c = ph"
  by (simp add: save_def)

text \<open>A step from a state just saved, for each phase of the loop.\<close>

lemma step_entered: "server_step env gate (save S c (Some (Ready br st)) st) (save S c (Some (Tunnelling br (tunnel_reset br st))) (tunnel_reset br st))"
  using server_step.entered[of "save S c (Some (Ready br st)) st" c br st] by simp

lemma step_tunnelled:
  assumes "no_registry ev" "tunnel_step env br ev st = (x, st')"
  shows "server_step env gate (save S c (Some (Tunnelling br st)) st)
    (save S c (Some (case x of None \<Rightarrow> Tunnelling br st' | Some x \<Rightarrow> Exited x br st')) st')"
  using assms server_step.tunnelled[of "save S c (Some (Tunnelling br st)) st" c br st ev env st' gate]
    server_step.exited[of "save S c (Some (Tunnelling br st)) st" c br st ev env _ st' gate]
  by (cases x) simp_all

lemma step_exited:
  assumes "handle_exit env br x st = (b, st')"
  shows "server_step env gate (save S c (Some (Exited x br st)) st) (save S c (Some (if b then Ready br st' else Leaving br st')) st')"
  using assms server_step.goes_on[of "save S c (Some (Exited x br st)) st" c x br st env st' gate]
    server_step.ended[of "save S c (Some (Exited x br st)) st" c x br st env st' gate]
  by (cases b) simp_all

lemma step_left: "server_step env gate (save S c (Some (Leaving br st)) st) (save S c None (leave env br st))"
  using server_step.left[of "save S c (Some (Leaving br st)) st" c br st] by simp

lemma tunnel_path:
  assumes "run_schedule (tunnel_step env br) es st = (x, st', es')" "list_all no_registry es"
  shows "(server_step env gate)\<^sup>*\<^sup>* (save S c (Some (Tunnelling br st)) st)
      (save S c (Some (case x of None \<Rightarrow> Tunnelling br st' | Some x \<Rightarrow> Exited x br st')) st')
    \<and> list_all no_registry es'"
  using assms
proof (induction es arbitrary: st)
  case (Cons ev es)
  obtain y st1 where t: "tunnel_step env br ev st = (y, st1)" by fastforce
  from Cons.prems(2) have s: "server_step env gate (save S c (Some (Tunnelling br st)) st)
      (save S c (Some (case y of None \<Rightarrow> Tunnelling br st1 | Some x \<Rightarrow> Exited x br st1)) st1)"
    by (intro step_tunnelled[OF _ t]) simp
  show ?case
  proof (cases y)
    case None
    with Cons t s show ?thesis by (auto intro: converse_rtranclp_into_rtranclp)
  next
    case (Some x')
    with Cons.prems t s show ?thesis by auto
  qed
qed auto

lemma bridge_tunnel_path:
  assumes "bridge_tunnel env br es st = (x, st', es')" "list_all no_registry es"
  shows "(server_step env gate)\<^sup>*\<^sup>* (save S c (Some (Ready br st)) st)
      (save S c (Some (case x of None \<Rightarrow> Tunnelling br st' | Some x \<Rightarrow> Exited x br st')) st')"
    and "list_all no_registry es'"
proof -
  have "run_schedule (tunnel_step env br) es (tunnel_reset br st) = (x, st', es')"
    using assms(1) by (simp add: bridge_tunnel_def tunnel_reset_def)
  note p = tunnel_path[OF this assms(2)]
  show "(server_step env gate)\<^sup>*\<^sup>* (save S c (Some (Ready br st)) st)
      (save S c (Some (case x of None \<Rightarrow> Tunnelling br st' | Some x \<Rightarrow> Exited x br st')) st')"
    using p step_entered by (blast intro: converse_rtranclp_into_rtranclp)
  from p show "list_all no_registry es'" by blast
qed

lemma run_loop_path:
  "run_loop env br es st = (b, st') \<Longrightarrow> list_all no_registry es \<Longrightarrow>
     (server_step env gate)\<^sup>*\<^sup>* (save S c (Some (Ready br st)) st) (save S c (Some (if b then Leaving br st' else Tunnelling br st')) st')"
proof (induction rule: run_loop_induct)
  case (open_end es st st' es')
  then show ?case using bridge_tunnel_path(1)[OF open_end(1,2)] by simp
next
  case (ended es st x st1 es1 st')
  then show ?case
    using bridge_tunnel_path(1)[OF ended.hyps(1) ended.prems, of gate S c] step_exited[OF ended.hyps(2), of gate S c]
    by (simp add: rtranclp.rtrancl_into_rtrancl)
next
  case (again es st x st1 es1 st2 b st')
  note t = bridge_tunnel_path[OF again.hyps(1) again.prems]
  have "(server_step env gate)\<^sup>*\<^sup>* (save S c (Some (Ready br st)) st) (save S c (Some (Ready br st2)) st2)"
    using t(1)[of gate S c] step_exited[OF again.hyps(2), of gate S c] by (simp add: rtranclp.rtrancl_into_rtrancl)
  with again.IH[OF t(2)] show ?case by (meson rtranclp_trans)
qed

lemma run_path:
  assumes "sv_conns S c = Some (Starting br st)" "gate S br" "run env br es (load S st) = (r, st')" "list_all no_registry es"
  shows "(server_step env gate)\<^sup>*\<^sup>* S (save S c (case r of RunOpen \<Rightarrow> Some (Tunnelling br st') | _ \<Rightarrow> None) st')"
proof (cases "bridge_start env br (load S st)")
  case (Pair e st1)
  show ?thesis
  proof (cases e)
    case None
    obtain b st2 where l: "run_loop env br es st1 = (b, st2)" by fastforce
    have "server_step env gate S (save S c (Some (Ready br st1)) st1)"
      using server_step.started[where gate = gate, OF assms(1,2)] Pair None by simp
    then have p: "(server_step env gate)\<^sup>*\<^sup>* S (save S c (Some (if b then Leaving br st2 else Tunnelling br st2)) st2)"
      using run_loop_path[OF l assms(4)] by (meson converse_rtranclp_into_rtranclp)
    show ?thesis
    proof (cases b)
      case True
      with p step_left[of env gate S c br st2] assms(3) Pair None l show ?thesis
        by (auto simp: run_def intro: rtranclp.rtrancl_into_rtrancl)
    qed (use p assms(3) Pair None l in \<open>auto simp: run_def\<close>)
  next
    case (Some err)
    with server_step.start_failed[OF assms(1)] Pair assms(3) show ?thesis by (auto simp: run_def)
  qed
qed

section \<open>Properties\<close>


section \<open>From a command to the player it moves\<close>

lemma send_execute_one:
  assumes "send_execute src u srv = (Inr n, es)" "\<not> eq_ignore_ascii_case u ''all''" "get_session u (source_sessions src) = Some s"
  shows "\<exists>k cfg. find_server src srv = Some k \<and> map_of (servers (source_config src)) k = Some cfg
    \<and> connects es = [(action_tx s, k)]"
proof -
  obtain k where k: "find_server src srv = Some k" "connects es = [(action_tx s, k)]"
    using assms by (auto simp: send_execute_def denied_def split: if_splits option.splits)
  moreover have "map_of (servers (source_config src)) k \<noteq> None"
    using find_server_configured[OF k(1)] by (simp add: server_names_def map_of_eq_None_iff)
  ultimately show ?thesis by blast
qed

lemma switch_path:
  assumes "sv_conns S c = Some (Tunnelling br st)" "st_actions st = []"
    and "ask_connect env br (Some (st_server st)) k (load S st) = (ev, st1)" "\<not> connect_cancelled ev" "connect_target_server ev = k"
    and "map_of (servers (br_proxy_config br)) k = Some cfg" "login_backend env br k cfg (st_dials st) = (Inr (cn, b), d)"
  shows "\<exists>S' st'. (server_step env gate)\<^sup>*\<^sup>* S S' \<and> sv_conns S' c = Some (Ready br st') \<and> st_server st' = k \<and> st_backend st' = cn"
proof -
  let ?st1 = "(load S st)\<lparr>st_actions := [Connect k]\<rparr>" and ?st2 = "load S st"
  let ?S1 = "save S c (Some (Tunnelling br ?st1)) ?st1" and ?S2 = "save S c (Some (Exited (ExitConnect k) br ?st2)) ?st2"
  have [simp]: "st_actions (load S st) = []" "st_dials (load S st) = st_dials st" using assms(2) by (simp_all add: load_def)
  have e: "(load S st)\<lparr>st_actions := []\<rparr> = load S st" using assms(2) by (simp add: load_def)
  have t1: "tunnel_step env br (External (Connect k)) (load S st) = (None, ?st1)" by (simp add: tunnel_step_def)
  have "server_step env gate S ?S1"
    using server_step.tunnelled[OF assms(1) _ t1] by (simp add: no_registry_def)
  moreover have "tunnel_step env br ActionReady ?st1 = (Some (ExitConnect k), ?st2)"
    by (simp add: tunnel_step_def action_loop_def Let_def e)
  from step_tunnelled[OF _ this, of gate S c] have "server_step env gate ?S1 ?S2" by (simp add: no_registry_def)
  moreover obtain st3 where h: "handle_exit env br (ExitConnect k) ?st2 = (True, st3)" "st_server st3 = k" "st_backend st3 = cn"
  proof -
    have "st_dials st1 = st_dials st" using assms(3) by (auto simp: ask_connect_def split: prod.splits)
    then show ?thesis
      using that assms(3-7) by (simp add: handle_exit_def on_connect_def Let_def moved_def announce_connected_def)
  qed
  moreover from step_exited[OF h(1), of gate S c] have "server_step env gate ?S2 (save S c (Some (Ready br st3)) st3)" by simp
  ultimately show ?thesis
    by (intro exI[of _ "save S c (Some (Ready br st3)) st3"] exI[of _ st3]) (auto intro: converse_rtranclp_into_rtranclp)
qed


text \<open>One player, from an empty server to an open bridge.\<close>

definition demo_joining :: "nat server_state" where
  "demo_joining = (server_init 0)\<lparr>sv_conns := (\<lambda>_. None)(0 := Some (Starting demo_bridge (demo_state [] [])))\<rparr>"

lemma demo_starts: "fst (bridge_start (demo_env demo_login) demo_bridge (load demo_joining (demo_state [] []))) = None"
  by code_simp

lemma demo_reached:
  "\<exists>st'. reachable (demo_env demo_login) name_free 0 (save demo_joining 0 (Some (Ready demo_bridge st')) st')
     \<and> bridge_start (demo_env demo_login) demo_bridge (load demo_joining (demo_state [] [])) = (None, st')"
proof -
  obtain st' where st': "bridge_start (demo_env demo_login) demo_bridge (load demo_joining (demo_state [] [])) = (None, st')"
    using demo_starts by (metis prod.collapse)
  have "server_step (demo_env demo_login) name_free (server_init 0) demo_joining"
    unfolding demo_joining_def using server_step.connected[of "server_init 0" 0] by (simp add: server_init_def)
  moreover have "name_free demo_joining demo_bridge"
    unfolding name_free_def name_at_def open_at_def demo_joining_def by (simp add: server_init_def)
  then have "server_step (demo_env demo_login) name_free demo_joining (save demo_joining 0 (Some (Ready demo_bridge st')) st')"
    by (intro server_step.started[OF _ _ st']) (simp_all add: demo_joining_def)
  ultimately show ?thesis using st' by (intro exI[of _ st']) auto
qed


lemma demo_actions: "st_actions (snd (bridge_start (demo_env demo_login) demo_bridge (load demo_joining (demo_state [] [])))) = []"
  by code_simp

lemma demo_find: "find_server \<lparr>sender = Console, source_config = config_default, source_sessions = m\<rparr> ''LOBBY'' = Some ''lobby''"
  by code_simp


end
