(* ===== verification/Conformance.thy ===== *)
theory Conformance
  imports Proxy Plugin_Runtime Router "HOL-Library.Code_Target_Nat"
begin

text \<open>
  The unit tests of the repository, run on the model: every definition is a test function of the
  sources, assertion by assertion, and every lemma evaluates it. A test that goes through code which
  is not part of the repository is left out, unless the part of it that is can be called directly: the tests of
  commands call the executors with the arguments the command parser takes from the input. The burst of
  the connection limiter and the payloads of forwarding and telemetry, also tested there, are the subject of
  theorems.
\<close>

fun contains :: "string \<Rightarrow> string \<Rightarrow> bool" where
  "contains p [] \<longleftrightarrow> p = []"
| "contains p (c # cs) \<longleftrightarrow> starts_with p (c # cs) \<or> contains p cs"

section \<open>Permissions\<close>

definition test_matches_node :: bool where
  "test_matches_node \<longleftrightarrow> matches_node ''*'' ''vine.command.send''
     \<and> matches_node ''vine.command.send'' ''vine.command.send''
     \<and> matches_node ''VINE.COMMAND.SEND'' ''vine.command.send''
     \<and> matches_node ''vine.command.*'' ''vine.command.send''
     \<and> matches_node ''vine.command.*'' ''vine.command.server''
     \<and> \<not> matches_node ''vine.command.*'' ''vine.commander''
     \<and> \<not> matches_node ''vine.command.*'' ''other.command.send''"

definition test_default_permissions :: bool where
  "test_default_permissions \<longleftrightarrow>
     (let cfg = permissions_config_default
      in has_permission cfg ''Steve'' ''vine.command.server'' \<and> has_permission cfg ''Steve'' ''vine.command.glist''
       \<and> has_permission cfg ''Steve'' ''vine.command.list'' \<and> has_permission cfg ''Steve'' ''vine.command.help''
       \<and> \<not> has_permission cfg ''Steve'' ''vine.command.send'' \<and> \<not> has_permission cfg ''Steve'' ''vine.admin''
       \<and> has_permission cfg ''Alex'' ''vine.command.send'' \<and> has_permission cfg ''alex'' ''vine.command.send''
       \<and> has_permission cfg ''Alex'' ''vine.command.server'' \<and> has_permission cfg ''Alex'' ''any.random.node'')"

definition test_negated_permissions :: bool where
  "test_negated_permissions \<longleftrightarrow>
     (let cfg = permissions_config_default\<lparr>groups := [(''moderator'', \<lparr>inherits = [''default''],
                  permissions = [''vine.command.*'', ''-vine.command.send'']\<rparr>)]\<rparr>;
          cfg = cfg\<lparr>users := AList.update ''ModUser'' (Groups [''moderator'']) (users cfg)\<rparr>
      in has_permission cfg ''ModUser'' ''vine.command.server'' \<and> has_permission cfg ''ModUser'' ''vine.command.glist''
       \<and> \<not> has_permission cfg ''ModUser'' ''vine.command.send'')"

definition test_circular_group_inheritance_does_not_loop :: bool where
  "test_circular_group_inheritance_does_not_loop \<longleftrightarrow>
     (let cfg = permissions_config_default\<lparr>groups :=
            [(''group_a'', \<lparr>inherits = [''group_b''], permissions = [''node.a'']\<rparr>),
             (''group_b'', \<lparr>inherits = [''group_a''], permissions = [''node.b'']\<rparr>)]\<rparr>;
          cfg = cfg\<lparr>users := AList.update ''User1'' (Groups [''group_a'']) (users cfg)\<rparr>
      in has_permission cfg ''User1'' ''node.a'' \<and> has_permission cfg ''User1'' ''node.b'')"

definition test_detailed_user_config :: bool where
  "test_detailed_user_config \<longleftrightarrow>
     (let cfg = permissions_config_default\<lparr>users := AList.update ''CustomUser'' (Detailed [''default''] [''custom.perm''])
            (users permissions_config_default)\<rparr>
      in has_permission cfg ''CustomUser'' ''custom.perm'' \<and> has_permission cfg ''CustomUser'' ''vine.command.server''
       \<and> \<not> has_permission cfg ''CustomUser'' ''vine.command.send'')"

lemma test_matches_node_ok: test_matches_node
  by code_simp

lemma test_default_permissions_ok: test_default_permissions
  by code_simp

lemma test_negated_permissions_ok: test_negated_permissions
  by code_simp

lemma test_circular_group_inheritance_does_not_loop_ok: test_circular_group_inheritance_does_not_loop
  by code_simp

lemma test_detailed_user_config_ok: test_detailed_user_config
  by code_simp

section \<open>Sessions\<close>

definition a_session :: "string \<Rightarrow> string \<Rightarrow> channel \<Rightarrow> player_session" where
  "a_session u srv tx = \<lparr>username = u, session_uuid = replicate 16 (of_nat tx), current_server = srv, action_tx = tx,
     client_ip = ''127.0.0.1'', session_protocol = 765\<rparr>"

definition test_session_registration_and_lookup :: bool where
  "test_session_registration_and_lookup \<longleftrightarrow>
     session_count session_manager_new = 0 \<and>
     (let m = register (a_session ''Steve'' ''lobby'' 0) session_manager_new; (removed, m') = unregister ''STEVE'' m
      in session_count m = 1 \<and> map_option username (get_session ''steve'' m) = Some ''Steve''
       \<and> removed \<noteq> None \<and> session_count m' = 0 \<and> get_session ''Steve'' m' = None)"

definition test_session_update_server :: bool where
  "test_session_update_server \<longleftrightarrow>
     (let m = register (a_session ''Alex'' ''lobby'' 0) session_manager_new; m' = update_server ''alex'' ''survival'' m
      in map_option current_server (get_session ''Alex'' m) = Some ''lobby''
       \<and> map_option current_server (get_session ''Alex'' m') = Some ''survival'')"

lemma test_session_registration_and_lookup_ok: test_session_registration_and_lookup
  by code_simp

lemma test_session_update_server_ok: test_session_update_server
  by code_simp

section \<open>Sanitizer and rate limiter\<close>

definition test_username_validation :: bool where
  "test_username_validation \<longleftrightarrow> is_valid_username ''Alex'' \<and> is_valid_username ''Steve_99'' \<and> is_valid_username ''a_''
     \<and> \<not> is_valid_username [] \<and> \<not> is_valid_username ''a'' \<and> \<not> is_valid_username ''A_very_long_username_here''
     \<and> \<not> is_valid_username ''Player!@#'' \<and> \<not> is_valid_username ''Player with space''
     \<and> \<not> is_valid_username (''Player'' @ [CHR 0x00] @ ''Null'')"

definition test_host_sanitizer :: bool where
  "test_host_sanitizer \<longleftrightarrow> sanitize_host ''mc.example.com'' = ''mc.example.com''
     \<and> sanitize_host (''mc.example.com'' @ [CHR 0x00] @ ''malicious_ip'' @ [CHR 0x00] @ ''uuid'') = ''mc.example.commalicious_ipuuid''"

definition test_packet_rate_limiter :: bool where
  "test_packet_rate_limiter \<longleftrightarrow>
     (let l = packet_rate_limiter_new 3 0; (a, l) = record_packet 10 l; (b, l) = record_packet 20 l;
          (c, l) = record_packet 30 l; (d, l) = record_packet 40 l
      in a \<and> b \<and> c \<and> \<not> d)"

lemma test_username_validation_ok: test_username_validation
  by code_simp

lemma test_host_sanitizer_ok: test_host_sanitizer
  by code_simp

lemma test_packet_rate_limiter_ok: test_packet_rate_limiter
  by code_simp

section \<open>PROXY protocol and prefixed streams\<close>

definition home :: socket_addr where
  "home = \<lparr>ip = V4 127 0 0 1, port = 1234\<rparr>"

definition crlf :: string where
  "crlf = [CHR 0x0D, CHR 0x0A]"

definition parsed :: "tcp_stream \<Rightarrow> string \<Rightarrow> string \<Rightarrow> bool" where
  "parsed stream addr rest \<longleftrightarrow>
     (case fst (parse_proxy_protocol tcp_read stream home) of
        Inr res \<Rightarrow> parse_socket_addr addr = Some (client_addr res) \<and> leftover_bytes res = as_bytes rest
      | Inl _ \<Rightarrow> False)"

definition test_proxy_v1_ipv4 :: bool where
  "test_proxy_v1_ipv4 \<longleftrightarrow> parsed [Data (as_bytes (''PROXY TCP4 198.51.100.22 192.0.2.1 54321 25565'' @ crlf @ ''Hello''))]
     ''198.51.100.22:54321'' ''Hello''"

definition test_proxy_v1_unknown :: bool where
  "test_proxy_v1_unknown \<longleftrightarrow> parsed [Data (as_bytes (''PROXY UNKNOWN'' @ crlf @ ''MinecraftPayload''))]
     ''127.0.0.1:1234'' ''MinecraftPayload''"

definition test_proxy_v2_ipv4 :: bool where
  "test_proxy_v2_ipv4 \<longleftrightarrow>
     parsed [Data (PROXY_V2_MAGIC @ [0x21, 0x11] @ u16_to_be 12 @ [10, 0, 0, 99] @ [192, 168, 1, 1] @ u16_to_be 45678
       @ u16_to_be 25565 @ as_bytes ''MC_PACKET'')] ''10.0.0.99:45678'' ''MC_PACKET''"

text \<open>Reading to the end, with a bound on the number of reads.\<close>

fun read_to_end :: "nat \<Rightarrow> 's reader \<Rightarrow> 's \<Rightarrow> bytes option" where
  "read_to_end 0 rd s = None"
| "read_to_end (Suc n) rd s =
     (case rd 32 s of
        (Inl _, _) \<Rightarrow> None
      | (Inr [], _) \<Rightarrow> Some []
      | (Inr bs, s) \<Rightarrow> map_option (\<lambda>r. bs @ r) (read_to_end n rd s))"

definition test_prefixed_read :: bool where
  "test_prefixed_read \<longleftrightarrow>
     read_to_end 9 (poll_read tcp_read) (prefixed_new [Data (as_bytes ''MINECRAFT DATA'')] (as_bytes ''PROXY HEADER ''))
       = Some (as_bytes ''PROXY HEADER MINECRAFT DATA'')"

definition test_empty_prefix :: bool where
  "test_empty_prefix \<longleftrightarrow>
     read_to_end 9 (poll_read tcp_read) (without_prefix [Data (as_bytes ''ONLY DATA'')]) = Some (as_bytes ''ONLY DATA'')"

lemma test_proxy_v1_ipv4_ok: test_proxy_v1_ipv4
  by code_simp

lemma test_proxy_v1_unknown_ok: test_proxy_v1_unknown
  by code_simp

lemma test_proxy_v2_ipv4_ok: test_proxy_v2_ipv4
  by code_simp

lemma test_prefixed_read_ok: test_prefixed_read
  by code_simp

lemma test_empty_prefix_ok: test_empty_prefix
  by code_simp

section \<open>Configuration and Bedrock\<close>

definition test_telemetry_config_defaults :: bool where
  "test_telemetry_config_defaults \<longleftrightarrow>
     (let cfg = telemetry_config_default
      in telemetry_enabled cfg \<and> endpoint cfg = ''https://market.pumpkinmc.org/api/v1/rest/telemetry/heartbeat''
       \<and> interval_secs cfg = 300 \<and> \<not> public_listing cfg \<and> tele_server_name cfg = None)"

definition test_build_advertisement_string :: bool where
  "test_build_advertisement_string \<longleftrightarrow>
     (let cfg = \<lparr>bedrock_enabled = True, bedrock_bind_address = ''0.0.0.0:19132'', bedrock_motd = ''Vine Server'',
            sub_motd = ''Bedrock Proxy'', bedrock_protocol_version = 2169, bedrock_version_name = ''1.26.45'', level_name = ''Lobby'',
            game_mode = ''Survival'', game_mode_id = 0, bedrock_max_players = 50, cfg_server_guid = 12345\<rparr>
      in starts_with (''MCPE;Vine Server'' @ nl @ ''Bedrock Proxy;2169;1.26.45;3;50;12345;Lobby;Survival;0;19132;19133;0;'')
           (build_advertisement_string 3 (bedrock_status_handler_new 99 cfg 19132)))"

lemma test_telemetry_config_defaults_ok: test_telemetry_config_defaults
  by code_simp

lemma test_build_advertisement_string_ok: test_build_advertisement_string
  by code_simp

section \<open>Commands\<close>

definition plain_backend :: "string \<Rightarrow> backend_config" where
  "plain_backend a = \<lparr>address = a, forwarding = NoForwarding, secret = None, icon_path = None, motd_line1 = None, motd_line2 = None\<rparr>"

definition with_server :: "string \<Rightarrow> string \<Rightarrow> config \<Rightarrow> config" where
  "with_server n a cfg = cfg\<lparr>servers := AList.update n (plain_backend a) (servers cfg)\<rparr>"

definition error_contains :: "string \<Rightarrow> command_result \<Rightarrow> bool" where
  "error_contains s r = (case fst r of Inl t \<Rightarrow> contains s (text_of t) | Inr _ \<Rightarrow> False)"

definition is_ok :: "command_result \<Rightarrow> bool" where
  "is_ok r = (\<not> isl (fst r))"

definition received :: "channel \<Rightarrow> command_result \<Rightarrow> player_action list" where
  "received tx r = concat (map (\<lambda>e. case e of Send tx' a \<Rightarrow> if tx' = tx then [a] else [] | ConsoleLine _ \<Rightarrow> []) (snd r))"

definition test_parse_address :: bool where
  "test_parse_address \<longleftrightarrow> parse_address ''127.0.0.1:25565'' = Some (''127.0.0.1'', 25565)
     \<and> parse_address ''mc.example.com:25577'' = Some (''mc.example.com'', 25577) \<and> parse_address ''invalid'' = None"

definition test_send_command_execution :: bool where
  "test_send_command_execution \<longleftrightarrow>
     (let src = \<lparr>sender = Console, source_config = with_server ''survival'' ''127.0.0.1:25567'' config_default,
                 source_sessions = register (a_session ''Steve'' ''lobby'' 1) session_manager_new\<rparr>;
          denied_src = \<lparr>sender = Player ''RegularPlayer'' 2, source_config = config_default, source_sessions = session_manager_new\<rparr>;
          r = send_execute src ''Steve'' ''survival''
      in is_ok r \<and> hd (received 1 r) = Connect ''survival''
       \<and> error_contains ''permission'' (send_execute denied_src ''Steve'' ''survival''))"

definition test_send_command_unknown_server :: bool where
  "test_send_command_unknown_server \<longleftrightarrow>
     error_contains ''Unknown backend server''
       (send_execute \<lparr>sender = Console, source_config = config_default, source_sessions = session_manager_new\<rparr> ''Steve'' ''nonexistent'')"

definition test_send_command_offline_player :: bool where
  "test_send_command_offline_player \<longleftrightarrow>
     error_contains (''Player '' @ [CHR 0x27] @ ''Alex'' @ [CHR 0x27] @ '' is not online'')
       (send_execute \<lparr>sender = Console, source_config = with_server ''survival'' ''127.0.0.1:25567'' config_default,
          source_sessions = session_manager_new\<rparr> ''Alex'' ''survival'')"

definition test_send_command_suggestions :: bool where
  "test_send_command_suggestions \<longleftrightarrow>
     (let src = \<lparr>sender = Console,
            source_config = with_server ''lobby'' ''127.0.0.1:25565'' (with_server ''survival'' ''127.0.0.1:25567'' config_default),
            source_sessions = register (a_session ''Steve'' ''lobby'' 1) session_manager_new\<rparr>
      in ''all'' \<in> set (target_suggest src []) \<and> ''Steve'' \<in> set (target_suggest src [])
       \<and> ''survival'' \<in> set (server_suggest src []) \<and> ''lobby'' \<in> set (server_suggest src []))"

definition message_contains :: "string \<Rightarrow> player_action \<Rightarrow> bool" where
  "message_contains s a = (case a of Message t \<Rightarrow> contains s (text_of t) | _ \<Rightarrow> False)"

definition test_glist_empty :: bool where
  "test_glist_empty \<longleftrightarrow>
     (let r = glist_execute \<lparr>sender = Player ''TestPlayer'' 1, source_config = with_server ''lobby'' ''127.0.0.1:25565'' config_default,
                source_sessions = session_manager_new\<rparr>
      in is_ok r \<and> message_contains ''[lobby] (0):'' (hd (received 1 r))
       \<and> message_contains ''Total players online: 0'' (hd (received 1 r)))"

definition test_glist_with_players :: bool where
  "test_glist_with_players \<longleftrightarrow>
     (let r = glist_execute \<lparr>sender = Player ''Admin'' 3,
                source_config = with_server ''survival'' ''127.0.0.1:25566'' (with_server ''lobby'' ''127.0.0.1:25565'' config_default),
                source_sessions = register (a_session ''Alex'' ''survival'' 2) (register (a_session ''Steve'' ''lobby'' 1) session_manager_new)\<rparr>
      in is_ok r \<and> message_contains ''[lobby] (1): Steve'' (hd (received 3 r))
       \<and> message_contains ''[survival] (1): Alex'' (hd (received 3 r))
       \<and> message_contains ''Total players online: 2'' (hd (received 3 r)))"

definition test_server_command_execution :: bool where
  "test_server_command_execution \<longleftrightarrow>
     (let src = \<lparr>sender = Player ''Steve'' 1, source_config = config_default,
                 source_sessions = register (a_session ''Steve'' ''lobby'' 1) session_manager_new\<rparr>;
          info = server_info_execute src; switch = server_switch_execute src ''survival''
      in is_ok info \<and> message_contains [] (hd (received 1 info))
       \<and> is_ok switch \<and> message_contains [] (received 1 switch ! 0) \<and> received 1 switch ! 1 = Connect ''survival''
       \<and> \<not> is_ok (server_switch_execute src ''lobby'') \<and> \<not> is_ok (server_switch_execute src ''not_a_server''))"

lemma test_parse_address_ok: test_parse_address
  by code_simp

lemma test_send_command_execution_ok: test_send_command_execution
  by code_simp

lemma test_send_command_unknown_server_ok: test_send_command_unknown_server
  by code_simp

lemma test_send_command_offline_player_ok: test_send_command_offline_player
  by code_simp

lemma test_send_command_suggestions_ok: test_send_command_suggestions
  by code_simp

lemma test_glist_empty_ok: test_glist_empty
  by code_simp

lemma test_glist_with_players_ok: test_glist_with_players
  by code_simp

lemma test_server_command_execution_ok: test_server_command_execution
  by code_simp

section \<open>Server list\<close>

definition u32_be :: "u32 \<Rightarrow> bytes" where
  "u32_be w = [ucast (drop_bit 24 w), ucast (drop_bit 16 w), ucast (drop_bit 8 w), ucast w]"

definition create_test_png :: "u32 \<Rightarrow> u32 \<Rightarrow> bytes" where
  "create_test_png w h = PNG_SIGNATURE @ u32_be 13 @ as_bytes ''IHDR'' @ u32_be w @ u32_be h @ [8, 6, 0, 0, 0] @ [0, 0, 0, 0]"

definition png_disk :: disk where
  "png_disk = \<lparr>read_file = (\<lambda>p. if p = ''icon.png'' then Inr (create_test_png 64 64) else Inl ''not found''),
     file_mtime = (\<lambda>p. if p = ''icon.png'' then Some (Some 1) else None)\<rparr>"

definition test_valid_png_parsing :: bool where
  "test_valid_png_parsing \<longleftrightarrow>
     (case from_bytes (\<lambda>_. ''AAAA'') png_disk (create_test_png 64 64) ''test.png'' of
        Inr icon \<Rightarrow> icon_width icon = 64 \<and> icon_height icon = 64 \<and> starts_with ''data:image/png;base64,'' (data_uri icon)
      | Inl _ \<Rightarrow> False)"

definition test_invalid_signature :: bool where
  "test_invalid_signature \<longleftrightarrow> isl (from_bytes (\<lambda>_. ''AAAA'') png_disk (replicate 32 0) ''test.png'')"

definition test_icon_manager_resolution :: bool where
  "test_icon_manager_resolution \<longleftrightarrow>
     (let m = status_icon_manager_new (\<lambda>_. ''AAAA'') png_disk (Some ''default.png'') [(''survival'', ''survival.png'')]
                [(''mc.survival.com'', ''survival'')] ''lobby''
      in resolve_icon_path m (Some ''mc.survival.com'') = Some ''survival.png''
       \<and> resolve_icon_path m (Some ''other.com'') = Some ''default.png'')"

definition test_icon_manager_default_none :: bool where
  "test_icon_manager_default_none \<longleftrightarrow>
     (let m = status_icon_manager_new (\<lambda>_. ''AAAA'') png_disk None [] [] ''lobby''
      in resolve_icon_path m None = None \<and> resolve_icon_path m (Some ''play.example.com'') = None
       \<and> fst (get_icon_for_host (\<lambda>_. ''AAAA'') png_disk None m) = None)"

text \<open>The answer is compared before it is written as JSON, which is third-party code.\<close>

definition answer_text :: "status_json \<Rightarrow> string option" where
  "answer_text j = Some (json_text j @ [CHR 0x00] @ show_nat (json_online j) @ [CHR 0x00]
     @ (case json_favicon j of Some u \<Rightarrow> ''favicon:'' @ u | None \<Rightarrow> []))"

definition test_motd :: motd_config where
  "test_motd = \<lparr>line1 = ''Global Line 1'', line2 = ''Global Line 2'', motd_max_players = 50, motd_version_name = ''Vine Proxy'',
     motd_protocol_version = 776, sample_players = [''SamplePlayer''], motd_icon_path = Some ''icon.png'', show_sample_players = True\<rparr>"

definition v_26_2 :: java_version where
  "v_26_2 = \<lparr>is_unknown = False, protocol_number = 776\<rparr>"

definition test_status_response_with_icon_and_virtual_hosts :: bool where
  "test_status_response_with_icon_and_virtual_hosts \<longleftrightarrow>
     (let servers_map = [(''survival'', (plain_backend ''127.0.0.1:25567'')\<lparr>motd_line1 := Some ''Survival Line 1'', motd_line2 := Some ''Survival Line 2''\<rparr>)];
          forced = [(''mc.survival.com'', ''survival'')];
          icons = status_icon_manager_new (\<lambda>_. ''AAAA'') png_disk (Some ''icon.png'') [] forced ''lobby'';
          h = status_handler_new test_motd servers_map forced;
          (global, icons) = build_status_response answer_text (\<lambda>_. ''AAAA'') png_disk 5 h v_26_2 None icons;
          (vhost, icons) = build_status_response answer_text (\<lambda>_. ''AAAA'') png_disk 5 h v_26_2 (Some ''mc.survival.com'') icons
      in contains (''Global Line 1'' @ nl @ ''Global Line 2'') global \<and> contains ([CHR 0x00] @ ''5'' @ [CHR 0x00]) global
       \<and> contains ''favicon:data:image/png;base64,'' global
       \<and> contains (''Survival Line 1'' @ nl @ ''Survival Line 2'') vhost)"

definition test_status_response_default_without_icon :: bool where
  "test_status_response_default_without_icon \<longleftrightarrow>
     (let mc = \<lparr>line1 = ''Vine Proxy'', line2 = ''No Icon'', motd_max_players = 20, motd_version_name = ''Vine'',
            motd_protocol_version = 776, sample_players = [], motd_icon_path = None, show_sample_players = False\<rparr>;
          icons = status_icon_manager_new (\<lambda>_. ''AAAA'') png_disk None [] [] ''lobby''
      in \<not> contains ''favicon'' (fst (build_status_response answer_text (\<lambda>_. ''AAAA'') png_disk 0 (status_handler_new mc [] []) v_26_2 None icons)))"

lemma test_valid_png_parsing_ok: test_valid_png_parsing
  by code_simp

lemma test_invalid_signature_ok: test_invalid_signature
  by code_simp

lemma test_icon_manager_resolution_ok: test_icon_manager_resolution
  by code_simp

lemma test_icon_manager_default_none_ok: test_icon_manager_default_none
  by code_simp

lemma test_status_response_with_icon_and_virtual_hosts_ok: test_status_response_with_icon_and_virtual_hosts
  by code_simp

lemma test_status_response_default_without_icon_ok: test_status_response_default_without_icon
  by code_simp

section \<open>Forwarding\<close>

definition hex2 :: "u8 \<Rightarrow> string" where
  "hex2 b = (if unat b < 16 then ''0'' else []) @ show_hex (unat b)"

definition test_player :: "string \<Rightarrow> authenticated_player" where
  "test_player n = \<lparr>player_id = [0xd8, 0xf4, 0xa1, 0xe0, 0x0f, 0x1b, 0x4c, 0x3a, 0x9f, 0x2e, 0x1a, 0x2b, 0x3c, 0x4d, 0x5e, 0x6f],
     player_name = n, properties = []\<rparr>"

definition test_bungeecord_host_formatting :: bool where
  "test_bungeecord_host_formatting \<longleftrightarrow>
     (case parse_ip ''192.0.2.1'' of
        None \<Rightarrow> False
      | Some a \<Rightarrow>
          (let host = build_bungeecord_host (demo_ext\<lparr>uuid_simple := (\<lambda>u. concat (map hex2 u))\<rparr>) ''play.example.com'' a (test_player ''Steve'')
           in host = ''play.example.com'' @ [CHR 0x00] @ ''192.0.2.1'' @ [CHR 0x00] @ ''d8f4a1e00f1b4c3a9f2e1a2b3c4d5e6f'' @ [CHR 0x00] @ ''[]''))"

lemma test_bungeecord_host_formatting_ok: test_bungeecord_host_formatting
  by code_simp

section \<open>Suggestions and the command tree\<close>

definition test_decode_backend_suggestions :: bool where
  "test_decode_backend_suggestions \<longleftrightarrow>
     (case decode_backend_suggestions mc_codec demo_proto demo_version
        (encode_suggestions mc_codec (\<lambda>t. written mc_write_string (text_of t)) 42 1 3
          [\<lparr>suggestion_text = ''say'', tooltip = Some (Text ''broadcast message'')\<rparr>, \<lparr>suggestion_text = ''spawnpoint'', tooltip = None\<rparr>]) of
        Some (i, start, len, ms) \<Rightarrow> i = 42 \<and> start = 1 \<and> len = 3 \<and> length ms = 2 \<and> suggestion_text (ms ! 0) = ''say''
          \<and> tooltip (ms ! 0) \<noteq> None \<and> suggestion_text (ms ! 1) = ''spawnpoint'' \<and> tooltip (ms ! 1) = None
      | None \<Rightarrow> False)"

lemma test_decode_backend_suggestions_ok: test_decode_backend_suggestions
  by code_simp

definition test_merge_pending_proxy_and_backend_suggestions :: bool where
  "test_merge_pending_proxy_and_backend_suggestions \<longleftrightarrow>
     map suggestion_text (merge_matches
       [(''server'', Some ''Switch or view backend server''), (''send'', Some ''Send players to a backend'')]
       [\<lparr>suggestion_text = ''server'', tooltip = None\<rparr>, \<lparr>suggestion_text = ''status'', tooltip = None\<rparr>])
     = [''send'', ''server'', ''status'']"

definition test_inject_proxy_commands :: bool where
  "test_inject_proxy_commands \<longleftrightarrow>
     (case (write_node demo_proto demo_version \<lparr>children = [1], node_type = RootNode\<rparr>,
            write_node demo_proto demo_version \<lparr>children = [], node_type = LiteralNode ''say'' True\<rparr>) of
        (Some root_node, Some say_node) \<Rightarrow>
          (case inject_proxy_commands mc_codec demo_proto demo_version (varint_nat 2 @ root_node @ say_node @ varint_nat 0)
                  [(''server'', ''desc''), (''list'', ''desc'')] of
             Some injected \<Rightarrow> take 6 injected = [5, 0, 3, 1, 2, 4] \<and> last injected = 0
           | None \<Rightarrow> False)
      | _ \<Rightarrow> False)"

lemma test_merge_pending_proxy_and_backend_suggestions_ok: test_merge_pending_proxy_and_backend_suggestions
  by code_simp

lemma test_inject_proxy_commands_ok: test_inject_proxy_commands
  by code_simp

section \<open>Plugins\<close>

definition test_plugin_manager_empty_dir :: bool where
  "test_plugin_manager_empty_dir \<longleftrightarrow>
     (case load_plugins demo_host (Some (Some [])) (dispatcher_new, init_proxy_context (plugin_manager_new ''plugins'')) 0 of
        (n, dm, w) \<Rightarrow> n = 0 \<and> loaded_plugins (snd (fst (unload_plugins demo_host dm w))) = [])"

definition test_plugin_manager_event_dispatch :: bool where
  "test_plugin_manager_event_dispatch \<longleftrightarrow>
     (let m = init_proxy_context (plugin_manager_new ''plugins''); u = ''00000000-0000-0000-0000-000000000001'';
          ping = \<lparr>ping_client_ip = ''127.0.0.1'', ping_protocol_version = 765, ping_virtual_host = ''localhost'', ping_motd = ''A Minecraft Proxy'',
            ping_max_players = 100, ping_online_players = 0, ping_version_name = ''Vine 1.21''\<rparr>;
          pre = \<lparr>pre_client_ip = ''127.0.0.1'', pre_username = ''Player1'', pre_protocol_version = 765, pre_virtual_host = ''localhost'',
            pre_cancelled = False, pre_cancel_reason = None\<rparr>;
          login = \<lparr>login_uuid = u, login_username = ''Player1'', login_client_ip = ''127.0.0.1'', login_cancelled = False, login_cancel_reason = None\<rparr>;
          con = \<lparr>connect_uuid = u, connect_username = ''Player1'', connect_current_server = None, connect_target_server = ''lobby'',
            connect_cancelled = False, connect_cancel_reason = None\<rparr>;
          chat = \<lparr>chat_uuid = u, chat_username = ''Player1'', chat_message = ''Hello proxy!'', chat_cancelled = False\<rparr>;
          com = \<lparr>command_uuid = u, command_username = ''Player1'', command_text = ''ping'', command_cancelled = False\<rparr>;
          msg = \<lparr>message_channel = ''vine:test'', message_data = [1, 2, 3], message_player_uuid = Some u, message_server_name = Some ''lobby'',
            message_cancelled = False\<rparr>;
          (ping, w) = fire_proxy_ping demo_host m ping 0; (pre, w) = fire_player_pre_login demo_host m pre w;
          (login, w) = fire_player_login demo_host m login w; (con, w) = fire_server_connect demo_host m con w;
          w = fire_server_connected demo_host m \<lparr>connected_uuid = u, connected_username = ''Player1'', connected_server_name = ''lobby''\<rparr> w;
          w = fire_player_join demo_host m \<lparr>join_uuid = u, join_username = ''Player1'', join_client_ip = ''127.0.0.1'', join_initial_server = ''lobby''\<rparr> w;
          (chat, w) = fire_player_chat demo_host m chat w; (com, w) = fire_player_command demo_host m com w;
          (msg, w) = fire_plugin_message demo_host m msg w;
          w = fire_player_disconnect demo_host m \<lparr>disconnect_uuid = u, disconnect_username = ''Player1'', disconnect_last_server = Some ''lobby''\<rparr> w
      in ping_motd ping = ''A Minecraft Proxy'' \<and> ping_max_players ping = 100 \<and> \<not> pre_cancelled pre \<and> \<not> login_cancelled login
       \<and> connect_target_server con = ''lobby'' \<and> \<not> connect_cancelled con \<and> chat_message chat = ''Hello proxy!'' \<and> \<not> chat_cancelled chat
       \<and> \<not> command_cancelled com \<and> \<not> message_cancelled msg \<and> w = 0)"

definition test_event_priority_ordering :: bool where
  "test_event_priority_ordering \<longleftrightarrow> Lowest < Low \<and> Low < Normal \<and> Normal < High \<and> High < Highest \<and> Highest < Monitor"

lemma test_plugin_manager_empty_dir_ok: test_plugin_manager_empty_dir
  by code_simp

lemma test_plugin_manager_event_dispatch_ok: test_plugin_manager_event_dispatch
  by code_simp

lemma test_event_priority_ordering_ok: test_event_priority_ordering
  by code_simp

section \<open>Telemetry\<close>

definition identity_key_generation_and_persistence :: bool where
  "identity_key_generation_and_persistence \<longleftrightarrow>
     (let path = ''tmp/.pumpkin/identity.key'';
          d0 = demo_key_disk\<lparr>kd_files := [], kd_dirs := [''tmp'']\<rparr>;
          (k1, d1) = load_or_generate_key demo_tele path d0; (k2, d2) = load_or_generate_key demo_tele path d1;
          (k3, d3) = load_or_generate_key demo_tele path (d2\<lparr>kd_files := AList.update path (as_bytes ''corrupted-key-data'') (kd_files d2)\<rparr>)
      in map_of (kd_files d0) path = None
       \<and> \<not> isl k1 \<and> map_option length (map_of (kd_files d1) path) = Some 32 \<and> map_of (kd_modes d1) path = Some 384
       \<and> k2 = k1 \<and> \<not> isl k3 \<and> k3 \<noteq> k1 \<and> map_option length (map_of (kd_files d3) path) = Some 32)"

lemma identity_key_generation_and_persistence_ok: identity_key_generation_and_persistence
  by code_simp

end
