(* ===== verification/Spec2Isabelle.thy ===== *)
theory Spec2Isabelle
  imports Sanitizer Rate_Limiter Proxy_Protocol Permissions Session Vine_Config Router Forwarding Bedrock Status Plugin_Runtime Vine_Main Connections Conformance
begin

text \<open>
  Vine is a proxy for Minecraft servers, written in Rust (\<^verbatim>\<open>src/src/\<close>). It accepts players, checks
  who they are, connects each to one of several backend servers, moves them between backends,
  answers server list pings, runs commands and WebAssembly plugins, and reports to a telemetry
  service. This development models its code function by function and proves what the functions
  promise each other and the operator.

  \<^bold>\<open>How the program works.\<close> \<^verbatim>\<open>main.rs\<close> loads the configuration and runs the server of \<^verbatim>\<open>proxy.rs\<close>: an
  accept loop that spawns one task per connection until the shutdown signal. A task reads the PROXY
  header if one is expected, asks the rate limiter, and hands the connection to \<^verbatim>\<open>client.rs\<close>:
  handshake, then either a server list answer or a login, with encryption and a query to Mojang in
  online mode. A player who is let in is routed to a backend and given to \<^verbatim>\<open>backend/bridge.rs\<close>, which logs
  in at the backend (with one of three ways of forwarding the identity), enters the player into the
  session registry and tunnels packets both ways until a side ends or the player is moved. The tasks
  share the registry, the player counter, the plugins and the rate limiter, and reach each other
  through the channels kept in the registry.

  \<^bold>\<open>Theories and sources.\<close> Definitions bear the names of the Rust functions, in the order of the file;
  a struct is a record, an enum a datatype, \<^verbatim>\<open>Result\<close> a sum with the error on the left, machine integers
  are words of their width.

  \<^item> \<^verbatim>\<open>Vine_Prelude\<close>: Rust's strings, integers, maps and time as the sources use them, with the lemmas
    the components share. \<^verbatim>\<open>F64\<close>: binary64 arithmetic with its rounding, for the token bucket.
    \<^verbatim>\<open>Net_Addr\<close>: IP and socket addresses, their texts and parsers.
  \<^item> \<^verbatim>\<open>Sanitizer\<close> (\<^verbatim>\<open>security/sanitizer.rs\<close>): user names and hosts; a sanitised host has no control
    character and is UTF-8 again.
  \<^item> \<^verbatim>\<open>Rate_Limiter\<close> (\<^verbatim>\<open>security/rate_limiter.rs\<close>): buckets stay within the burst over every history; no
    second of a connection lets more than twice the packet limit through.
  \<^item> \<^verbatim>\<open>Reader\<close> (\<^verbatim>\<open>network/prefixed_stream.rs\<close>) and \<^verbatim>\<open>Proxy_Protocol\<close> (\<^verbatim>\<open>network/proxy_protocol.rs\<close>): the locale
    \<^verbatim>\<open>async_reader\<close> is the interface of a byte stream, interpreted on a socket that delivers arbitrary
    segments and on the prefixed stream over it. Parsing refines a specification on the whole input:
    whatever the segmentation, the address is that of the header and no later byte is lost.
  \<^item> \<^verbatim>\<open>Permissions\<close> (\<^verbatim>\<open>permissions.rs\<close>): the walk over inherited groups, cycles included, collects exactly
    the groups reachable by inheritance; a denial always wins.
  \<^item> \<^verbatim>\<open>Session\<close> (\<^verbatim>\<open>session.rs\<close>): the locale \<^verbatim>\<open>session_registry\<close> states what commands, bridge and plugins
    rely on; the registry is an interpretation.
  \<^item> \<^verbatim>\<open>Vine_Config\<close> (\<^verbatim>\<open>config.rs\<close>, \<^verbatim>\<open>bedrock/config.rs\<close>), \<^verbatim>\<open>Router\<close> (\<^verbatim>\<open>backend/mod.rs\<close>), \<^verbatim>\<open>Status\<close>
    (\<^verbatim>\<open>status.rs\<close>, \<^verbatim>\<open>status/icon.rs\<close>), \<^verbatim>\<open>Bedrock\<close> (\<^verbatim>\<open>bedrock/status.rs\<close>, \<^verbatim>\<open>bedrock/listener.rs\<close>): configuration,
    routing by virtual host, the server list entry with its icon cache, and the Bedrock answer.
  \<^item> \<^verbatim>\<open>Auth\<close> (\<^verbatim>\<open>auth.rs\<close>) and \<^verbatim>\<open>Forwarding\<close> (\<^verbatim>\<open>backend/forwarding.rs\<close>): a valid name cannot change the query to
    Mojang; the three forwarding formats decode to the player and cannot be forged through the host.
  \<^item> \<^verbatim>\<open>Command\<close> (\<^verbatim>\<open>command/\<close>): executors, suggestions and dispatcher; nothing happens without the
    permission, \<^verbatim>\<open>/send\<close> moves exactly the selected players.
  \<^item> \<^verbatim>\<open>Plugin_Manager\<close> (\<^verbatim>\<open>plugin/api.rs\<close>, \<^verbatim>\<open>plugin/mod.rs\<close>, \<^verbatim>\<open>plugin/loader/wasm/mod.rs\<close>) and \<^verbatim>\<open>Plugin_Host\<close>
    (\<^verbatim>\<open>plugin/loader/wasm/wasm_host/\<close>): events go through the handlers in order of priority, the first
    cancellation is final, a failing handler changes nothing; loading keeps the plugins whose
    \<^verbatim>\<open>on_load\<close> succeeded; what plugins may ask of the proxy.
  \<^item> \<^verbatim>\<open>Plugin_Runtime\<close> (\<^verbatim>\<open>wasm_host/mod.rs\<close>): calls into a plugin, whose unknown code is a tree of host
    calls continued by the host's answers. The locale \<^verbatim>\<open>host_contract\<close> lifts what holds of every host call to
    every guest; its interpretation shows that a plugin is confined to its interface.
  \<^item> \<^verbatim>\<open>Codec\<close>, \<^verbatim>\<open>Protocol\<close>: the interface of the third-party packet library, and the few formats the
    proxy builds itself.
  \<^item> \<^verbatim>\<open>Backend_Login\<close>, \<^verbatim>\<open>Command_Tree\<close>, \<^verbatim>\<open>Tunnel\<close>, \<^verbatim>\<open>Bridge\<close> (\<^verbatim>\<open>backend/bridge.rs\<close>): the login transcript; the
    two rewritten packets; the tunnel, whose concurrent activities are the events of an arbitrary
    schedule; and the run of a player from joining to leaving. The locale \<^verbatim>\<open>schedule_order\<close> lifts a
    relation kept by every event to every schedule. It is interpreted for what reaches the
    backend (a subsequence of what the client sent), for what reaches the client (in order), for
    the player's place and for the registry.
  \<^item> \<^verbatim>\<open>Client\<close> (\<^verbatim>\<open>client.rs\<close>): handshake, status and login; in online mode only a vouched-for player
    gets as far as the bridge.
  \<^item> \<^verbatim>\<open>Connections\<close>: any number of runs at once, as a step relation on the shared state. The locale
    \<^verbatim>\<open>connection_invariant\<close> says what makes an invariant of it; its interpretations show that counter
    and registry agree with the open connections. A run on its own is a path of these steps, and
    \<^verbatim>\<open>/send\<close>, whose effects are messages to other connections, is followed from the command to the
    backend at which the player ends up.
  \<^item> \<^verbatim>\<open>Telemetry\<close> (\<^verbatim>\<open>telemetry.rs\<close>): the identity key on disk, signed requests, the reporting task.
  \<^item> \<^verbatim>\<open>Proxy\<close> (\<^verbatim>\<open>proxy.rs\<close>): construction, admission, connection task, accept loop, console, shutdown.
    The theorems here put the components together: admission by effective address,
    authentication from the first byte to the registry, orderly shutdown.
  \<^item> \<^verbatim>\<open>Vine_Main\<close> (\<^verbatim>\<open>network/mod.rs\<close>, \<^verbatim>\<open>main.rs\<close>): socket options as system calls that may fail, and the
    program from its arguments to its exit code.
  \<^item> \<^verbatim>\<open>Conformance\<close>: unit tests of the repository, transcribed and evaluated on the model.

  \<^bold>\<open>Parameters.\<close> Code that is not part of the repository is an argument: the packet codec and the
  packet formats, RSA, AES, HMAC and Ed25519, HTTP, JSON and TOML, base64, the command parser, the
  guest code of plugins, files, sockets and clocks. Where a theorem relies on documented behaviour of
  such code (a decoder inverts its encoder, a genuine signature verifies), it is a named hypothesis,
  and an example shows a concrete function that satisfies it.

  \<^bold>\<open>Time, loops and scheduling.\<close> No definition uses fuel. Loops over sockets and channels run over the
  list of what arrives; read loops end because each round consumes input; the loop of a run ends
  because every tunnel that ends has used up part of the schedule. A theorem about every schedule
  is thus a theorem about every finite prefix of an execution, and that a connection ends is proved
  of the schedules that poll the side that has hung up. Clocks are explicit instants.

  \<^bold>\<open>Not modelled.\<close> The log lines of the proxy itself; the Rust and wasmtime glue around plugin stores and the generated
  bindings (\<^verbatim>\<open>wasm_host/wit\<close>, \<^verbatim>\<open>concurrent_store.rs\<close>); set-up of logging; tests that go through third-party
  code. A guest is a finite tree of host calls: one that never returns, or that the host interrupts, is
  not covered. Poisoned locks are modelled where the sources react to them. Memory exhaustion and panics in
  third-party code are not.

  \<^bold>\<open>What remains.\<close> Every part of the repository with logic of its own is modelled. What could still be
  added is the interleaving of admissions with running connections on one clock, and
  guests of several plugins that call the host at the same time.
\<close>

end
